(* ===== verification/Serf_Prelude.thy ===== *)
theory Serf_Prelude
  imports Main "HOL-Library.Word" "HOL-Library.AList"
begin

text \<open>
  The vocabulary the components share.

  \<^item> The machine integers and byte strings of the Rust code.
  \<^item> Hash maps as association lists: the order of the list stands for the
    unspecified iteration order of a Rust \<open>HashMap\<close>, and the order of insertion
    of an \<open>IndexMap\<close>.
  \<^item> Fallible computations as a sum type, with the error on the left.
  \<^item> Labelled runs of a step relation and the contract of an inductive
    invariant, which the concurrent components instantiate.
\<close>

section \<open>Types and result values\<close>

type_synonym u8 = "8 word"
type_synonym u32 = "32 word"
type_synonym u64 = "64 word"
type_synonym bytes = "u8 list"
type_synonym ('k, 'v) hash_map = "('k \<times> 'v) list"

fun bind_res :: "'e + 'a \<Rightarrow> ('a \<Rightarrow> 'e + 'b) \<Rightarrow> 'e + 'b" where
  "bind_res (Inl e) f = Inl e"
| "bind_res (Inr x) f = f x"

fun map_res :: "('a \<Rightarrow> 'b) \<Rightarrow> 'e + 'a \<Rightarrow> 'e + 'b" where
  "map_res f (Inl e) = Inl e"
| "map_res f (Inr x) = Inr (f x)"

fun mapM_res :: "('a \<Rightarrow> 'e + 'b) \<Rightarrow> 'a list \<Rightarrow> 'e + 'b list" where
  "mapM_res f [] = Inr []"
| "mapM_res f (x # xs) =
     (case f x of Inl e \<Rightarrow> Inl e
      | Inr y \<Rightarrow> (case mapM_res f xs of Inl e \<Rightarrow> Inl e | Inr ys \<Rightarrow> Inr (y # ys)))"

text \<open>Where the code panics, an operation has no result: the panics it can raise.
  A loop that makes no progress has none either.\<close>

datatype panic =
    Division_by_zero | Index_out_of_bounds | Unwrap_none | Zero_capacity | Subtract_overflow
  | Explicit_panic | No_progress

section \<open>Labelled runs\<close>

inductive run :: "('s \<Rightarrow> 'e \<Rightarrow> 's \<Rightarrow> bool) \<Rightarrow> 's \<Rightarrow> 'e list \<Rightarrow> 's \<Rightarrow> bool"
  for step :: "'s \<Rightarrow> 'e \<Rightarrow> 's \<Rightarrow> bool" where
  run_nil: "run step s [] s"
| run_snoc: "run step s es t \<Longrightarrow> step t e u \<Longrightarrow> run step s (es @ [e]) u"

inductive_cases run_nilE: "run step s [] t"

section \<open>Generic lemmas\<close>

named_theorems hm_simps \<open>lookup after an update of a hash map\<close>

lemmas hm_conv [hm_simps] = update_conv' delete_conv'

lemma hm_dom: "fst ` set m = dom (map_of m)"
  by (simp add: dom_map_of_conv_image_fst)

lemma hm_keys_mem: "k \<in> set (map fst m) \<longleftrightarrow> map_of m k \<noteq> None"
  by (simp add: map_of_eq_None_iff)

lemma hm_in_set_get:
  "distinct (map fst m) \<Longrightarrow> (k, v) \<in> set m \<longleftrightarrow> map_of m k = Some v"
  by (auto intro: map_of_SomeD)

lemma le_iff_eq: "(\<And>d. (a::'a::order) \<le> d \<longleftrightarrow> b \<le> d) \<Longrightarrow> a = b"
  by (meson order_antisym order_refl)

named_theorems res_iff \<open>when a fallible computation succeeds\<close>

lemma bind_res_Inr_iff [res_iff]: "bind_res m f = Inr y \<longleftrightarrow> (\<exists>x. m = Inr x \<and> f x = Inr y)"
  by (cases m) simp_all

lemma map_res_Inr_iff [res_iff]: "map_res f m = Inr y \<longleftrightarrow> (\<exists>x. m = Inr x \<and> f x = y)"
  by (cases m) simp_all

lemma mapM_res_all:
  "(\<And>x. x \<in> set xs \<Longrightarrow> f x = Inr (g x)) \<Longrightarrow> mapM_res f xs = Inr (map g xs)"
  by (induction xs) auto

lemma mapM_res_map: "mapM_res f (map g xs) = mapM_res (\<lambda>x. f (g x)) xs"
  by (induction xs) (auto split: sum.splits)

lemma mapM_res_id: "(\<And>x. x \<in> set xs \<Longrightarrow> f x = Inr x) \<Longrightarrow> mapM_res f xs = Inr xs"
  by (induction xs) auto

lemma run_Cons: "step s e t \<Longrightarrow> run step t es u \<Longrightarrow> run step s (e # es) u"
proof (rotate_tac, induction rule: run.induct)
  case run_nil
  then show ?case using run.run_snoc [OF run.run_nil, of step s e] by simp
next
  case (run_snoc t es v e' u)
  then show ?case using run.run_snoc [of step s "e # es" v e' u] by simp
qed

lemma run_snocD:
  assumes "run step s (es @ [e]) u"
  shows "\<exists>t. run step s es t \<and> step t e u"
  using assms by (cases rule: run.cases) auto

text \<open>
  The contract of an inductive invariant: it holds initially and every step
  keeps it. What the contract gives is that it holds after every run.
\<close>

locale step_system =
  fixes init :: "'s \<Rightarrow> bool"
    and step :: "'s \<Rightarrow> 'e \<Rightarrow> 's \<Rightarrow> bool"
    and inv :: "'s \<Rightarrow> bool"
  assumes inv_init: "init s \<Longrightarrow> inv s"
    and inv_step: "inv s \<Longrightarrow> step s e t \<Longrightarrow> inv t"
begin

lemma inv_run: "run step s es t \<Longrightarrow> inv s \<Longrightarrow> inv t"
  by (induction rule: run.induct) (auto intro: inv_step)

lemma reach_inv: "run step s es t \<Longrightarrow> init s \<Longrightarrow> inv t"
  using inv_run inv_init by blast

lemma reach_induct:
  assumes "run step s es t" "init s" "Q s"
    and "\<And>u e v. inv u \<Longrightarrow> Q u \<Longrightarrow> step u e v \<Longrightarrow> Q v"
  shows "Q t"
  using assms by (induction rule: run.induct) (auto intro: reach_inv)

end

section \<open>Words\<close>

lemma word_Suc_le:
  fixes t d :: "'w::len word"
  shows "t < d \<Longrightarrow> t + 1 \<le> d"
  by (simp add: inc_le)

lemma unat_Suc_less_max:
  fixes t :: "'w::len word"
  assumes "t < - 1"
  shows "unat (t + 1) = unat t + 1"
proof -
  have "1 + t \<noteq> 0"
    using assms by (metis add.commute add_eq_0_iff less_irrefl minus_unique)
  then show ?thesis
    by (simp add: unatSuc add.commute)
qed

lemma word_less_Suc_max:
  fixes t :: "'w::len word"
  assumes "t < - 1"
  shows "t < t + 1"
  using unat_Suc_less_max [OF assms] by (simp add: word_less_nat_alt)

end
