(* ===== verification/Lamport_Clock.thy ===== *)
theory Lamport_Clock
  imports Serf_Prelude
begin

text \<open>
  \<open>serf-core/src/types/clock.rs\<close>: the Lamport clock shared by all tasks of a
  node. \<open>clock_time\<close>, \<open>clock_increment\<close> and \<open>clock_witness\<close> are what a call does
  when no other task touches the atomic counter in between; \<open>clock_step\<close> is the
  code itself, one atomic access per step, with any number of tasks. The
  arithmetic is that of a release build: it wraps at 64 bits.
\<close>

section \<open>Sequential operations\<close>

type_synonym lamport_time = u64

definition lamport_clock_new :: u64 where
  "lamport_clock_new = 0"

definition clock_time :: "u64 \<Rightarrow> lamport_time" where
  "clock_time c = c"

definition clock_increment :: "u64 \<Rightarrow> lamport_time \<times> u64" where
  "clock_increment c = (c + 1, c + 1)"

definition clock_witness :: "lamport_time \<Rightarrow> u64 \<Rightarrow> u64" where
  "clock_witness t c = (if t < c then c else t + 1)"

section \<open>The concurrent code\<close>

text \<open>
  The position of a task in the body of \<open>witness\<close>: before the load, or after a
  load that returned \<open>current\<close> and did not find the witnessed time to be old.
\<close>

datatype clock_pc =
    Idle
  | AtLoad lamport_time
  | AtCas lamport_time u64

record clock_sys =
  counter :: u64
  pcs :: "nat \<Rightarrow> clock_pc"

datatype clock_event =
    Called nat lamport_time
  | TimeRead nat lamport_time
  | Incremented nat lamport_time
  | ReturnOld nat lamport_time
  | Loaded nat
  | CasOk nat lamport_time
  | CasErr nat

text \<open>
  \<open>compare_exchange_weak\<close> succeeds only when the counter still holds \<open>current\<close>,
  and may fail even then.
\<close>

inductive clock_step :: "clock_sys \<Rightarrow> clock_event \<Rightarrow> clock_sys \<Rightarrow> bool" where
  call: "pcs s i = Idle \<Longrightarrow>
    clock_step s (Called i t) (s\<lparr>pcs := (pcs s)(i := AtLoad t)\<rparr>)"
| time: "pcs s i = Idle \<Longrightarrow> clock_step s (TimeRead i (clock_time (counter s))) s"
| increment: "pcs s i = Idle \<Longrightarrow>
    clock_step s (Incremented i (counter s + 1)) (s\<lparr>counter := counter s + 1\<rparr>)"
| load_old: "pcs s i = AtLoad t \<Longrightarrow> t < counter s \<Longrightarrow>
    clock_step s (ReturnOld i t) (s\<lparr>pcs := (pcs s)(i := Idle)\<rparr>)"
| load: "pcs s i = AtLoad t \<Longrightarrow> \<not> t < counter s \<Longrightarrow>
    clock_step s (Loaded i) (s\<lparr>pcs := (pcs s)(i := AtCas t (counter s))\<rparr>)"
| cas_ok: "pcs s i = AtCas t cur \<Longrightarrow> counter s = cur \<Longrightarrow>
    clock_step s (CasOk i t) (s\<lparr>counter := t + 1, pcs := (pcs s)(i := Idle)\<rparr>)"
| cas_err: "pcs s i = AtCas t cur \<Longrightarrow>
    clock_step s (CasErr i) (s\<lparr>pcs := (pcs s)(i := AtLoad t)\<rparr>)"

definition clock_init :: "clock_sys \<Rightarrow> bool" where
  "clock_init s \<longleftrightarrow> pcs s = (\<lambda>_. Idle)"

definition clock_inv :: "clock_sys \<Rightarrow> bool" where
  "clock_inv s \<longleftrightarrow> (\<forall>i t cur. pcs s i = AtCas t cur \<longrightarrow> cur \<le> t)"

text \<open>
  The sequential operation an event completes, and the value the counter has
  after the operations of a list of events in that order.
\<close>

fun clock_effect :: "clock_event \<Rightarrow> u64 \<Rightarrow> u64" where
  "clock_effect (Incremented i v) c = snd (clock_increment c)"
| "clock_effect (ReturnOld i t) c = clock_witness t c"
| "clock_effect (CasOk i t) c = clock_witness t c"
| "clock_effect _ c = c"

fun clock_wraps :: "clock_event \<Rightarrow> bool" where
  "clock_wraps (Incremented i v) \<longleftrightarrow> v = 0"
| "clock_wraps (CasOk i t) \<longleftrightarrow> t = - 1"
| "clock_wraps _ \<longleftrightarrow> False"

text \<open>
  What a completed call promises about the counter from then on, and the values
  the calls of \<open>increment\<close> returned.
\<close>

fun clock_behind :: "clock_event \<Rightarrow> u64 \<Rightarrow> bool" where
  "clock_behind (Incremented i v) c \<longleftrightarrow> v \<le> c"
| "clock_behind (TimeRead i v) c \<longleftrightarrow> v \<le> c"
| "clock_behind (ReturnOld i t) c \<longleftrightarrow> t < c"
| "clock_behind (CasOk i t) c \<longleftrightarrow> t < c"
| "clock_behind _ c \<longleftrightarrow> True"

fun clock_increments :: "clock_event list \<Rightarrow> u64 list" where
  "clock_increments [] = []"
| "clock_increments (Incremented i v # es) = v # clock_increments es"
| "clock_increments (_ # es) = clock_increments es"

definition clock_demo :: "clock_event list" where
  "clock_demo = [Called 0 41, Loaded 0, Incremented 1 6, CasErr 0, Loaded 0, CasOk 0 41,
     Incremented 1 43]"

section \<open>The contract of a Lamport clock\<close>

text \<open>
  What the handlers rely on: a witnessed time below the top of the range is
  left behind, the clock never goes back, and it goes no further than needed.
\<close>

locale lamport =
  fixes wit :: "'t::linorder \<Rightarrow> 't \<Rightarrow> 't" and inc :: "'t \<Rightarrow> 't" and top :: 't
  assumes wit_gt: "t < top \<Longrightarrow> t < wit t c"
    and wit_ge: "t < top \<Longrightarrow> c \<le> wit t c"
    and wit_least: "t < d \<Longrightarrow> c \<le> d \<Longrightarrow> wit t c \<le> d"
    and inc_gt: "c < top \<Longrightarrow> c < inc c"
    and inc_least: "c < d \<Longrightarrow> inc c \<le> d"
begin

lemma wit_old: "t < c \<Longrightarrow> t < top \<Longrightarrow> wit t c = c"
  by (simp add: wit_ge wit_least order_antisym)

lemma wit_idem: "t < top \<Longrightarrow> wit t (wit t c) = wit t c"
  by (simp add: wit_gt wit_old)

lemma wit_le_iff: "t < top \<Longrightarrow> wit t c \<le> d \<longleftrightarrow> t < d \<and> c \<le> d"
  using wit_gt [of t c] wit_ge [of t c] wit_least [of t d c]
  by (meson order.strict_trans2 order_trans)

lemma wit_commute: "t < top \<Longrightarrow> u < top \<Longrightarrow> wit t (wit u c) = wit u (wit t c)"
  by (rule le_iff_eq) (auto simp: wit_le_iff)

lemma wit_fold_le_iff:
  "\<forall>t\<in>set ts. t < top \<Longrightarrow> fold wit ts c \<le> d \<longleftrightarrow> (\<forall>t\<in>set ts. t < d) \<and> c \<le> d"
  by (induction ts arbitrary: c) (auto simp: wit_le_iff)

lemma wit_fold_upper:
  assumes "\<forall>t\<in>set ts. t < top"
  shows "c \<le> fold wit ts c" "\<forall>t\<in>set ts. t < fold wit ts c"
  using wit_fold_le_iff [OF assms, of c "fold wit ts c"] by simp_all

lemma wit_fold_perm:
  assumes "\<forall>t\<in>set ts. t < top" "set us = set ts"
  shows "fold wit us c = fold wit ts c"
  by (rule le_iff_eq) (use assms wit_fold_le_iff [of us] wit_fold_le_iff [of ts] in simp)

end

section \<open>Lemmas\<close>

lemma clock_witness_gt: "t < - 1 \<Longrightarrow> t < clock_witness t c"
  by (simp add: clock_witness_def word_less_Suc_max)

lemma clock_witness_ge:
  assumes "t < - 1"
  shows "c \<le> clock_witness t c"
proof (cases "t < c")
  case False
  then have "c \<le> t" by simp
  also have "t < t + 1" using assms by (rule word_less_Suc_max)
  finally show ?thesis using False by (simp add: clock_witness_def)
qed (simp add: clock_witness_def)

lemma clock_witness_least: "t < d \<Longrightarrow> c \<le> d \<Longrightarrow> clock_witness t c \<le> d"
  by (simp add: clock_witness_def word_Suc_le)

interpretation wclock: lamport clock_witness "\<lambda>c. snd (clock_increment c)" "- 1"
  by unfold_locales
    (simp_all add: clock_witness_gt clock_witness_ge clock_witness_least clock_increment_def
      word_Suc_le word_less_Suc_max)

interpretation csys: step_system clock_init clock_step clock_inv
proof
  show "clock_inv s" if "clock_init s" for s
    using that by (simp add: clock_init_def clock_inv_def)
  show "clock_inv t" if "clock_inv s" "clock_step s e t" for s e t
    using that(2,1) by cases (auto simp: clock_inv_def)
qed

lemma clock_step_effect:
  assumes "clock_inv s" "clock_step s e t"
  shows "counter t = clock_effect e (counter s)"
  using assms(2,1)
  by cases (auto simp: clock_inv_def clock_increment_def clock_witness_def leD)

lemma clock_step_mono:
  assumes "clock_inv s" "clock_step s e t" "\<not> clock_wraps e"
  shows "counter s \<le> counter t"
  using assms(2,1,3)
proof cases
  case (increment i)
  then have "counter s \<noteq> - 1" using assms(3) by auto
  then have "counter s < - 1" by (simp add: word_order.not_eq_extremum)
  then show ?thesis using increment by (simp add: word_less_Suc_max less_imp_le)
next
  case (cas_ok i tm cur)
  then have "tm < - 1" using assms(3) by (simp add: word_order.not_eq_extremum [symmetric])
  from word_less_Suc_max [OF this] have "tm \<le> tm + 1" by simp
  moreover have "counter s \<le> tm" using cas_ok assms(1) by (simp add: clock_inv_def)
  ultimately show ?thesis using cas_ok by simp
qed auto

lemma clock_behind_mono: "clock_behind e c \<Longrightarrow> c \<le> d \<Longrightarrow> clock_behind e d"
  by (cases e) auto

lemma clock_step_behind:
  assumes "clock_inv s" "clock_step s e t" "\<not> clock_wraps e"
  shows "clock_behind e (counter t)"
  using assms(2,1,3)
  by cases (auto simp: clock_time_def word_less_Suc_max word_order.not_eq_extremum [symmetric])

lemma clock_increments_append:
  "clock_increments (es @ fs) = clock_increments es @ clock_increments fs"
  by (induction es rule: clock_increments.induct) auto

lemma clock_increments_le:
  "list_all (\<lambda>e. clock_behind e c) es \<Longrightarrow> \<forall>v\<in>set (clock_increments es). v \<le> c"
  by (induction es rule: clock_increments.induct) auto

lemma clock_step_fresh:
  assumes "clock_step s e t" "\<not> clock_wraps e"
  shows "\<forall>w\<in>set (clock_increments [e]). counter s < w"
  using assms
proof cases
  case (increment i)
  then have "counter s \<noteq> - 1" using assms(2) by auto
  then show ?thesis using increment
    by (simp add: word_less_Suc_max word_order.not_eq_extremum [symmetric])
qed auto

lemma clock_increments_one: "sorted_wrt (<) (clock_increments [e])"
  by (cases e) auto

lemma clock_increment_to:
  "pcs s i = Idle \<Longrightarrow> v = counter s + 1 \<Longrightarrow> clock_step s (Incremented i v) (s\<lparr>counter := v\<rparr>)"
  using clock_step.increment [of s i] by simp

text \<open>
  A run in which one task witnesses 41 while another increments the clock
  between the load and the compare-exchange.
\<close>

lemma clock_demo_run:
  "\<exists>u. run clock_step \<lparr>counter = 5, pcs = \<lambda>_. Idle\<rparr> clock_demo u"
  unfolding clock_demo_def
  by (intro exI) (rule run_Cons run.run_nil clock_step.call clock_step.load clock_step.cas_err
      clock_step.cas_ok clock_increment_to | simp)+

section \<open>Properties\<close>

text \<open>
  C5. Linearisability of the clock: in every interleaving of any number of
  tasks calling \<open>time\<close>, \<open>increment\<close> and \<open>witness\<close>, with any number of failed
  compare-exchanges, the counter is what the sequential operations give when
  they are applied one after the other at the step where each call takes
  effect.
\<close>

theorem clock_linearisable:
  assumes "run clock_step s es t" "clock_init s"
  shows "counter t = fold clock_effect es (counter s)"
  using assms
proof (induction rule: run.induct)
  case (run_snoc s es t e u)
  then have "clock_inv t" using csys.reach_inv by blast
  with run_snoc show ?case by (simp add: clock_step_effect)
qed simp

theorem clock_linearisable_witness:
  "\<exists>u. run clock_step \<lparr>counter = 5, pcs = \<lambda>_. Idle\<rparr> clock_demo u \<and> counter u = 43"
proof -
  obtain u where u: "run clock_step \<lparr>counter = 5, pcs = \<lambda>_. Idle\<rparr> clock_demo u"
    using clock_demo_run by blast
  show ?thesis
    using u clock_linearisable [OF u]
    by (auto simp: clock_init_def clock_demo_def clock_increment_def clock_witness_def)
qed

text \<open>
  C6. Witnessing: once a task has returned from \<open>witness t\<close>, whatever other tasks
  did meanwhile and do later, the clock is ahead of \<open>t\<close>; no value that \<open>time\<close> or
  \<open>increment\<close> returned is ever ahead of the clock, and the values that calls of
  \<open>increment\<close> return are strictly increasing, hence unique. This holds as long
  as no event pushes the 64-bit counter past its maximum.
\<close>

theorem clock_ahead_of_witnessed:
  assumes "run clock_step s es u" "clock_init s" "\<not> list_ex clock_wraps es"
  shows "list_all (\<lambda>e. clock_behind e (counter u)) es \<and> sorted_wrt (<) (clock_increments es)"
  using assms
proof (induction rule: run.induct)
  case (run_snoc s es t e u)
  then have inv: "clock_inv t" and nw: "\<not> clock_wraps e" using csys.reach_inv by auto
  from run_snoc have IH: "list_all (\<lambda>e. clock_behind e (counter t)) es"
    "sorted_wrt (<) (clock_increments es)" by auto
  have mono: "list_all (\<lambda>e. clock_behind e (counter u)) es"
    using IH(1) clock_step_mono [OF inv run_snoc.hyps(2) nw]
    by (auto simp: list_all_iff intro: clock_behind_mono)
  have "\<forall>v\<in>set (clock_increments es). \<forall>w\<in>set (clock_increments [e]). v < w"
    using clock_increments_le [OF IH(1)] clock_step_fresh [OF run_snoc.hyps(2) nw]
    by (meson order.strict_trans1)
  with mono IH(2) clock_step_behind [OF inv run_snoc.hyps(2) nw] clock_increments_one show ?case
    by (auto simp: clock_increments_append sorted_wrt_append)
qed simp

theorem clock_ahead_of_witnessed_witness:
  "\<exists>u. run clock_step \<lparr>counter = 5, pcs = \<lambda>_. Idle\<rparr> clock_demo u
     \<and> 41 < counter u \<and> sorted_wrt (<) (clock_increments clock_demo)"
proof -
  obtain u where u: "run clock_step \<lparr>counter = 5, pcs = \<lambda>_. Idle\<rparr> clock_demo u"
    using clock_demo_run by blast
  show ?thesis
    using u clock_ahead_of_witnessed [OF u] by (auto simp: clock_init_def clock_demo_def)
qed

end
