(* ===== verification/Serf_Types.thy ===== *)
theory Serf_Types
  imports Lamport_Clock
begin

text \<open>
  The data of \<open>serf-core/src/types\<close>: members and their status, the gossip
  messages, the filters of a query and the buffered user events. Identifiers
  and addresses are the type parameters \<open>I\<close> and \<open>A\<close> of the code. A \<open>Duration\<close>, an
  \<open>Epoch\<close> and a \<open>usize\<close> are natural numbers (nanoseconds for the first two); a
  \<open>SmolStr\<close> is the list of its UTF-8 bytes, so its length is \<open>len()\<close>.
\<close>

section \<open>Versions and members\<close>

datatype delegate_version = DV1 | DV_Unknown u8

datatype protocol_version = PV1 | PV_Unknown u8

definition delegate_version_of_u8 :: "u8 \<Rightarrow> delegate_version" where
  "delegate_version_of_u8 v = (if v = 1 then DV1 else DV_Unknown v)"

fun u8_of_delegate_version :: "delegate_version \<Rightarrow> u8" where
  "u8_of_delegate_version DV1 = 1"
| "u8_of_delegate_version (DV_Unknown v) = v"

definition protocol_version_of_u8 :: "u8 \<Rightarrow> protocol_version" where
  "protocol_version_of_u8 v = (if v = 1 then PV1 else PV_Unknown v)"

fun u8_of_protocol_version :: "protocol_version \<Rightarrow> u8" where
  "u8_of_protocol_version PV1 = 1"
| "u8_of_protocol_version (PV_Unknown v) = v"

datatype member_status =
    Status_None
  | Alive
  | Leaving
  | Left
  | Failed
  | Status_Unknown u8

definition member_status_of_u8 :: "u8 \<Rightarrow> member_status" where
  "member_status_of_u8 v =
     (if v = 0 then Status_None
      else if v = 1 then Alive
      else if v = 2 then Leaving
      else if v = 3 then Left
      else if v = 4 then Failed
      else Status_Unknown v)"

fun u8_of_member_status :: "member_status \<Rightarrow> u8" where
  "u8_of_member_status Status_None = 0"
| "u8_of_member_status Alive = 1"
| "u8_of_member_status Leaving = 2"
| "u8_of_member_status Left = 3"
| "u8_of_member_status Failed = 4"
| "u8_of_member_status (Status_Unknown v) = v"

text \<open>
  A node of memberlist: its identifier and its address. The two memberlist
  versions of a member are kept as the byte memberlist converts them to.
\<close>

record ('i, 'a) node =
  node_id :: 'i
  node_addr :: 'a

type_synonym tags = "(string, string) hash_map"

record ('i, 'a) member =
  m_node :: "('i, 'a) node"
  m_tags :: tags
  m_status :: member_status
  m_ml_protocol_version :: u8
  m_ml_delegate_version :: u8
  m_protocol_version :: protocol_version
  m_delegate_version :: delegate_version

section \<open>Message types\<close>

datatype message_type =
    MT_Leave
  | MT_Join
  | MT_PushPull
  | MT_UserEvent
  | MT_Query
  | MT_QueryResponse
  | MT_ConflictResponse
  | MT_Relay
  | MT_KeyRequest
  | MT_KeyResponse
  | MT_Unknown u8

definition message_type_of_u8 :: "u8 \<Rightarrow> message_type" where
  "message_type_of_u8 v =
     (if v = 1 then MT_Leave
      else if v = 2 then MT_Join
      else if v = 3 then MT_PushPull
      else if v = 4 then MT_UserEvent
      else if v = 5 then MT_Query
      else if v = 6 then MT_QueryResponse
      else if v = 7 then MT_ConflictResponse
      else if v = 8 then MT_Relay
      else if v = 9 then MT_KeyRequest
      else if v = 10 then MT_KeyResponse
      else MT_Unknown v)"

fun u8_of_message_type :: "message_type \<Rightarrow> u8" where
  "u8_of_message_type MT_Leave = 1"
| "u8_of_message_type MT_Join = 2"
| "u8_of_message_type MT_PushPull = 3"
| "u8_of_message_type MT_UserEvent = 4"
| "u8_of_message_type MT_Query = 5"
| "u8_of_message_type MT_QueryResponse = 6"
| "u8_of_message_type MT_ConflictResponse = 7"
| "u8_of_message_type MT_Relay = 8"
| "u8_of_message_type MT_KeyRequest = 9"
| "u8_of_message_type MT_KeyResponse = 10"
| "u8_of_message_type (MT_Unknown v) = v"

section \<open>The members a node knows\<close>

record ('i, 'a) member_state =
  ms_member :: "('i, 'a) member"
  ms_status_time :: lamport_time
  ms_leave_time :: "nat option"

record node_intent =
  ni_ty :: message_type
  ni_wall_time :: nat
  ni_ltime :: lamport_time

record ('i, 'a) members =
  states :: "('i, ('i, 'a) member_state) hash_map"
  recent_intents :: "('i, node_intent) hash_map"
  left_members :: "('i, 'a) member_state list"
  failed_members :: "('i, 'a) member_state list"

definition members_default :: "('i, 'a) members" where
  "members_default =
     \<lparr>states = [], recent_intents = [], left_members = [], failed_members = []\<rparr>"

section \<open>Messages\<close>

record 'i leave_message =
  lm_ltime :: lamport_time
  lm_id :: 'i
  lm_prune :: bool

record 'i join_message =
  jm_ltime :: lamport_time
  jm_id :: 'i

record user_event_message =
  ue_ltime :: lamport_time
  ue_name :: string
  ue_payload :: bytes
  ue_cc :: bool

record user_event =
  ev_name :: string
  ev_payload :: bytes

record user_events =
  evs_ltime :: lamport_time
  evs_events :: "user_event list"

record tag_filter =
  tf_tag :: string
  tf_expr :: "string option"

datatype 'i filter_q = Filter_Id "'i list" | Filter_Tag tag_filter

type_synonym query_flag = u32

definition query_flag_ack :: query_flag where
  "query_flag_ack = 1"

definition query_flag_no_broadcast :: query_flag where
  "query_flag_no_broadcast = 2"

record ('i, 'a) query_message =
  qm_ltime :: lamport_time
  qm_id :: u32
  qm_from :: "('i, 'a) node"
  qm_filters :: "'i filter_q list"
  qm_flags :: query_flag
  qm_relay_factor :: u8
  qm_timeout :: nat
  qm_name :: string
  qm_payload :: bytes

unbundle bit_operations_syntax

definition flag_contains :: "query_flag \<Rightarrow> query_flag \<Rightarrow> bool" where
  "flag_contains flags f \<longleftrightarrow> flags AND f = f"

definition query_ack :: "('i, 'a) query_message \<Rightarrow> bool" where
  "query_ack q \<longleftrightarrow> flag_contains (qm_flags q) query_flag_ack"

definition query_no_broadcast :: "('i, 'a) query_message \<Rightarrow> bool" where
  "query_no_broadcast q \<longleftrightarrow> flag_contains (qm_flags q) query_flag_no_broadcast"

definition flag_truncate :: "u32 \<Rightarrow> query_flag" where
  "flag_truncate v = v AND (query_flag_ack OR query_flag_no_broadcast)"

record ('i, 'a) query_response_message =
  qr_ltime :: lamport_time
  qr_id :: u32
  qr_from :: "('i, 'a) node"
  qr_flags :: query_flag
  qr_payload :: bytes

definition query_response_ack :: "('i, 'a) query_response_message \<Rightarrow> bool" where
  "query_response_ack r \<longleftrightarrow> flag_contains (qr_flags r) query_flag_ack"

record 'i push_pull_message =
  pp_ltime :: lamport_time
  pp_status_ltimes :: "('i, lamport_time) hash_map"
  pp_left_members :: "'i list"
  pp_event_ltime :: lamport_time
  pp_events :: "user_events list"
  pp_query_ltime :: lamport_time

type_synonym secret_key = bytes

record key_response_message =
  kr_result :: bool
  kr_message :: string
  kr_keys :: "secret_key list"
  kr_primary_key :: "secret_key option"

section \<open>Conversions\<close>

lemma member_status_u8_round [simp]: "u8_of_member_status (member_status_of_u8 v) = v"
  by (simp add: member_status_of_u8_def)

lemma message_type_u8_round [simp]: "u8_of_message_type (message_type_of_u8 v) = v"
  by (simp add: message_type_of_u8_def)

lemma delegate_version_u8_round [simp]: "u8_of_delegate_version (delegate_version_of_u8 v) = v"
  by (simp add: delegate_version_of_u8_def)

lemma protocol_version_u8_round [simp]: "u8_of_protocol_version (protocol_version_of_u8 v) = v"
  by (simp add: protocol_version_of_u8_def)

text \<open>
  A status, version or type is \<^emph>\<open>canonical\<close> when it is not the unknown variant of
  a code that has a name; only these are produced by the conversions from a
  byte, and for these the conversions are inverse to each other.
\<close>

definition canonical_status :: "member_status \<Rightarrow> bool" where
  "canonical_status s \<longleftrightarrow> (case s of Status_Unknown v \<Rightarrow> 4 < v | _ \<Rightarrow> True)"

definition canonical_protocol_version :: "protocol_version \<Rightarrow> bool" where
  "canonical_protocol_version s \<longleftrightarrow> s \<noteq> PV_Unknown 1"

definition canonical_delegate_version :: "delegate_version \<Rightarrow> bool" where
  "canonical_delegate_version s \<longleftrightarrow> s \<noteq> DV_Unknown 1"

lemma member_status_canonical_round [simp]:
  "canonical_status s \<Longrightarrow> member_status_of_u8 (u8_of_member_status s) = s"
  by (cases s) (auto simp: canonical_status_def member_status_of_u8_def)

lemma protocol_version_canonical_round [simp]:
  "canonical_protocol_version s \<Longrightarrow> protocol_version_of_u8 (u8_of_protocol_version s) = s"
  by (cases s) (auto simp: canonical_protocol_version_def protocol_version_of_u8_def)

lemma delegate_version_canonical_round [simp]:
  "canonical_delegate_version s \<Longrightarrow> delegate_version_of_u8 (u8_of_delegate_version s) = s"
  by (cases s) (auto simp: canonical_delegate_version_def delegate_version_of_u8_def)

end
