(* ===== verification/Wire_Base.thy ===== *)
theory Wire_Base
  imports Serf_Types
begin

text \<open>
  The vocabulary of the wire format. Every message of \<open>serf-core/src/types\<close> is a
  sequence of fields, a tag byte followed by a value; the primitive values, the
  tag bytes and the skipping of unknown fields come from memberlist's \<open>proto\<close>
  module and are the parameter \<open>proto\<close> of the development. What the code relies
  on is \<open>proto_ok\<close>.

  An encoder writes into a buffer of fixed length at an offset; a decoder is a
  loop over the buffer. Both are modelled as such: \<open>enc_op\<close> and \<open>decode_loop\<close>.
\<close>

section \<open>memberlist's wire primitives\<close>

datatype wire_type = Byte | Varint | LengthDelimited

text \<open>
  Errors, without the texts and sizes they carry. \<open>Decode_panic\<close> is an
  out-of-range index or slice, \<open>Decode_hang\<close> a loop that makes no progress.
\<close>

datatype decode_error =
    Buffer_underflow
  | Duplicate_field u8
  | Missing_field string
  | Decode_custom
  | Decode_panic
  | Decode_hang

datatype encode_error = Insufficient_buffer | Too_large | Encode_panic

record 'x codec =
  enc :: "'x \<Rightarrow> bytes"
  dec :: "bytes \<Rightarrow> decode_error + nat \<times> 'x"

text \<open>
  \<open>u32c\<close> to \<open>idc\<close> encode values that delimit themselves (varints, single bytes,
  identifiers with their own wire type); \<open>nodec\<close> to \<open>statusc\<close> encode bodies of
  length-delimited fields. \<open>ld_split\<close> reads a length prefix and returns the
  bytes consumed with the body; \<open>rep_ld\<close> and \<open>rep_id\<close> are the iterators of
  \<open>RepeatedDecoder\<close> over the fields with a given tag, collected up to their first
  error; \<open>rep_id_iter\<close> is the second one item by item.
\<close>

record ('i, 'a) proto =
  merge :: "wire_type \<Rightarrow> u8 \<Rightarrow> u8"
  skip :: "bytes \<Rightarrow> decode_error + nat"
  u32c :: "u32 codec"
  u64c :: "u64 codec"
  u8c :: "u8 codec"
  boolc :: "bool codec"
  durc :: "nat codec"
  idc :: "'i codec"
  id_wire :: wire_type
  nodec :: "('i, 'a) node codec"
  keyc :: "secret_key codec"
  tagc :: "(string \<times> string) codec"
  statusc :: "('i \<times> lamport_time) codec"
  ld_split :: "bytes \<Rightarrow> decode_error + nat \<times> bytes"
  rep_ld :: "u8 \<Rightarrow> bytes \<Rightarrow> decode_error + bytes list"
  rep_id :: "u8 \<Rightarrow> bytes \<Rightarrow> decode_error + 'i list"
  rep_id_iter :: "u8 \<Rightarrow> bytes \<Rightarrow> (decode_error + 'i) list"
  str_dec :: "bytes \<Rightarrow> decode_error + string"
  utf8 :: "string \<Rightarrow> bool"
  regex_new :: "string \<Rightarrow> bool"
  regex_match :: "string \<Rightarrow> string \<Rightarrow> bool"

definition str_bytes :: "string \<Rightarrow> bytes" where
  "str_bytes s = map of_char s"

text \<open>A length-delimited field without its tag, as \<open>encode_message\<close> writes it.\<close>

definition ld_frame :: "('i, 'a) proto \<Rightarrow> bytes \<Rightarrow> bytes" where
  "ld_frame P b = enc (u32c P) (of_nat (length b)) @ b"

definition fits_u32 :: "bytes \<Rightarrow> bool" where
  "fits_u32 b \<longleftrightarrow> length b < 2 ^ 32"

text \<open>\<open>decode_length_delimited\<close> of a type with the given \<open>decode\<close>.\<close>

definition ld_dec ::
  "('i, 'a) proto \<Rightarrow> (bytes \<Rightarrow> decode_error + nat \<times> 'x) \<Rightarrow> bytes \<Rightarrow> decode_error + nat \<times> 'x"
where
  "ld_dec P d buf =
     (case ld_split P buf of
        Inl e \<Rightarrow> Inl e
      | Inr (n, body) \<Rightarrow> (case d body of Inl e \<Rightarrow> Inl e | Inr (_, v) \<Rightarrow> Inr (n, v)))"

definition ld_str :: "('i, 'a) proto \<Rightarrow> bytes \<Rightarrow> decode_error + nat \<times> string" where
  "ld_str P = ld_dec P (\<lambda>b. map_res (Pair (length b)) (str_dec P b))"

definition ld_bytes :: "('i, 'a) proto \<Rightarrow> bytes \<Rightarrow> decode_error + nat \<times> bytes" where
  "ld_bytes P = ld_dec P (\<lambda>b. Inr (length b, b))"

section \<open>Writing into a buffer\<close>

type_synonym enc_op = "bytes \<times> nat \<Rightarrow> encode_error + bytes \<times> nat"

definition blit :: "bytes \<Rightarrow> nat \<Rightarrow> bytes \<Rightarrow> bytes" where
  "blit buf off bs = take off buf @ bs @ drop (off + length bs) buf"

text \<open>
  \<open>put_byte\<close> is a guarded store of one byte, \<open>put_enc\<close> a call of a primitive
  \<open>encode\<close> on the rest of the buffer, \<open>put_sub\<close> a call of a nested \<open>encode\<close>.
\<close>

fun put_byte :: "u8 \<Rightarrow> enc_op" where
  "put_byte b (buf, off) =
     (if length buf \<le> off then Inl Insufficient_buffer else Inr (buf[off := b], off + 1))"

fun put_byte_unchecked :: "u8 \<Rightarrow> enc_op" where
  "put_byte_unchecked b (buf, off) =
     (if length buf \<le> off then Inl Encode_panic else Inr (buf[off := b], off + 1))"

fun put_enc :: "bytes \<Rightarrow> enc_op" where
  "put_enc bs (buf, off) =
     (if off + length bs \<le> length buf then Inr (blit buf off bs, off + length bs)
      else Inl Insufficient_buffer)"

fun put_sub :: "(bytes \<Rightarrow> encode_error + bytes \<times> nat) \<Rightarrow> enc_op" where
  "put_sub f (buf, off) =
     (case f (drop off buf) of
        Inl e \<Rightarrow> Inl e
      | Inr (sub, n) \<Rightarrow> Inr (take off buf @ sub, off + n))"

fun run_enc :: "enc_op list \<Rightarrow> enc_op" where
  "run_enc [] st = Inr st"
| "run_enc (f # fs) st = (case f st of Inl e \<Rightarrow> Inl e | Inr st' \<Rightarrow> run_enc fs st')"

text \<open>\<open>encode_length_delimited\<close> of a type with the given \<open>encode\<close> and \<open>encoded_len\<close>.\<close>

definition put_ld ::
  "('i, 'a) proto \<Rightarrow> nat \<Rightarrow> (bytes \<Rightarrow> encode_error + bytes \<times> nat) \<Rightarrow> enc_op"
where
  "put_ld P n f =
     (if n < 2 ^ 32 then run_enc [put_enc (enc (u32c P) (of_nat n)), put_sub f]
      else (\<lambda>_. Inl Too_large))"

definition put_ld_bytes :: "('i, 'a) proto \<Rightarrow> bytes \<Rightarrow> enc_op" where
  "put_ld_bytes P b = put_ld P (length b) (\<lambda>buf. put_enc b (buf, 0))"

definition ld_len :: "('i, 'a) proto \<Rightarrow> nat \<Rightarrow> nat" where
  "ld_len P n = length (enc (u32c P) (of_nat n)) + n"

text \<open>
  An operation that writes the bytes \<open>bs\<close> where there is room for them and, when
  the flag is set, reports a short buffer where there is not.
\<close>

definition writes :: "bool \<Rightarrow> enc_op \<Rightarrow> bytes \<Rightarrow> bool" where
  "writes s f bs \<longleftrightarrow>
     (\<forall>buf off. off \<le> length buf \<longrightarrow> s \<or> off + length bs \<le> length buf \<longrightarrow>
        f (buf, off) = put_enc bs (buf, off))"

section \<open>Decoding loops\<close>

text \<open>
  A step sees the offset, the tag byte and what follows it, and returns how
  many bytes the field takes, the tag included. A step that takes none leaves
  the loop where it is, for ever.
\<close>

function decode_loop ::
  "(nat \<Rightarrow> u8 \<Rightarrow> bytes \<Rightarrow> 's \<Rightarrow> decode_error + nat \<times> 's) \<Rightarrow> nat \<Rightarrow> bytes \<Rightarrow> 's
   \<Rightarrow> decode_error + nat \<times> 's"
where
  "decode_loop step off [] st = Inr (off, st)"
| "decode_loop step off (b # r) st =
     (case step off b r st of
        Inl e \<Rightarrow> Inl e
      | Inr (n, st') \<Rightarrow>
          if n = 0 then Inl Decode_hang else decode_loop step (off + n) (drop (n - 1) r) st')"
  by pat_completeness auto
termination
  by (relation "measure (\<lambda>(step, off, buf, st). length buf)") auto

text \<open>The branches of a step: a field that may occur once, and a skipped one.\<close>

fun field :: "(bytes \<Rightarrow> decode_error + nat \<times> 'x) \<Rightarrow> bytes \<Rightarrow> ('x \<Rightarrow> 's) \<Rightarrow> decode_error + nat \<times> 's"
where
  "field d r k = (case d r of Inl e \<Rightarrow> Inl e | Inr (n, v) \<Rightarrow> Inr (1 + n, k v))"

fun once :: "'x option \<Rightarrow> u8 \<Rightarrow> decode_error + nat \<times> 's \<Rightarrow> decode_error + nat \<times> 's" where
  "once None tag k = k"
| "once (Some _) tag k = Inl (Duplicate_field tag)"

definition skip_field ::
  "('i, 'a) proto \<Rightarrow> bytes \<Rightarrow> (nat \<Rightarrow> 's) \<Rightarrow> decode_error + nat \<times> 's"
where
  "skip_field P buf k = (case skip P buf of Inl e \<Rightarrow> Inl e | Inr n \<Rightarrow> Inr (n, k n))"

fun required :: "string \<Rightarrow> 'x option \<Rightarrow> decode_error + 'x" where
  "required name None = Inl (Missing_field name)"
| "required name (Some v) = Inr v"

definition or_default :: "'x \<Rightarrow> 'x option \<Rightarrow> 'x" where
  "or_default d v = (case v of None \<Rightarrow> d | Some x \<Rightarrow> x)"

text \<open>
  The window of a repeated field: from the first field with its tag to the end
  of the last one.
\<close>

fun widen :: "(nat \<times> nat) option \<Rightarrow> nat \<Rightarrow> nat \<Rightarrow> (nat \<times> nat) option" where
  "widen None off n = Some (off, off + n)"
| "widen (Some (s, e)) off n =
     Some (if off < s then off else s, if e < off + n then off + n else e)"

definition window :: "bytes \<Rightarrow> (nat \<times> nat) option \<Rightarrow> bytes option" where
  "window buf w = map_option (\<lambda>(s, e). take (e - s) (drop s buf)) w"

fun rep_items :: "(bytes \<Rightarrow> decode_error + 'x list) \<Rightarrow> bytes option \<Rightarrow> decode_error + 'x list" where
  "rep_items f None = Inr []"
| "rep_items f (Some w) = f w"

section \<open>What the code relies on\<close>

definition stream_codec :: "('x \<Rightarrow> bool) \<Rightarrow> 'x codec \<Rightarrow> bool" where
  "stream_codec ok c \<longleftrightarrow> (\<forall>x r. ok x \<longrightarrow> dec c (enc c x @ r) = Inr (length (enc c x), x))"

definition body_codec :: "('x \<Rightarrow> bool) \<Rightarrow> 'x codec \<Rightarrow> bool" where
  "body_codec ok c \<longleftrightarrow> (\<forall>x. ok x \<longrightarrow> (\<exists>n. dec c (enc c x) = Inr (n, x)))"

text \<open>
  \<open>tags_differ\<close>: fields with different tags have different tag bytes (the tags of
  the format are below 16). \<open>split_ok\<close>: a framed body is read back whatever
  follows. \<open>skip_ok\<close>: skipping a framed field, or an identifier field, takes
  exactly that field. \<open>rep_ok\<close>: the iterator over consecutive fields with one
  tag yields them in order. \<open>iter_ok\<close>: collecting the identifiers of an iterator
  stops at its first error.
\<close>

definition tags_differ :: "('i, 'a) proto \<Rightarrow> bool" where
  "tags_differ P \<longleftrightarrow>
     (\<forall>v w t u. t < 16 \<longrightarrow> u < 16 \<longrightarrow> merge P v t = merge P w u \<longrightarrow> v = w \<and> t = u)"

definition split_ok :: "('i, 'a) proto \<Rightarrow> bool" where
  "split_ok P \<longleftrightarrow>
     (\<forall>b r. fits_u32 b \<longrightarrow> ld_split P (ld_frame P b @ r) = Inr (length (ld_frame P b), b))"

definition skip_ok :: "('i, 'a) proto \<Rightarrow> bool" where
  "skip_ok P \<longleftrightarrow>
     (\<forall>t b r. t < 16 \<longrightarrow> fits_u32 b \<longrightarrow>
        skip P (merge P LengthDelimited t # ld_frame P b @ r) = Inr (1 + length (ld_frame P b))) \<and>
     (\<forall>t i r. t < 16 \<longrightarrow>
        skip P (merge P (id_wire P) t # enc (idc P) i @ r) = Inr (1 + length (enc (idc P) i)))"

definition rep_ok :: "('i, 'a) proto \<Rightarrow> bool" where
  "rep_ok P \<longleftrightarrow>
     (\<forall>t bs. t < 16 \<longrightarrow> list_all fits_u32 bs \<longrightarrow>
        rep_ld P t (concat (map (\<lambda>b. merge P LengthDelimited t # ld_frame P b) bs)) = Inr bs) \<and>
     (\<forall>t is. t < 16 \<longrightarrow>
        rep_id P t (concat (map (\<lambda>i. merge P (id_wire P) t # enc (idc P) i) is)) = Inr is)"

definition iter_ok :: "('i, 'a) proto \<Rightarrow> bool" where
  "iter_ok P \<longleftrightarrow> (\<forall>t b. rep_id P t b = mapM_res (\<lambda>x. x) (rep_id_iter P t b))"

definition str_ok :: "('i, 'a) proto \<Rightarrow> string \<Rightarrow> bool" where
  "str_ok P s \<longleftrightarrow> utf8 P s \<and> length s < 2 ^ 32"

text \<open>A \<open>Duration\<close> holds fewer than \<open>2 ^ 64\<close> seconds.\<close>

definition dur_ok :: "nat \<Rightarrow> bool" where
  "dur_ok d \<longleftrightarrow> d < 2 ^ 64 * 10 ^ 9"

definition proto_ok :: "('i, 'a) proto \<Rightarrow> bool" where
  "proto_ok P \<longleftrightarrow>
     tags_differ P \<and> split_ok P \<and> skip_ok P \<and> rep_ok P \<and> iter_ok P \<and>
     stream_codec (\<lambda>_. True) (u32c P) \<and> stream_codec (\<lambda>_. True) (u64c P) \<and>
     stream_codec (\<lambda>_. True) (boolc P) \<and> stream_codec dur_ok (durc P) \<and>
     stream_codec (\<lambda>_. True) (idc P) \<and>
     (\<forall>b r. dec (u8c P) (b # r) = Inr (1, b)) \<and>
     enc (boolc P) True = [1] \<and>
     body_codec (\<lambda>_. True) (nodec P) \<and> body_codec (\<lambda>_. True) (keyc P) \<and>
     body_codec (\<lambda>(k, v). str_ok P k \<and> str_ok P v) (tagc P) \<and>
     body_codec (\<lambda>_. True) (statusc P) \<and>
     (\<forall>s. utf8 P s \<longrightarrow> str_dec P (str_bytes s) = Inr s)"

section \<open>Lemmas on encoders\<close>

named_theorems emit_intros \<open>what a list of write operations emits\<close>

definition emits :: "bool \<Rightarrow> enc_op list \<Rightarrow> bytes \<Rightarrow> bool" where
  "emits s fs bs \<longleftrightarrow> writes s (run_enc fs) bs"

lemma put_enc_append:
  "put_enc (xs @ ys) (buf, off) =
     (case put_enc xs (buf, off) of Inl e \<Rightarrow> Inl e | Inr st \<Rightarrow> put_enc ys st)"
  by (auto simp: blit_def min_def ac_simps neq_Nil_conv)

lemma put_enc_in_range:
  "put_enc xs (buf, off) = Inr (buf', off') \<Longrightarrow> off' = off + length xs \<and> length buf' = length buf
     \<and> off' \<le> length buf'"
  by (auto simp: blit_def split: if_splits)

lemma writes_put_byte: "writes s (put_byte b) [b]"
  by (auto simp: writes_def blit_def upd_conv_take_nth_drop)

lemma writes_put_byte_unchecked: "writes False (put_byte_unchecked b) [b]"
  by (auto simp: writes_def blit_def upd_conv_take_nth_drop)

lemma emits_Nil [emit_intros]: "emits s [] []"
  by (simp add: emits_def writes_def blit_def)

lemma emits_Cons:
  assumes "writes s f xs" "emits s fs ys"
  shows "emits s (f # fs) (xs @ ys)"
proof -
  have "run_enc (f # fs) (buf, off) = put_enc (xs @ ys) (buf, off)"
    if off: "off \<le> length buf" "s \<or> off + length (xs @ ys) \<le> length buf" for buf off
  proof -
    have f: "f (buf, off) = put_enc xs (buf, off)" using assms(1) off by (auto simp: writes_def)
    show ?thesis
    proof (cases "put_enc xs (buf, off)")
      case (Inr st)
      moreover obtain buf' off' where st: "st = (buf', off')" by fastforce
      moreover have "run_enc fs (buf', off') = put_enc ys (buf', off')"
        using assms(2) off put_enc_in_range [of xs buf off buf' off'] Inr st
        by (auto simp: emits_def writes_def)
      ultimately show ?thesis by (simp only: run_enc.simps put_enc_append f sum.case)
    qed (simp only: run_enc.simps put_enc_append f sum.case)
  qed
  then show ?thesis by (simp add: emits_def writes_def)
qed

lemma emits_put_enc [emit_intros]: "emits s fs ys \<Longrightarrow> emits s (put_enc xs # fs) (xs @ ys)"
  by (rule emits_Cons) (simp add: writes_def)

lemma emits_put_byte [emit_intros]: "emits s fs ys \<Longrightarrow> emits s (put_byte b # fs) (b # ys)"
  using emits_Cons [OF writes_put_byte] by fastforce

lemma run_enc_append:
  "run_enc (fs @ gs) st = (case run_enc fs st of Inl e \<Rightarrow> Inl e | Inr st' \<Rightarrow> run_enc gs st')"
  by (induction fs arbitrary: st) (auto split: sum.splits)

lemma emits_append [emit_intros]:
  assumes "emits s fs xs" "emits s gs ys"
  shows "emits s (fs @ gs) (xs @ ys)"
proof -
  have "emits s [run_enc fs, run_enc gs] (xs @ ys @ [])"
    using assms by (intro emits_Cons emits_Nil) (simp_all add: emits_def)
  moreover have "run_enc [run_enc fs, run_enc gs] = run_enc (fs @ gs)"
    by (auto simp: fun_eq_iff run_enc_append split: sum.splits)
  ultimately show ?thesis by (simp add: emits_def)
qed

lemma emits_if [emit_intros]:
  "(c \<Longrightarrow> emits s fs xs) \<Longrightarrow> (\<not> c \<Longrightarrow> emits s gs ys) \<Longrightarrow>
   emits s (if c then fs else gs) (if c then xs else ys)"
  by simp

lemma emits_option [emit_intros]:
  "(k = None \<Longrightarrow> emits s fs xs) \<Longrightarrow> (\<And>x. k = Some x \<Longrightarrow> emits s (gs x) (ys x)) \<Longrightarrow>
   emits s (case k of None \<Rightarrow> fs | Some x \<Rightarrow> gs x) (case k of None \<Rightarrow> xs | Some x \<Rightarrow> ys x)"
  by (cases k) simp_all

lemma emits_concat [emit_intros]:
  "(\<And>x. x \<in> set l \<Longrightarrow> emits s (f x) (g x)) \<Longrightarrow> emits s (concat (map f l)) (concat (map g l))"
  by (induction l) (auto intro: emit_intros)

lemma writes_put_ld:
  assumes "\<And>buf. s \<or> length b \<le> length buf \<Longrightarrow> f buf = put_enc b (buf, 0)"
    and "n = length b" "fits_u32 b"
  shows "writes s (put_ld P n f) (ld_frame P b)"
proof -
  have "writes s (put_sub f) b"
    by (auto simp: writes_def assms(1) blit_def ac_simps)
  from emits_put_enc [OF emits_Cons [OF this emits_Nil]]
  have "emits s [put_enc (enc (u32c P) (of_nat n)), put_sub f] (ld_frame P b)"
    by (simp add: ld_frame_def assms(2))
  then show ?thesis using assms(2,3) by (simp add: emits_def put_ld_def fits_u32_def)
qed

lemma writes_put_ld_bytes: "fits_u32 b \<Longrightarrow> writes s (put_ld_bytes P b) (ld_frame P b)"
  unfolding put_ld_bytes_def by (rule writes_put_ld) auto

lemmas emits_put_ld_bytes [emit_intros] = emits_Cons [OF writes_put_ld_bytes]

text \<open>The last operation of a list.\<close>

lemma emits_last: "writes s f xs \<Longrightarrow> emits s [f] xs"
  using emits_Cons [OF _ emits_Nil] by fastforce

lemma emits_put_enc_last [emit_intros]: "emits s [put_enc xs] xs"
  by (rule emits_last) (simp add: writes_def)

lemmas emits_put_ld_bytes_last [emit_intros] = emits_last [OF writes_put_ld_bytes]

lemma emits_put_byte_unchecked_last [emit_intros]: "emits False [put_byte_unchecked b] [b]"
  by (rule emits_last) (rule writes_put_byte_unchecked)

lemma length_str_bytes [simp]: "length (str_bytes s) = length s"
  by (simp add: str_bytes_def)

lemma emits_run:
  "emits s fs bs \<Longrightarrow> s \<or> length bs \<le> length buf \<Longrightarrow> run_enc fs (buf, 0) = put_enc bs (buf, 0)"
  by (auto simp add: emits_def writes_def simp del: put_enc.simps)

lemma emits_exact:
  "emits s fs bs \<Longrightarrow> n = length bs \<Longrightarrow> map_res fst (run_enc fs (replicate n 0, 0)) = Inr bs"
  by (subst emits_run) (auto simp: blit_def)

lemma length_ld_frame: "length (ld_frame P b) = ld_len P (length b)"
  by (simp add: ld_frame_def ld_len_def)

section \<open>The contract of an encodable message\<close>

text \<open>
  What \<open>encode_message\<close> and the senders rely on: a well-formed message has one
  byte string, \<open>encode\<close> writes it at the front of a buffer in which it fits, and
  \<open>encoded_len\<close> is its length.
\<close>

locale encodable_fit =
  fixes valid :: "'m \<Rightarrow> bool"
    and wire :: "'m \<Rightarrow> bytes"
    and encode :: "'m \<Rightarrow> bytes \<Rightarrow> encode_error + bytes \<times> nat"
    and encoded_len :: "'m \<Rightarrow> nat"
  assumes encode_fit:
      "valid m \<Longrightarrow> length (wire m) \<le> length buf \<Longrightarrow> encode m buf = put_enc (wire m) (buf, 0)"
    and encoded_len_wire: "valid m \<Longrightarrow> encoded_len m = length (wire m)"
begin

lemma encode_exact:
  "valid m \<Longrightarrow> encode m (replicate (encoded_len m) 0) = Inr (wire m, encoded_len m)"
  by (simp add: encode_fit encoded_len_wire blit_def)

lemma encode_keeps_rest:
  "valid m \<Longrightarrow> encoded_len m \<le> length buf \<Longrightarrow>
     encode m buf = Inr (wire m @ drop (encoded_len m) buf, encoded_len m)"
  by (simp add: encode_fit encoded_len_wire blit_def)

lemma put_ld_writes:
  assumes "valid m" "fits_u32 (wire m)"
  shows "writes False (put_ld P (encoded_len m) (encode m)) (ld_frame P (wire m))"
  using assms by (intro writes_put_ld) (auto simp: encode_fit encoded_len_wire)

end

text \<open>
  Most messages promise more: a buffer that is too short is reported as such,
  whatever its length.
\<close>

locale encodable = encodable_fit +
  assumes encode_short:
    "valid m \<Longrightarrow> length buf < length (wire m) \<Longrightarrow> encode m buf = Inl Insufficient_buffer"
begin

lemma encode_wire: "valid m \<Longrightarrow> encode m buf = put_enc (wire m) (buf, 0)"
  using encode_fit [of m buf] encode_short [of m buf] by (cases "length (wire m) \<le> length buf") auto

lemma put_ld_writes_full:
  assumes "valid m" "fits_u32 (wire m)"
  shows "writes s (put_ld P (encoded_len m) (encode m)) (ld_frame P (wire m))"
  using assms by (intro writes_put_ld) (simp_all add: encode_wire encoded_len_wire)

lemma encode_result:
  "valid m \<Longrightarrow> encode m buf =
     (if encoded_len m \<le> length buf then Inr (wire m @ drop (encoded_len m) buf, encoded_len m)
      else Inl Insufficient_buffer)"
  by (simp add: encode_keeps_rest encode_short encoded_len_wire)

end

lemma encodable_fitI:
  assumes "\<And>m. valid m \<Longrightarrow> emits s (ops m) (wire m)"
    and "\<And>m buf. valid m \<Longrightarrow> encode m buf = run_enc (ops m) (buf, 0)"
    and "\<And>m. valid m \<Longrightarrow> encoded_len m = length (wire m)"
  shows "encodable_fit valid wire encode encoded_len"
  using assms emits_run by unfold_locales fastforce+

lemma encodableI:
  assumes "\<And>m. valid m \<Longrightarrow> emits True (ops m) (wire m)"
    and "\<And>m buf. valid m \<Longrightarrow> encode m buf = run_enc (ops m) (buf, 0)"
    and "\<And>m. valid m \<Longrightarrow> encoded_len m = length (wire m)"
  shows "encodable valid wire encode encoded_len"
proof (intro encodable.intro encodable_axioms.intro)
  show "encodable_fit valid wire encode encoded_len"
    by (rule encodable_fitI [where s = True and ops = ops]) (use assms in auto)
  show "encode m buf = Inl Insufficient_buffer" if "valid m" "length buf < length (wire m)" for m buf
    using that assms(2) emits_run [OF assms(1) [OF that(1)]] by simp
qed

section \<open>Lemmas on decoders\<close>

named_theorems wire_simps \<open>reading back what was written\<close>

lemma proto_merge [wire_simps]:
  "proto_ok P \<Longrightarrow> t < 16 \<Longrightarrow> u < 16 \<Longrightarrow> merge P v t = merge P w u \<longleftrightarrow> v = w \<and> t = u"
  by (auto simp: proto_ok_def tags_differ_def)

lemma stream_codecD:
  assumes "stream_codec ok c" "ok x"
  shows "dec c (enc c x @ r) = Inr (length (enc c x), x)" "dec c (enc c x) = Inr (length (enc c x), x)"
proof -
  show *: "dec c (enc c x @ r) = Inr (length (enc c x), x)" for r
    using assms by (simp add: stream_codec_def)
  show "dec c (enc c x) = Inr (length (enc c x), x)" using * [of "[]"] by simp
qed

lemma proto_streams [wire_simps]:
  assumes "proto_ok P"
  shows "dec (u32c P) (enc (u32c P) n @ r) = Inr (length (enc (u32c P) n), n)"
    and "dec (u32c P) (enc (u32c P) n) = Inr (length (enc (u32c P) n), n)"
    and "dec (u64c P) (enc (u64c P) t @ r) = Inr (length (enc (u64c P) t), t)"
    and "dec (u64c P) (enc (u64c P) t) = Inr (length (enc (u64c P) t), t)"
    and "dur_ok d \<Longrightarrow> dec (durc P) (enc (durc P) d @ r) = Inr (length (enc (durc P) d), d)"
    and "dur_ok d \<Longrightarrow> dec (durc P) (enc (durc P) d) = Inr (length (enc (durc P) d), d)"
    and "dec (idc P) (enc (idc P) i @ r) = Inr (length (enc (idc P) i), i)"
    and "dec (idc P) (enc (idc P) i) = Inr (length (enc (idc P) i), i)"
    and "dec (u8c P) (b # r) = Inr (1, b)"
  using assms by (auto simp: proto_ok_def intro: stream_codecD)

lemma proto_true [wire_simps]:
  assumes "proto_ok P"
  shows "dec (boolc P) (1 # r) = Inr (1, True)" "enc (boolc P) True = [1]"
proof -
  have b: "stream_codec (\<lambda>_. True) (boolc P)" and t: "enc (boolc P) True = [1]"
    using assms by (simp_all add: proto_ok_def)
  from stream_codecD(1) [OF b, of True r] t show "dec (boolc P) (1 # r) = Inr (1, True)" by simp
  show "enc (boolc P) True = [1]" by (rule t)
qed

lemma ld_dec_frame [wire_simps]:
  assumes "proto_ok P" "fits_u32 b"
  shows "ld_dec P d (ld_frame P b @ r) = map_res (\<lambda>(n, v). (length (ld_frame P b), v)) (d b)"
    and "ld_dec P d (ld_frame P b) = map_res (\<lambda>(n, v). (length (ld_frame P b), v)) (d b)"
proof -
  have *: "ld_split P (ld_frame P b @ r) = Inr (length (ld_frame P b), b)" for r
    using assms by (simp add: proto_ok_def split_ok_def)
  show "ld_dec P d (ld_frame P b @ r) = map_res (\<lambda>(n, v). (length (ld_frame P b), v)) (d b)"
    by (auto simp: ld_dec_def * split: sum.splits)
  show "ld_dec P d (ld_frame P b) = map_res (\<lambda>(n, v). (length (ld_frame P b), v)) (d b)"
    using * [of "[]"] by (auto simp: ld_dec_def split: sum.splits)
qed

lemma str_bytes_fits [wire_simps]: "str_ok P s \<Longrightarrow> fits_u32 (str_bytes s)"
  by (simp add: str_ok_def fits_u32_def str_bytes_def)

lemma str_bytes_Nil [simp]: "str_bytes [] = []"
  by (simp add: str_bytes_def)

lemma str_dec_ok: "proto_ok P \<Longrightarrow> str_ok P s \<Longrightarrow> str_dec P (str_bytes s) = Inr s"
  by (simp add: proto_ok_def str_ok_def)

lemma ld_str_frame [wire_simps]:
  assumes "proto_ok P" "str_ok P s"
  shows "ld_str P (ld_frame P (str_bytes s) @ r) = Inr (length (ld_frame P (str_bytes s)), s)"
    and "ld_str P (ld_frame P (str_bytes s)) = Inr (length (ld_frame P (str_bytes s)), s)"
  using assms
  by (simp_all add: ld_str_def ld_dec_frame [OF assms(1) str_bytes_fits [OF assms(2)]] str_dec_ok)

lemma ld_bytes_frame [wire_simps]:
  assumes "proto_ok P" "fits_u32 b"
  shows "ld_bytes P (ld_frame P b @ r) = Inr (length (ld_frame P b), b)"
    and "ld_bytes P (ld_frame P b) = Inr (length (ld_frame P b), b)"
  by (simp_all add: ld_bytes_def ld_dec_frame [OF assms])

lemma body_codecD:
  "body_codec ok c \<Longrightarrow> ok x \<Longrightarrow> map_res (\<lambda>(n, v). (m, v)) (dec c (enc c x)) = Inr (m, x)"
  by (auto simp: body_codec_def)

lemma body_codec_snd: "body_codec ok c \<Longrightarrow> ok x \<Longrightarrow> map_res snd (dec c (enc c x)) = Inr x"
  by (auto simp: body_codec_def)

lemma proto_bodies [wire_simps]:
  assumes "proto_ok P"
  shows "map_res (\<lambda>(n, v). (m, v)) (dec (nodec P) (enc (nodec P) nd)) = Inr (m, nd)"
    and "map_res (\<lambda>(n, v). (m, v)) (dec (keyc P) (enc (keyc P) k)) = Inr (m, k)"
    and "map_res (\<lambda>(n, v). (m, v)) (dec (statusc P) (enc (statusc P) st)) = Inr (m, st)"
    and "str_ok P s \<Longrightarrow> str_ok P t \<Longrightarrow>
      map_res (\<lambda>(n, v). (m, v)) (dec (tagc P) (enc (tagc P) (s, t))) = Inr (m, (s, t))"
  using assms by (auto simp: proto_ok_def intro!: body_codecD)

lemma skip_frame [wire_simps]:
  assumes "proto_ok P" "t < 16"
  shows "fits_u32 b \<Longrightarrow> skip P (merge P LengthDelimited t # ld_frame P b @ r)
      = Inr (Suc (length (ld_frame P b)))"
    and "skip P (merge P (id_wire P) t # enc (idc P) i @ r) = Inr (Suc (length (enc (idc P) i)))"
  using assms by (auto simp: proto_ok_def skip_ok_def)

lemma decode_loop_step [wire_simps]:
  "step off b (xs @ r) st = Inr (Suc (length xs), st') \<Longrightarrow>
     decode_loop step off (b # xs @ r) st = decode_loop step (off + Suc (length xs)) r st'"
  by simp

text \<open>
  A run of fields that a step only records the window of: the loop passes over
  them and the window spans them.
\<close>

definition span :: "nat \<Rightarrow> bytes list \<Rightarrow> (nat \<times> nat) option" where
  "span off fs = (if fs = [] then None else Some (off, off + length (concat fs)))"

lemma decode_loop_window:
  assumes "\<And>f off r w. f \<in> set fs \<Longrightarrow>
      \<exists>b xs. f = b # xs \<and> step off b (xs @ r) (put w) = Inr (length f, put (widen w off (length f)))"
  shows "decode_loop step (off + k) (concat fs @ r) (put (Some (off, off + k)))
       = decode_loop step (off + k + length (concat fs)) r (put (Some (off, off + k + length (concat fs))))"
  using assms
proof (induction fs arbitrary: k)
  case (Cons f fs)
  from Cons.prems [of f "off + k" "concat fs @ r" "Some (off, off + k)"]
  obtain b xs where f: "f = b # xs"
    and "step (off + k) b (xs @ concat fs @ r) (put (Some (off, off + k)))
      = Inr (length f, put (widen (Some (off, off + k)) (off + k) (length f)))"
    by auto
  then have "decode_loop step (off + k) (f @ concat fs @ r) (put (Some (off, off + k)))
    = decode_loop step (off + (k + length f)) (concat fs @ r) (put (Some (off, off + (k + length f))))"
    by (simp add: add.assoc)
  with Cons.IH [of "k + length f"] Cons.prems show ?case
    by (simp add: add.assoc)
qed simp

lemma decode_loop_span:
  assumes "\<And>f off r w. f \<in> set fs \<Longrightarrow>
      \<exists>b xs. f = b # xs \<and> step off b (xs @ r) (put w) = Inr (length f, put (widen w off (length f)))"
  shows "decode_loop step off (concat fs @ r) (put None)
       = decode_loop step (off + length (concat fs)) r (put (span off fs))"
proof (cases fs)
  case (Cons f gs)
  with assms [of f off "concat gs @ r" None] obtain b xs where f: "f = b # xs"
    and "step off b (xs @ concat gs @ r) (put None) = Inr (length f, put (widen None off (length f)))"
    by auto
  then have "decode_loop step off (f @ concat gs @ r) (put None)
    = decode_loop step (off + length f) (concat gs @ r) (put (Some (off, off + length f)))"
    by simp
  also have "\<dots> = decode_loop step (off + length f + length (concat gs)) r
      (put (Some (off, off + length f + length (concat gs))))"
    by (rule decode_loop_window) (use assms Cons in auto)
  finally show ?thesis by (simp add: Cons span_def add.assoc)
qed (simp add: span_def)

lemma decode_loop_fields:
  assumes "\<And>x off r w. x \<in> set l \<Longrightarrow>
      step off tb (body x @ r) (put w)
      = Inr (Suc (length (body x)), put (widen w off (Suc (length (body x)))))"
  shows "decode_loop step off (concat (map (\<lambda>x. tb # body x) l) @ r) (put None)
       = decode_loop step (off + length (concat (map (\<lambda>x. tb # body x) l))) r
           (put (span off (map (\<lambda>x. tb # body x) l)))"
  by (rule decode_loop_span) (use assms in auto)

lemma window_span:
  "length pre = off \<Longrightarrow>
     window (pre @ concat (map f xs) @ r) (span off (map f xs))
     = (if xs = [] then None else Some (concat (map f xs)))"
  by (simp add: window_def span_def)

lemma rep_ld_items:
  assumes "proto_ok P" "t < 16" "\<And>x. x \<in> set xs \<Longrightarrow> fits_u32 (f x)"
  shows "rep_items (rep_ld P t)
      (if xs = [] then None
       else Some (concat (map (\<lambda>x. merge P LengthDelimited t # ld_frame P (f x)) xs))) = Inr (map f xs)"
proof -
  have "rep_ld P t (concat (map (\<lambda>b. merge P LengthDelimited t # ld_frame P b) (map f xs))) = Inr (map f xs)"
    using assms unfolding proto_ok_def rep_ok_def by (simp add: list_all_iff del: map_map)
  then show ?thesis by (auto simp: comp_def)
qed

lemma rep_id_items:
  assumes "proto_ok P" "t < 16"
  shows "rep_items (rep_id P t)
      (if is = [] then None
       else Some (concat (map (\<lambda>i. merge P (id_wire P) t # enc (idc P) i) is))) = Inr is"
  using assms by (auto simp: proto_ok_def rep_ok_def)

end
