(* ===== verification/Wire_Messages.thy ===== *)
theory Wire_Messages
  imports Wire_Base
begin

text \<open>
  The encodings of the gossip messages: leave and join intents
  (\<open>types/leave.rs\<close>, \<open>types/join.rs\<close>), user events (\<open>types/user_event.rs\<close>,
  \<open>types/user_event/message.rs\<close>, \<open>types/user_event/user_events.rs\<close>) and query
  responses (\<open>types/query/response.rs\<close>). For each: the decoding step and
  \<open>decode\<close>, \<open>encode\<close>, \<open>encoded_len\<close>, and the byte string \<open>wire\<close> that \<open>encode\<close>
  is meant to write. A decoder and the \<open>from_ref\<close> that turns the borrowed
  result into the owned message are one function here.
\<close>

section \<open>Leave and join intents\<close>

fun leave_step ::
  "('i, 'a) proto \<Rightarrow> nat \<Rightarrow> u8 \<Rightarrow> bytes \<Rightarrow> lamport_time option \<times> bool option \<times> 'i option
   \<Rightarrow> decode_error + nat \<times> lamport_time option \<times> bool option \<times> 'i option"
where
  "leave_step P off b r (lt, pr, i) =
     (if b = merge P Varint 1 then
        once lt 1 (field (dec (u64c P)) r (\<lambda>v. (Some v, pr, i)))
      else if b = merge P Byte 2 then
        once pr 2 (field (dec (boolc P)) r (\<lambda>v. (lt, Some v, i)))
      else if b = merge P (id_wire P) 3 then
        field (dec (idc P)) r (\<lambda>v. (lt, pr, Some v))
      else skip_field P (b # r) (\<lambda>_. (lt, pr, i)))"

definition decode_leave :: "('i, 'a) proto \<Rightarrow> bytes \<Rightarrow> decode_error + nat \<times> 'i leave_message" where
  "decode_leave P buf =
     bind_res (decode_loop (leave_step P) 0 buf (None, None, None)) (\<lambda>(off, lt, pr, i).
     bind_res (required ''ltime'' lt) (\<lambda>lt.
     bind_res (required ''id'' i) (\<lambda>i.
     Inr (off, \<lparr>lm_ltime = lt, lm_id = i, lm_prune = or_default False pr\<rparr>))))"

definition encoded_len_leave :: "('i, 'a) proto \<Rightarrow> 'i leave_message \<Rightarrow> nat" where
  "encoded_len_leave P m =
     1 + length (enc (u64c P) (lm_ltime m)) + (if lm_prune m then 1 + 1 else 0)
     + 1 + length (enc (idc P) (lm_id m))"

definition encode_leave ::
  "('i, 'a) proto \<Rightarrow> 'i leave_message \<Rightarrow> bytes \<Rightarrow> encode_error + bytes \<times> nat"
where
  "encode_leave P m buf =
     run_enc
       (put_byte (merge P Varint 1) # put_enc (enc (u64c P) (lm_ltime m)) #
        (if lm_prune m then [put_byte (merge P Byte 2), put_enc (enc (boolc P) True)] else []) @
        [put_byte (merge P (id_wire P) 3), put_enc (enc (idc P) (lm_id m))])
       (buf, 0)"

definition wire_leave :: "('i, 'a) proto \<Rightarrow> 'i leave_message \<Rightarrow> bytes" where
  "wire_leave P m =
     merge P Varint 1 # enc (u64c P) (lm_ltime m) @
     (if lm_prune m then merge P Byte 2 # enc (boolc P) True else []) @
     merge P (id_wire P) 3 # enc (idc P) (lm_id m)"

definition wf_leave :: "('i, 'a) proto \<Rightarrow> 'i leave_message \<Rightarrow> bool" where
  "wf_leave P m \<longleftrightarrow> lm_prune m \<longrightarrow> length (enc (boolc P) True) = 1"

fun join_step ::
  "('i, 'a) proto \<Rightarrow> nat \<Rightarrow> u8 \<Rightarrow> bytes \<Rightarrow> lamport_time option \<times> 'i option
   \<Rightarrow> decode_error + nat \<times> lamport_time option \<times> 'i option"
where
  "join_step P off b r (lt, i) =
     (if b = merge P Varint 1 then
        once lt 1 (field (dec (u64c P)) r (\<lambda>v. (Some v, i)))
      else if b = merge P (id_wire P) 2 then
        once i 2 (field (dec (idc P)) r (\<lambda>v. (lt, Some v)))
      else skip_field P (b # r) (\<lambda>_. (lt, i)))"

definition decode_join :: "('i, 'a) proto \<Rightarrow> bytes \<Rightarrow> decode_error + nat \<times> 'i join_message" where
  "decode_join P buf =
     bind_res (decode_loop (join_step P) 0 buf (None, None)) (\<lambda>(off, lt, i).
     bind_res (required ''ltime'' lt) (\<lambda>lt.
     bind_res (required ''id'' i) (\<lambda>i.
     Inr (off, \<lparr>jm_ltime = lt, jm_id = i\<rparr>))))"

definition encoded_len_join :: "('i, 'a) proto \<Rightarrow> 'i join_message \<Rightarrow> nat" where
  "encoded_len_join P m =
     1 + length (enc (u64c P) (jm_ltime m)) + 1 + length (enc (idc P) (jm_id m))"

definition encode_join ::
  "('i, 'a) proto \<Rightarrow> 'i join_message \<Rightarrow> bytes \<Rightarrow> encode_error + bytes \<times> nat"
where
  "encode_join P m buf =
     run_enc
       [put_byte (merge P Varint 1), put_enc (enc (u64c P) (jm_ltime m)),
        put_byte (merge P (id_wire P) 2), put_enc (enc (idc P) (jm_id m))]
       (buf, 0)"

definition wire_join :: "('i, 'a) proto \<Rightarrow> 'i join_message \<Rightarrow> bytes" where
  "wire_join P m =
     merge P Varint 1 # enc (u64c P) (jm_ltime m) @
     merge P (id_wire P) 2 # enc (idc P) (jm_id m)"

section \<open>User events\<close>

fun user_event_step ::
  "('i, 'a) proto \<Rightarrow> nat \<Rightarrow> u8 \<Rightarrow> bytes \<Rightarrow> string option \<times> bytes option
   \<Rightarrow> decode_error + nat \<times> string option \<times> bytes option"
where
  "user_event_step P off b r (nm, pl) =
     (if b = merge P LengthDelimited 1 then
        once nm 1 (field (ld_str P) r (\<lambda>v. (Some v, pl)))
      else if b = merge P LengthDelimited 2 then
        once pl 2 (field (ld_bytes P) r (\<lambda>v. (nm, Some v)))
      else skip_field P (b # r) (\<lambda>_. (nm, pl)))"

definition decode_user_event :: "('i, 'a) proto \<Rightarrow> bytes \<Rightarrow> decode_error + nat \<times> user_event" where
  "decode_user_event P buf =
     bind_res (decode_loop (user_event_step P) 0 buf (None, None)) (\<lambda>(off, nm, pl).
     Inr (off, \<lparr>ev_name = or_default [] nm, ev_payload = or_default [] pl\<rparr>))"

definition encoded_len_user_event :: "('i, 'a) proto \<Rightarrow> user_event \<Rightarrow> nat" where
  "encoded_len_user_event P e =
     (if ev_name e \<noteq> [] then 1 + ld_len P (length (ev_name e)) else 0)
     + (if ev_payload e \<noteq> [] then 1 + ld_len P (length (ev_payload e)) else 0)"

definition encode_user_event ::
  "('i, 'a) proto \<Rightarrow> user_event \<Rightarrow> bytes \<Rightarrow> encode_error + bytes \<times> nat"
where
  "encode_user_event P e buf =
     run_enc
       ((if ev_name e \<noteq> []
         then [put_byte (merge P LengthDelimited 1), put_ld_bytes P (str_bytes (ev_name e))]
         else []) @
        (if ev_payload e \<noteq> []
         then [put_byte (merge P LengthDelimited 2), put_ld_bytes P (ev_payload e)]
         else []))
       (buf, 0)"

definition wire_user_event :: "('i, 'a) proto \<Rightarrow> user_event \<Rightarrow> bytes" where
  "wire_user_event P e =
     (if ev_name e \<noteq> [] then merge P LengthDelimited 1 # ld_frame P (str_bytes (ev_name e)) else []) @
     (if ev_payload e \<noteq> [] then merge P LengthDelimited 2 # ld_frame P (ev_payload e) else [])"

definition wf_user_event :: "('i, 'a) proto \<Rightarrow> user_event \<Rightarrow> bool" where
  "wf_user_event P e \<longleftrightarrow> str_ok P (ev_name e) \<and> fits_u32 (ev_payload e)"

fun user_event_message_step ::
  "('i, 'a) proto \<Rightarrow> nat \<Rightarrow> u8 \<Rightarrow> bytes
   \<Rightarrow> lamport_time option \<times> string option \<times> bytes option \<times> bool option
   \<Rightarrow> decode_error + nat \<times> lamport_time option \<times> string option \<times> bytes option \<times> bool option"
where
  "user_event_message_step P off b r (lt, nm, pl, cc) =
     (if b = merge P Varint 1 then
        once lt 1 (field (dec (u64c P)) r (\<lambda>v. (Some v, nm, pl, cc)))
      else if b = merge P Byte 2 then
        once cc 2 (field (dec (boolc P)) r (\<lambda>v. (lt, nm, pl, Some v)))
      else if b = merge P LengthDelimited 3 then
        once nm 3 (field (ld_str P) r (\<lambda>v. (lt, Some v, pl, cc)))
      else if b = merge P LengthDelimited 4 then
        once pl 4 (field (ld_bytes P) r (\<lambda>v. (lt, nm, Some v, cc)))
      else skip_field P (b # r) (\<lambda>_. (lt, nm, pl, cc)))"

definition decode_user_event_message ::
  "('i, 'a) proto \<Rightarrow> bytes \<Rightarrow> decode_error + nat \<times> user_event_message"
where
  "decode_user_event_message P buf =
     bind_res (decode_loop (user_event_message_step P) 0 buf (None, None, None, None))
       (\<lambda>(off, lt, nm, pl, cc).
     bind_res (required ''ltime'' lt) (\<lambda>lt.
     Inr (off, \<lparr>ue_ltime = lt, ue_name = or_default [] nm, ue_payload = or_default [] pl,
                ue_cc = or_default False cc\<rparr>)))"

definition encoded_len_user_event_message :: "('i, 'a) proto \<Rightarrow> user_event_message \<Rightarrow> nat" where
  "encoded_len_user_event_message P m =
     1 + length (enc (u64c P) (ue_ltime m))
     + (if length (ue_name m) > 0 then 1 + ld_len P (length (ue_name m)) else 0)
     + (if length (ue_payload m) > 0 then 1 + ld_len P (length (ue_payload m)) else 0)
     + (if ue_cc m then 1 + 1 else 0)"

definition encode_user_event_message ::
  "('i, 'a) proto \<Rightarrow> user_event_message \<Rightarrow> bytes \<Rightarrow> encode_error + bytes \<times> nat"
where
  "encode_user_event_message P m buf =
     run_enc
       (put_byte (merge P Varint 1) # put_enc (enc (u64c P) (ue_ltime m)) #
        (if ue_cc m then [put_byte (merge P Byte 2), put_byte 1] else []) @
        (if ue_name m \<noteq> []
         then [put_byte (merge P LengthDelimited 3), put_ld_bytes P (str_bytes (ue_name m))]
         else []) @
        (if ue_payload m \<noteq> []
         then [put_byte (merge P LengthDelimited 4), put_ld_bytes P (ue_payload m)]
         else []))
       (buf, 0)"

definition wire_user_event_message :: "('i, 'a) proto \<Rightarrow> user_event_message \<Rightarrow> bytes" where
  "wire_user_event_message P m =
     merge P Varint 1 # enc (u64c P) (ue_ltime m) @
     (if ue_cc m then [merge P Byte 2, 1] else []) @
     (if ue_name m \<noteq> [] then merge P LengthDelimited 3 # ld_frame P (str_bytes (ue_name m)) else []) @
     (if ue_payload m \<noteq> [] then merge P LengthDelimited 4 # ld_frame P (ue_payload m) else [])"

definition wf_user_event_message :: "('i, 'a) proto \<Rightarrow> user_event_message \<Rightarrow> bool" where
  "wf_user_event_message P m \<longleftrightarrow> str_ok P (ue_name m) \<and> fits_u32 (ue_payload m)"

text \<open>
  The events buffered for one Lamport time. \<open>decode\<close> only records where the
  events are; \<open>from_ref\<close> decodes them.
\<close>

fun user_events_step ::
  "('i, 'a) proto \<Rightarrow> nat \<Rightarrow> u8 \<Rightarrow> bytes \<Rightarrow> lamport_time option \<times> (nat \<times> nat) option
   \<Rightarrow> decode_error + nat \<times> lamport_time option \<times> (nat \<times> nat) option"
where
  "user_events_step P off b r (lt, w) =
     (if b = merge P Varint 1 then
        once lt 1 (field (dec (u64c P)) r (\<lambda>v. (Some v, w)))
      else if b = merge P LengthDelimited 2 then
        skip_field P (b # r) (\<lambda>n. (lt, widen w off n))
      else skip_field P (b # r) (\<lambda>_. (lt, w)))"

definition decode_user_events_ref ::
  "('i, 'a) proto \<Rightarrow> bytes \<Rightarrow> decode_error + nat \<times> lamport_time \<times> bytes option"
where
  "decode_user_events_ref P buf =
     bind_res (decode_loop (user_events_step P) 0 buf (None, None)) (\<lambda>(off, lt, w).
     bind_res (required ''ltime'' lt) (\<lambda>lt.
     Inr (off, lt, window buf w)))"

definition user_events_from_ref ::
  "('i, 'a) proto \<Rightarrow> lamport_time \<times> bytes option \<Rightarrow> decode_error + user_events"
where
  "user_events_from_ref P v =
     bind_res (rep_items (rep_ld P 2) (snd v)) (\<lambda>bs.
     bind_res (mapM_res (\<lambda>b. map_res snd (decode_user_event P b)) bs) (\<lambda>es.
     Inr \<lparr>evs_ltime = fst v, evs_events = es\<rparr>))"

definition decode_user_events ::
  "('i, 'a) proto \<Rightarrow> bytes \<Rightarrow> decode_error + nat \<times> user_events"
where
  "decode_user_events P buf =
     bind_res (decode_user_events_ref P buf) (\<lambda>(off, v).
     map_res (Pair off) (user_events_from_ref P v))"

definition encoded_len_user_events :: "('i, 'a) proto \<Rightarrow> user_events \<Rightarrow> nat" where
  "encoded_len_user_events P m =
     1 + length (enc (u64c P) (evs_ltime m))
     + sum_list (map (\<lambda>e. 1 + ld_len P (encoded_len_user_event P e)) (evs_events m))"

definition encode_user_events ::
  "('i, 'a) proto \<Rightarrow> user_events \<Rightarrow> bytes \<Rightarrow> encode_error + bytes \<times> nat"
where
  "encode_user_events P m buf =
     run_enc
       (put_byte (merge P Varint 1) # put_enc (enc (u64c P) (evs_ltime m)) #
        concat (map (\<lambda>e. [put_byte (merge P LengthDelimited 2),
          put_ld P (encoded_len_user_event P e) (encode_user_event P e)]) (evs_events m)))
       (buf, 0)"

definition wire_user_events :: "('i, 'a) proto \<Rightarrow> user_events \<Rightarrow> bytes" where
  "wire_user_events P m =
     merge P Varint 1 # enc (u64c P) (evs_ltime m) @
     concat (map (\<lambda>e. merge P LengthDelimited 2 # ld_frame P (wire_user_event P e)) (evs_events m))"

definition wf_user_events :: "('i, 'a) proto \<Rightarrow> user_events \<Rightarrow> bool" where
  "wf_user_events P m \<longleftrightarrow>
     list_all (\<lambda>e. wf_user_event P e \<and> fits_u32 (wire_user_event P e)) (evs_events m)"

section \<open>Query responses\<close>

fun query_response_step ::
  "('i, 'a) proto \<Rightarrow> nat \<Rightarrow> u8 \<Rightarrow> bytes
   \<Rightarrow> lamport_time option \<times> u32 option \<times> ('i, 'a) node option \<times> u32 option \<times> bytes option
   \<Rightarrow> decode_error + nat \<times> lamport_time option \<times> u32 option \<times> ('i, 'a) node option
        \<times> u32 option \<times> bytes option"
where
  "query_response_step P off b r (lt, i, fr, fl, pl) =
     (if b = merge P Varint 1 then
        once lt 1 (field (dec (u64c P)) r (\<lambda>v. (Some v, i, fr, fl, pl)))
      else if b = merge P Varint 2 then
        once i 2 (field (dec (u32c P)) r (\<lambda>v. (lt, Some v, fr, fl, pl)))
      else if b = merge P LengthDelimited 3 then
        once fr 3 (field (ld_dec P (dec (nodec P))) r (\<lambda>v. (lt, i, Some v, fl, pl)))
      else if b = merge P Varint 4 then
        once fl 4 (field (dec (u32c P)) r (\<lambda>v. (lt, i, fr, Some v, pl)))
      else if b = merge P LengthDelimited 5 then
        once pl 5 (field (ld_bytes P) r (\<lambda>v. (lt, i, fr, fl, Some v)))
      else skip_field P (b # r) (\<lambda>_. (lt, i, fr, fl, pl)))"

definition decode_query_response ::
  "('i, 'a) proto \<Rightarrow> bytes \<Rightarrow> decode_error + nat \<times> ('i, 'a) query_response_message"
where
  "decode_query_response P buf =
     bind_res (decode_loop (query_response_step P) 0 buf (None, None, None, None, None))
       (\<lambda>(off, lt, i, fr, fl, pl).
     bind_res (required ''ltime'' lt) (\<lambda>lt.
     bind_res (required ''id'' i) (\<lambda>i.
     bind_res (required ''from'' fr) (\<lambda>fr.
     bind_res (required ''flags'' fl) (\<lambda>fl.
     Inr (off, \<lparr>qr_ltime = lt, qr_id = i, qr_from = fr, qr_flags = fl,
                qr_payload = or_default [] pl\<rparr>))))))"

definition encoded_len_query_response ::
  "('i, 'a) proto \<Rightarrow> ('i, 'a) query_response_message \<Rightarrow> nat"
where
  "encoded_len_query_response P m =
     1 + length (enc (u64c P) (qr_ltime m)) + 1 + length (enc (u32c P) (qr_id m))
     + 1 + ld_len P (length (enc (nodec P) (qr_from m)))
     + 1 + length (enc (u32c P) (qr_flags m))
     + (if length (qr_payload m) > 0 then 1 + ld_len P (length (qr_payload m)) else 0)"

definition encode_query_response ::
  "('i, 'a) proto \<Rightarrow> ('i, 'a) query_response_message \<Rightarrow> bytes \<Rightarrow> encode_error + bytes \<times> nat"
where
  "encode_query_response P m buf =
     run_enc
       (put_byte (merge P Varint 1) # put_enc (enc (u64c P) (qr_ltime m)) #
        put_byte (merge P Varint 2) # put_enc (enc (u32c P) (qr_id m)) #
        put_byte (merge P LengthDelimited 3) # put_ld_bytes P (enc (nodec P) (qr_from m)) #
        put_byte (merge P Varint 4) # put_enc (enc (u32c P) (qr_flags m)) #
        (if qr_payload m \<noteq> []
         then [put_byte (merge P LengthDelimited 5), put_ld_bytes P (qr_payload m)]
         else []))
       (buf, 0)"

definition wire_query_response :: "('i, 'a) proto \<Rightarrow> ('i, 'a) query_response_message \<Rightarrow> bytes" where
  "wire_query_response P m =
     merge P Varint 1 # enc (u64c P) (qr_ltime m) @
     merge P Varint 2 # enc (u32c P) (qr_id m) @
     merge P LengthDelimited 3 # ld_frame P (enc (nodec P) (qr_from m)) @
     merge P Varint 4 # enc (u32c P) (qr_flags m) @
     (if qr_payload m \<noteq> [] then merge P LengthDelimited 5 # ld_frame P (qr_payload m) else [])"

definition wf_query_response :: "('i, 'a) proto \<Rightarrow> ('i, 'a) query_response_message \<Rightarrow> bool" where
  "wf_query_response P m \<longleftrightarrow> fits_u32 (enc (nodec P) (qr_from m)) \<and> fits_u32 (qr_payload m)"

section \<open>What the encoders write\<close>

interpretation leave_codec: encodable "wf_leave P" "wire_leave P" "encode_leave P"
  "encoded_len_leave P" for P :: "('i, 'a) proto"
  by (rule encodableI [OF _ encode_leave_def], unfold wire_leave_def, intro emit_intros)
    (simp add: encoded_len_leave_def wf_leave_def)

interpretation join_codec: encodable "\<lambda>_. True" "wire_join P" "encode_join P"
  "encoded_len_join P" for P :: "('i, 'a) proto"
  by (rule encodableI [OF _ encode_join_def], unfold wire_join_def, intro emit_intros)
    (simp add: encoded_len_join_def)

interpretation user_event_codec: encodable "wf_user_event P" "wire_user_event P"
  "encode_user_event P" "encoded_len_user_event P" for P :: "('i, 'a) proto"
  by (rule encodableI [OF _ encode_user_event_def], unfold wire_user_event_def, intro emit_intros)
    (auto simp: encoded_len_user_event_def wf_user_event_def wire_simps length_ld_frame)

interpretation user_event_message_codec: encodable "wf_user_event_message P"
  "wire_user_event_message P" "encode_user_event_message P" "encoded_len_user_event_message P"
  for P :: "('i, 'a) proto"
  by (rule encodableI [OF _ encode_user_event_message_def], unfold wire_user_event_message_def,
      intro emit_intros)
    (auto simp: encoded_len_user_event_message_def wf_user_event_message_def wire_simps
      length_ld_frame)

interpretation user_events_codec: encodable "wf_user_events P" "wire_user_events P"
  "encode_user_events P" "encoded_len_user_events P" for P :: "('i, 'a) proto"
  by (rule encodableI [OF _ encode_user_events_def], unfold wire_user_events_def,
      intro emit_intros emits_last user_event_codec.put_ld_writes_full)
    (auto simp: encoded_len_user_events_def wf_user_events_def list_all_iff length_concat
      length_ld_frame user_event_codec.encoded_len_wire comp_def intro!: arg_cong [of _ _ sum_list])

interpretation query_response_codec: encodable "wf_query_response P" "wire_query_response P"
  "encode_query_response P" "encoded_len_query_response P" for P :: "('i, 'a) proto"
  by (rule encodableI [OF _ encode_query_response_def], unfold wire_query_response_def,
      intro emit_intros)
    (auto simp: encoded_len_query_response_def wf_query_response_def length_ld_frame)

section \<open>Reading back what was written\<close>

lemma decode_leave_wire:
  "proto_ok P \<Longrightarrow> decode_leave P (wire_leave P m) = Inr (length (wire_leave P m), m)"
  by (cases "lm_prune m")
    (simp_all add: decode_leave_def wire_leave_def or_default_def wire_simps)

lemma decode_join_wire:
  "proto_ok P \<Longrightarrow> decode_join P (wire_join P m) = Inr (length (wire_join P m), m)"
  by (simp add: decode_join_def wire_join_def wire_simps)

lemma decode_user_event_wire:
  "proto_ok P \<Longrightarrow> wf_user_event P e \<Longrightarrow>
     decode_user_event P (wire_user_event P e) = Inr (length (wire_user_event P e), e)"
  by (cases "ev_name e = []"; cases "ev_payload e = []")
    (simp_all add: decode_user_event_def wire_user_event_def wf_user_event_def or_default_def
      wire_simps)

lemma decode_user_event_message_wire:
  "proto_ok P \<Longrightarrow> wf_user_event_message P m \<Longrightarrow>
     decode_user_event_message P (wire_user_event_message P m)
     = Inr (length (wire_user_event_message P m), m)"
  by (cases "ue_cc m"; cases "ue_name m = []"; cases "ue_payload m = []")
    (simp_all add: decode_user_event_message_def wire_user_event_message_def
      wf_user_event_message_def or_default_def wire_simps)

lemma decode_query_response_wire:
  "proto_ok P \<Longrightarrow> wf_query_response P m \<Longrightarrow>
     decode_query_response P (wire_query_response P m) = Inr (length (wire_query_response P m), m)"
  by (cases "qr_payload m = []")
    (simp_all add: decode_query_response_def wire_query_response_def wf_query_response_def
      or_default_def wire_simps)

lemma decode_user_events_wire:
  assumes "proto_ok P" "wf_user_events P m"
  shows "decode_user_events P (wire_user_events P m) = Inr (length (wire_user_events P m), m)"
proof -
  let ?f = "\<lambda>e. merge P LengthDelimited 2 # ld_frame P (wire_user_event P e)"
  let ?w = "if evs_events m = [] then None else Some (concat (map ?f (evs_events m)))"
  have evs: "e \<in> set (evs_events m) \<Longrightarrow> wf_user_event P e \<and> fits_u32 (wire_user_event P e)" for e
    using assms(2) by (simp add: wf_user_events_def list_all_iff)
  have "decode_loop (user_events_step P) k (concat (map ?f (evs_events m)) @ []) (Some t, None)
      = decode_loop (user_events_step P) (k + length (concat (map ?f (evs_events m)))) []
          (Some t, span k (map ?f (evs_events m)))" for k t
    by (rule decode_loop_fields [where put = "\<lambda>w. (Some t, w)"])
      (use assms(1) evs in \<open>simp add: skip_field_def wire_simps\<close>)
  then have ref: "decode_user_events_ref P (wire_user_events P m)
    = Inr (length (wire_user_events P m), evs_ltime m, ?w)"
    using assms(1) window_span [of "merge P Varint 1 # enc (u64c P) (evs_ltime m)" _ ?f "evs_events m" "[]"]
    by (simp add: decode_user_events_ref_def wire_user_events_def wire_simps)
  have "rep_items (rep_ld P 2) ?w = Inr (map (wire_user_event P) (evs_events m))"
    by (rule rep_ld_items) (use assms(1) evs in simp_all)
  moreover have "mapM_res (\<lambda>b. map_res snd (decode_user_event P b))
      (map (wire_user_event P) (evs_events m)) = Inr (evs_events m)"
    unfolding mapM_res_map
    by (rule mapM_res_id) (use assms(1) evs in \<open>simp add: decode_user_event_wire\<close>)
  ultimately show ?thesis
    by (simp add: decode_user_events_def ref user_events_from_ref_def del: if_split)
qed

end
