(* ===== verification/Wire_Query.thy ===== *)
theory Wire_Query
  imports Wire_Messages
begin

text \<open>
  The encodings of tags (\<open>types/tags.rs\<close>), of the filters of a query
  (\<open>types/filter.rs\<close>, \<open>types/filter/tag_filter.rs\<close>) and of queries
  (\<open>types/query.rs\<close>). A compiled regular expression is its pattern; whether a
  pattern compiles is the parameter \<open>regex_new\<close>.
\<close>

section \<open>Tags\<close>

fun tags_step ::
  "('i, 'a) proto \<Rightarrow> nat \<Rightarrow> u8 \<Rightarrow> bytes \<Rightarrow> (nat \<times> nat) option
   \<Rightarrow> decode_error + nat \<times> (nat \<times> nat) option"
where
  "tags_step P off b r w =
     (if b = merge P LengthDelimited 1 then skip_field P (b # r) (\<lambda>n. widen w off n)
      else skip_field P (b # r) (\<lambda>_. w))"

definition decode_tags_ref :: "('i, 'a) proto \<Rightarrow> bytes \<Rightarrow> decode_error + nat \<times> bytes option" where
  "decode_tags_ref P buf =
     map_res (\<lambda>(off, w). (off, window buf w)) (decode_loop (tags_step P) 0 buf None)"

text \<open>Collecting into an \<open>IndexMap\<close>: a repeated key keeps its place and takes the new value.\<close>

definition collect_map :: "('k \<times> 'v) list \<Rightarrow> ('k, 'v) hash_map" where
  "collect_map kvs = fold (\<lambda>(k, v) m. AList.update k v m) kvs []"

definition tags_from_ref :: "('i, 'a) proto \<Rightarrow> bytes option \<Rightarrow> decode_error + tags" where
  "tags_from_ref P w =
     bind_res (rep_items (rep_ld P 1) w) (\<lambda>bs.
     map_res collect_map (mapM_res (\<lambda>b. map_res snd (dec (tagc P) b)) bs))"

definition decode_tags :: "('i, 'a) proto \<Rightarrow> bytes \<Rightarrow> decode_error + nat \<times> tags" where
  "decode_tags P buf =
     bind_res (decode_tags_ref P buf) (\<lambda>(off, w). map_res (Pair off) (tags_from_ref P w))"

definition encoded_len_tags :: "('i, 'a) proto \<Rightarrow> tags \<Rightarrow> nat" where
  "encoded_len_tags P ts =
     sum_list (map (\<lambda>kv. 1 + ld_len P (length (enc (tagc P) kv))) ts)"

definition encode_tags :: "('i, 'a) proto \<Rightarrow> tags \<Rightarrow> bytes \<Rightarrow> encode_error + bytes \<times> nat" where
  "encode_tags P ts buf =
     run_enc (concat (map (\<lambda>kv. [put_byte (merge P LengthDelimited 1),
       put_ld_bytes P (enc (tagc P) kv)]) ts)) (buf, 0)"

definition wire_tags :: "('i, 'a) proto \<Rightarrow> tags \<Rightarrow> bytes" where
  "wire_tags P ts =
     concat (map (\<lambda>kv. merge P LengthDelimited 1 # ld_frame P (enc (tagc P) kv)) ts)"

definition wf_tags :: "('i, 'a) proto \<Rightarrow> tags \<Rightarrow> bool" where
  "wf_tags P ts \<longleftrightarrow> distinct (map fst ts) \<and>
     list_all (\<lambda>(k, v). str_ok P k \<and> str_ok P v \<and> fits_u32 (enc (tagc P) (k, v))) ts"

section \<open>Filters\<close>

fun tag_filter_step ::
  "('i, 'a) proto \<Rightarrow> nat \<Rightarrow> u8 \<Rightarrow> bytes \<Rightarrow> string option \<times> string option
   \<Rightarrow> decode_error + nat \<times> string option \<times> string option"
where
  "tag_filter_step P off b r (tg, ex) =
     (if b = merge P LengthDelimited 1 then
        once tg 1 (field (ld_str P) r (\<lambda>v. (Some v, ex)))
      else if b = merge P LengthDelimited 2 then
        once ex 2 (field (ld_str P) r (\<lambda>v. (tg, Some v)))
      else skip_field P (b # r) (\<lambda>_. (tg, ex)))"

definition decode_tag_filter_ref ::
  "('i, 'a) proto \<Rightarrow> bytes \<Rightarrow> decode_error + nat \<times> tag_filter"
where
  "decode_tag_filter_ref P buf =
     map_res (\<lambda>(off, tg, ex). (off, \<lparr>tf_tag = or_default [] tg,
       tf_expr = (case ex of None \<Rightarrow> None | Some e \<Rightarrow> if e = [] then None else Some e)\<rparr>))
       (decode_loop (tag_filter_step P) 0 buf (None, None))"

definition tag_filter_from_ref :: "('i, 'a) proto \<Rightarrow> tag_filter \<Rightarrow> decode_error + tag_filter" where
  "tag_filter_from_ref P v =
     (case tf_expr v of
        None \<Rightarrow> Inr v
      | Some e \<Rightarrow> if regex_new P e then Inr v else Inl Decode_custom)"

definition encoded_len_tag_filter :: "('i, 'a) proto \<Rightarrow> tag_filter \<Rightarrow> nat" where
  "encoded_len_tag_filter P f =
     1 + ld_len P (length (tf_tag f))
     + (case tf_expr f of
          Some e \<Rightarrow> 1 + length (enc (u32c P) (of_nat (length e))) + length e
        | None \<Rightarrow> 0)"

definition encode_tag_filter ::
  "('i, 'a) proto \<Rightarrow> tag_filter \<Rightarrow> bytes \<Rightarrow> encode_error + bytes \<times> nat"
where
  "encode_tag_filter P f buf =
     run_enc
       (put_byte (merge P LengthDelimited 1) # put_ld_bytes P (str_bytes (tf_tag f)) #
        (case tf_expr f of
           None \<Rightarrow> []
         | Some e \<Rightarrow>
             [put_enc (merge P LengthDelimited 2 # enc (u32c P) (of_nat (length e)) @ str_bytes e)]))
       (buf, 0)"

definition wire_tag_filter :: "('i, 'a) proto \<Rightarrow> tag_filter \<Rightarrow> bytes" where
  "wire_tag_filter P f =
     merge P LengthDelimited 1 # ld_frame P (str_bytes (tf_tag f)) @
     (case tf_expr f of
        None \<Rightarrow> []
      | Some e \<Rightarrow> merge P LengthDelimited 2 # ld_frame P (str_bytes e))"

definition wf_tag_filter :: "('i, 'a) proto \<Rightarrow> tag_filter \<Rightarrow> bool" where
  "wf_tag_filter P f \<longleftrightarrow> str_ok P (tf_tag f) \<and>
     (case tf_expr f of None \<Rightarrow> True | Some e \<Rightarrow> e \<noteq> [] \<and> str_ok P e \<and> regex_new P e)"

datatype filter_ref = FilterRef_Id "bytes option" | FilterRef_Tag tag_filter

fun filter_step ::
  "('i, 'a) proto \<Rightarrow> nat \<Rightarrow> u8 \<Rightarrow> bytes \<Rightarrow> (nat \<times> nat) option \<times> tag_filter option
   \<Rightarrow> decode_error + nat \<times> (nat \<times> nat) option \<times> tag_filter option"
where
  "filter_step P off b r (w, f) =
     (if b = merge P (id_wire P) 1 then
        skip_field P (b # r) (\<lambda>n. (widen w off n, f))
      else if b = merge P LengthDelimited 2 then
        once f 2 (once w 1 (field (ld_dec P (decode_tag_filter_ref P)) r (\<lambda>v. (w, Some v))))
      else skip_field P (b # r) (\<lambda>_. (w, f)))"

definition decode_filter_ref :: "('i, 'a) proto \<Rightarrow> bytes \<Rightarrow> decode_error + nat \<times> filter_ref" where
  "decode_filter_ref P buf =
     map_res (\<lambda>(off, w, f). (off,
         case f of Some tf \<Rightarrow> FilterRef_Tag tf | None \<Rightarrow> FilterRef_Id (window buf w)))
       (decode_loop (filter_step P) 0 buf (None, None))"

fun filter_from_ref :: "('i, 'a) proto \<Rightarrow> filter_ref \<Rightarrow> decode_error + 'i filter_q" where
  "filter_from_ref P (FilterRef_Id w) = map_res Filter_Id (rep_items (rep_id P 1) w)"
| "filter_from_ref P (FilterRef_Tag tf) = map_res Filter_Tag (tag_filter_from_ref P tf)"

fun encoded_len_filter :: "('i, 'a) proto \<Rightarrow> 'i filter_q \<Rightarrow> nat" where
  "encoded_len_filter P (Filter_Id ids) = sum_list (map (\<lambda>i. 1 + length (enc (idc P) i)) ids)"
| "encoded_len_filter P (Filter_Tag tf) = 1 + ld_len P (encoded_len_tag_filter P tf)"

fun encode_filter :: "('i, 'a) proto \<Rightarrow> 'i filter_q \<Rightarrow> bytes \<Rightarrow> encode_error + bytes \<times> nat" where
  "encode_filter P f buf =
     (if length buf < 1 then Inl Insufficient_buffer
      else case f of
        Filter_Id ids \<Rightarrow>
          run_enc (concat (map (\<lambda>i. [put_byte (merge P (id_wire P) 1), put_enc (enc (idc P) i)]) ids))
            (buf, 0)
      | Filter_Tag tf \<Rightarrow>
          run_enc [put_byte (merge P LengthDelimited 2),
            put_ld P (encoded_len_tag_filter P tf) (encode_tag_filter P tf)] (buf, 0))"

fun wire_filter :: "('i, 'a) proto \<Rightarrow> 'i filter_q \<Rightarrow> bytes" where
  "wire_filter P (Filter_Id ids) = concat (map (\<lambda>i. merge P (id_wire P) 1 # enc (idc P) i) ids)"
| "wire_filter P (Filter_Tag tf) = merge P LengthDelimited 2 # ld_frame P (wire_tag_filter P tf)"

fun wf_filter :: "('i, 'a) proto \<Rightarrow> 'i filter_q \<Rightarrow> bool" where
  "wf_filter P (Filter_Id ids) \<longleftrightarrow> ids \<noteq> []"
| "wf_filter P (Filter_Tag tf) \<longleftrightarrow> wf_tag_filter P tf \<and> fits_u32 (wire_tag_filter P tf)"

section \<open>Queries\<close>

record ('i, 'a) query_acc =
  qa_ltime :: "lamport_time option"
  qa_id :: "u32 option"
  qa_from :: "('i, 'a) node option"
  qa_filters :: "(nat \<times> nat) option"
  qa_flags :: "query_flag option"
  qa_relay_factor :: "u8 option"
  qa_timeout :: "nat option"
  qa_name :: "string option"
  qa_payload :: "bytes option"

definition query_acc0 :: "('i, 'a) query_acc" where
  "query_acc0 = \<lparr>qa_ltime = None, qa_id = None, qa_from = None, qa_filters = None, qa_flags = None,
     qa_relay_factor = None, qa_timeout = None, qa_name = None, qa_payload = None\<rparr>"

definition query_step ::
  "('i, 'a) proto \<Rightarrow> nat \<Rightarrow> u8 \<Rightarrow> bytes \<Rightarrow> ('i, 'a) query_acc
   \<Rightarrow> decode_error + nat \<times> ('i, 'a) query_acc"
where
  "query_step P off b r q =
     (if b = merge P Varint 1 then
        once (qa_ltime q) 1 (field (dec (u64c P)) r (\<lambda>v. q\<lparr>qa_ltime := Some v\<rparr>))
      else if b = merge P Varint 2 then
        once (qa_id q) 2 (field (dec (u32c P)) r (\<lambda>v. q\<lparr>qa_id := Some v\<rparr>))
      else if b = merge P LengthDelimited 3 then
        once (qa_from q) 3 (field (ld_dec P (dec (nodec P))) r (\<lambda>v. q\<lparr>qa_from := Some v\<rparr>))
      else if b = merge P LengthDelimited 4 then
        skip_field P (b # r) (\<lambda>n. q\<lparr>qa_filters := widen (qa_filters q) off n\<rparr>)
      else if b = merge P Varint 5 then
        once (qa_flags q) 5 (field (dec (u32c P)) r (\<lambda>v. q\<lparr>qa_flags := Some (flag_truncate v)\<rparr>))
      else if b = merge P Varint 6 then
        once (qa_relay_factor q) 6 (field (dec (u8c P)) r (\<lambda>v. q\<lparr>qa_relay_factor := Some v\<rparr>))
      else if b = merge P Varint 7 then
        once (qa_timeout q) 7 (field (dec (durc P)) r (\<lambda>v. q\<lparr>qa_timeout := Some v\<rparr>))
      else if b = merge P LengthDelimited 8 then
        once (qa_name q) 8 (field (ld_str P) r (\<lambda>v. q\<lparr>qa_name := Some v\<rparr>))
      else if b = merge P LengthDelimited 9 then
        once (qa_payload q) 9 (field (ld_bytes P) r (\<lambda>v. q\<lparr>qa_payload := Some v\<rparr>))
      else skip_field P (b # r) (\<lambda>_. q))"

text \<open>
  The borrowed query: the owned one with the encoded filters in place of the
  decoded ones.
\<close>

definition decode_query_ref ::
  "('i, 'a) proto \<Rightarrow> bytes \<Rightarrow> decode_error + nat \<times> ('i, 'a) query_message \<times> bytes option"
where
  "decode_query_ref P buf =
     bind_res (decode_loop (query_step P) 0 buf query_acc0) (\<lambda>(off, q).
     bind_res (required ''ltime'' (qa_ltime q)) (\<lambda>lt.
     bind_res (required ''id'' (qa_id q)) (\<lambda>i.
     bind_res (required ''from'' (qa_from q)) (\<lambda>fr.
     bind_res (required ''flags'' (qa_flags q)) (\<lambda>fl.
     bind_res (required ''relay_factor'' (qa_relay_factor q)) (\<lambda>rf.
     bind_res (required ''timeout'' (qa_timeout q)) (\<lambda>to.
     Inr (off, \<lparr>qm_ltime = lt, qm_id = i, qm_from = fr, qm_filters = [], qm_flags = fl,
       qm_relay_factor = rf, qm_timeout = to, qm_name = or_default [] (qa_name q),
       qm_payload = or_default [] (qa_payload q)\<rparr>, window buf (qa_filters q)))))))))"

definition decode_filters :: "('i, 'a) proto \<Rightarrow> bytes option \<Rightarrow> decode_error + 'i filter_q list" where
  "decode_filters P w =
     bind_res (rep_items (rep_ld P 4) w)
       (mapM_res (\<lambda>b. bind_res (decode_filter_ref P b) (\<lambda>(n, f). filter_from_ref P f)))"

definition query_from_ref ::
  "('i, 'a) proto \<Rightarrow> ('i, 'a) query_message \<times> bytes option \<Rightarrow> decode_error + ('i, 'a) query_message"
where
  "query_from_ref P v =
     map_res (\<lambda>fs. (fst v)\<lparr>qm_filters := fs\<rparr>) (decode_filters P (snd v))"

definition decode_query ::
  "('i, 'a) proto \<Rightarrow> bytes \<Rightarrow> decode_error + nat \<times> ('i, 'a) query_message"
where
  "decode_query P buf =
     bind_res (decode_query_ref P buf) (\<lambda>(off, v). map_res (Pair off) (query_from_ref P v))"

definition encoded_len_query :: "('i, 'a) proto \<Rightarrow> ('i, 'a) query_message \<Rightarrow> nat" where
  "encoded_len_query P m =
     1 + length (enc (u64c P) (qm_ltime m)) + 1 + length (enc (u32c P) (qm_id m))
     + 1 + ld_len P (length (enc (nodec P) (qm_from m)))
     + sum_list (map (\<lambda>f. 1 + ld_len P (encoded_len_filter P f)) (qm_filters m))
     + 1 + length (enc (u32c P) (qm_flags m)) + 1 + length (enc (u8c P) (qm_relay_factor m))
     + 1 + length (enc (durc P) (qm_timeout m))
     + (if length (qm_name m) \<noteq> 0 then 1 + ld_len P (length (qm_name m)) else 0)
     + (if length (qm_payload m) \<noteq> 0 then 1 + ld_len P (length (qm_payload m)) else 0)"

definition encode_query ::
  "('i, 'a) proto \<Rightarrow> ('i, 'a) query_message \<Rightarrow> bytes \<Rightarrow> encode_error + bytes \<times> nat"
where
  "encode_query P m buf =
     run_enc
       (put_byte (merge P Varint 1) # put_enc (enc (u64c P) (qm_ltime m)) #
        put_byte (merge P Varint 2) # put_enc (enc (u32c P) (qm_id m)) #
        put_byte (merge P LengthDelimited 3) # put_ld_bytes P (enc (nodec P) (qm_from m)) #
        concat (map (\<lambda>f. [put_byte (merge P LengthDelimited 4),
          put_ld P (encoded_len_filter P f) (encode_filter P f)]) (qm_filters m)) @
        put_byte (merge P Varint 5) # put_enc (enc (u32c P) (qm_flags m)) #
        put_byte (merge P Varint 6) # put_byte (qm_relay_factor m) #
        put_byte (merge P Varint 7) # put_enc (enc (durc P) (qm_timeout m)) #
        (if qm_name m \<noteq> []
         then [put_byte (merge P LengthDelimited 8), put_ld_bytes P (str_bytes (qm_name m))]
         else []) @
        (if qm_payload m \<noteq> []
         then [put_byte (merge P LengthDelimited 9), put_ld_bytes P (qm_payload m)]
         else []))
       (buf, 0)"

definition wire_query :: "('i, 'a) proto \<Rightarrow> ('i, 'a) query_message \<Rightarrow> bytes" where
  "wire_query P m =
     merge P Varint 1 # enc (u64c P) (qm_ltime m) @
     merge P Varint 2 # enc (u32c P) (qm_id m) @
     merge P LengthDelimited 3 # ld_frame P (enc (nodec P) (qm_from m)) @
     concat (map (\<lambda>f. merge P LengthDelimited 4 # ld_frame P (wire_filter P f)) (qm_filters m)) @
     merge P Varint 5 # enc (u32c P) (qm_flags m) @
     merge P Varint 6 # qm_relay_factor m #
     merge P Varint 7 # enc (durc P) (qm_timeout m) @
     (if qm_name m \<noteq> [] then merge P LengthDelimited 8 # ld_frame P (str_bytes (qm_name m)) else []) @
     (if qm_payload m \<noteq> [] then merge P LengthDelimited 9 # ld_frame P (qm_payload m) else [])"

text \<open>
  Well-formed: values the format can carry. Only the two defined flags survive
  \<open>from_bits_truncate\<close>; an empty identifier filter writes nothing.
\<close>

definition wf_query :: "('i, 'a) proto \<Rightarrow> ('i, 'a) query_message \<Rightarrow> bool" where
  "wf_query P m \<longleftrightarrow>
     fits_u32 (enc (nodec P) (qm_from m)) \<and> fits_u32 (qm_payload m) \<and> str_ok P (qm_name m) \<and>
     dur_ok (qm_timeout m) \<and> flag_truncate (qm_flags m) = qm_flags m \<and>
     length (enc (u8c P) (qm_relay_factor m)) = 1 \<and>
     list_all (\<lambda>f. wf_filter P f \<and> fits_u32 (wire_filter P f)) (qm_filters m)"

section \<open>What the encoders write\<close>

interpretation tags_codec: encodable "wf_tags P" "wire_tags P" "encode_tags P"
  "encoded_len_tags P" for P :: "('i, 'a) proto"
  by (rule encodableI [OF _ encode_tags_def], unfold wire_tags_def, intro emit_intros)
    (auto simp: encoded_len_tags_def wf_tags_def list_all_iff length_concat length_ld_frame comp_def)

interpretation tag_filter_codec: encodable "wf_tag_filter P" "wire_tag_filter P"
  "encode_tag_filter P" "encoded_len_tag_filter P" for P :: "('i, 'a) proto"
proof (rule encodableI [OF _ encode_tag_filter_def])
  fix m :: tag_filter
  assume wf: "wf_tag_filter P m"
  show "emits True (put_byte (merge P LengthDelimited 1) # put_ld_bytes P (str_bytes (tf_tag m)) #
        (case tf_expr m of None \<Rightarrow> []
         | Some e \<Rightarrow> [put_enc (merge P LengthDelimited 2 # enc (u32c P) (of_nat (length e)) @ str_bytes e)]))
      (wire_tag_filter P m)"
    using wf emits_put_enc_last [of True] unfolding wire_tag_filter_def
    by (intro emit_intros) (auto simp: wf_tag_filter_def wire_simps ld_frame_def)
  show "encoded_len_tag_filter P m = length (wire_tag_filter P m)"
    by (simp add: encoded_len_tag_filter_def wire_tag_filter_def length_ld_frame ld_len_def
        split: option.splits)
qed

interpretation filter_codec: encodable "wf_filter P" "wire_filter P" "encode_filter P"
  "encoded_len_filter P" for P :: "('i, 'a) proto"
proof (rule encodableI)
  fix m :: "'i filter_q" and buf :: bytes
  define ops where "ops f = (case f of
        Filter_Id ids \<Rightarrow> concat (map (\<lambda>i. [put_byte (merge P (id_wire P) 1), put_enc (enc (idc P) i)]) ids)
      | Filter_Tag tf \<Rightarrow> [put_byte (merge P LengthDelimited 2),
            put_ld P (encoded_len_tag_filter P tf) (encode_tag_filter P tf)])" for f :: "'i filter_q"
  assume wf: "wf_filter P m"
  show "emits True (ops m) (wire_filter P m)"
    using wf by (cases m)
      (auto simp: ops_def intro!: emit_intros emits_last tag_filter_codec.put_ld_writes_full)
  show "encode_filter P m buf = run_enc (ops m) (buf, 0)"
    using wf by (cases m; cases buf) (auto simp: ops_def neq_Nil_conv)
  show "encoded_len_filter P m = length (wire_filter P m)"
    using wf by (cases m)
      (auto simp: length_concat comp_def length_ld_frame tag_filter_codec.encoded_len_wire)
qed

interpretation query_codec: encodable "wf_query P" "wire_query P" "encode_query P"
  "encoded_len_query P" for P :: "('i, 'a) proto"
  by (rule encodableI [OF _ encode_query_def], unfold wire_query_def,
      intro emit_intros emits_last filter_codec.put_ld_writes_full)
    (auto simp: wf_query_def encoded_len_query_def list_all_iff wire_simps length_ld_frame
      length_concat comp_def filter_codec.encoded_len_wire intro!: arg_cong [of _ _ sum_list])

section \<open>Reading back what was written\<close>

lemma collect_map_distinct:
  "distinct (map fst kvs) \<Longrightarrow> collect_map kvs = kvs"
proof -
  have "fold (\<lambda>(k, v) m. AList.update k v m) kvs m = m @ kvs"
    if "distinct (map fst (m @ kvs))" for m
    using that
  proof (induction kvs arbitrary: m)
    case (Cons kv kvs)
    then have "AList.update (fst kv) (snd kv) m = m @ [kv]"
      by (induction m) auto
    with Cons.IH [of "m @ [kv]"] Cons.prems show ?case by (simp add: case_prod_unfold)
  qed simp
  from this [of "[]"] show "distinct (map fst kvs) \<Longrightarrow> collect_map kvs = kvs"
    by (simp add: collect_map_def)
qed

lemma decode_tags_ref_wire:
  assumes "proto_ok P" "wf_tags P ts"
  shows "decode_tags_ref P (wire_tags P ts) =
    Inr (length (wire_tags P ts), if ts = [] then None else Some (wire_tags P ts))"
proof -
  have "decode_loop (tags_step P) 0 (wire_tags P ts @ []) None
    = decode_loop (tags_step P) (0 + length (wire_tags P ts)) []
        (span 0 (map (\<lambda>kv. merge P LengthDelimited 1 # ld_frame P (enc (tagc P) kv)) ts))"
    unfolding wire_tags_def
    by (rule decode_loop_fields [where put = "\<lambda>w. w"])
      (use assms in \<open>auto simp: wf_tags_def list_all_iff skip_field_def wire_simps\<close>)
  moreover have "window (wire_tags P ts)
      (span 0 (map (\<lambda>kv. merge P LengthDelimited 1 # ld_frame P (enc (tagc P) kv)) ts))
    = (if ts = [] then None else Some (wire_tags P ts))"
    using window_span [of "[]" 0 _ ts "[]"] by (simp add: wire_tags_def)
  ultimately show ?thesis by (simp add: decode_tags_ref_def)
qed

lemma tags_from_ref_wire:
  assumes "proto_ok P" "wf_tags P ts"
  shows "tags_from_ref P (if ts = [] then None else Some (wire_tags P ts)) = Inr ts"
proof -
  have "rep_items (rep_ld P 1) (if ts = [] then None else Some (wire_tags P ts))
      = Inr (map (enc (tagc P)) ts)"
    unfolding wire_tags_def
    by (rule rep_ld_items) (use assms in \<open>auto simp: wf_tags_def list_all_iff\<close>)
  moreover have "mapM_res (\<lambda>b. map_res snd (dec (tagc P) b)) (map (enc (tagc P)) ts) = Inr ts"
    unfolding mapM_res_map
  proof (rule mapM_res_id)
    fix kv assume "kv \<in> set ts"
    with assms have "body_codec (\<lambda>(k, v). str_ok P k \<and> str_ok P v) (tagc P)"
      "(\<lambda>(k, v). str_ok P k \<and> str_ok P v) kv"
      by (auto simp: proto_ok_def wf_tags_def list_all_iff)
    then show "map_res snd (dec (tagc P) (enc (tagc P) kv)) = Inr kv"
      by (rule body_codec_snd)
  qed
  ultimately show ?thesis
    using assms(2) by (simp add: tags_from_ref_def collect_map_distinct wf_tags_def)
qed

lemma decode_tags_wire:
  "proto_ok P \<Longrightarrow> wf_tags P ts \<Longrightarrow> decode_tags P (wire_tags P ts) = Inr (length (wire_tags P ts), ts)"
  by (simp add: decode_tags_def decode_tags_ref_wire tags_from_ref_wire del: if_split)

lemma decode_tag_filter_wire:
  "proto_ok P \<Longrightarrow> wf_tag_filter P f \<Longrightarrow>
     decode_tag_filter_ref P (wire_tag_filter P f) = Inr (length (wire_tag_filter P f), f)
     \<and> tag_filter_from_ref P f = Inr f"
  by (cases "tf_expr f")
    (simp_all add: decode_tag_filter_ref_def tag_filter_from_ref_def wire_tag_filter_def
      wf_tag_filter_def or_default_def wire_simps)

lemma decode_filter_wire:
  assumes "proto_ok P" "wf_filter P f"
  shows "bind_res (decode_filter_ref P (wire_filter P f)) (\<lambda>(n, v). filter_from_ref P v) = Inr f"
proof (cases f)
  case (Filter_Id ids)
  let ?fs = "map (\<lambda>i. merge P (id_wire P) 1 # enc (idc P) i) ids"
  have "decode_loop (filter_step P) 0 (concat ?fs @ []) (None, None)
    = decode_loop (filter_step P) (0 + length (concat ?fs)) [] (span 0 ?fs, None)"
    by (rule decode_loop_fields [where put = "\<lambda>w. (w, None)"])
      (use assms in \<open>simp add: skip_field_def wire_simps\<close>)
  moreover have "window (concat ?fs) (span 0 ?fs) = (if ids = [] then None else Some (concat ?fs))"
    using window_span [of "[]" 0 _ ids "[]"] by simp
  ultimately show ?thesis
    using rep_id_items [of P 1 ids] assms(1)
    by (simp add: Filter_Id decode_filter_ref_def del: if_split)
next
  case (Filter_Tag tf)
  then show ?thesis
    using assms decode_tag_filter_wire [of P tf]
    by (simp add: decode_filter_ref_def wire_simps)
qed

lemma decode_filters_wire:
  assumes "proto_ok P" "list_all (\<lambda>f. wf_filter P f \<and> fits_u32 (wire_filter P f)) fl"
  shows "decode_filters P
    (if fl = [] then None
     else Some (concat (map (\<lambda>f. merge P LengthDelimited 4 # ld_frame P (wire_filter P f)) fl))) = Inr fl"
proof -
  have "rep_items (rep_ld P 4) (if fl = [] then None
      else Some (concat (map (\<lambda>f. merge P LengthDelimited 4 # ld_frame P (wire_filter P f)) fl)))
    = Inr (map (wire_filter P) fl)"
    by (rule rep_ld_items) (use assms in \<open>auto simp: list_all_iff\<close>)
  moreover have "mapM_res (\<lambda>b. bind_res (decode_filter_ref P b) (\<lambda>(n, f). filter_from_ref P f))
      (map (wire_filter P) fl) = Inr fl"
    unfolding mapM_res_map
    by (rule mapM_res_id) (use assms in \<open>auto simp: list_all_iff decode_filter_wire\<close>)
  ultimately show ?thesis by (simp add: decode_filters_def comp_def del: if_split)
qed

lemma decode_query_wire:
  assumes "proto_ok P" "wf_query P m"
  shows "decode_query P (wire_query P m) = Inr (length (wire_query P m), m)"
proof -
  let ?fs = "map (\<lambda>f. merge P LengthDelimited 4 # ld_frame P (wire_filter P f)) (qm_filters m)"
  define pre where "pre = merge P Varint 1 # enc (u64c P) (qm_ltime m) @
     merge P Varint 2 # enc (u32c P) (qm_id m) @
     merge P LengthDelimited 3 # ld_frame P (enc (nodec P) (qm_from m))"
  define post where "post = merge P Varint 5 # enc (u32c P) (qm_flags m) @
     merge P Varint 6 # qm_relay_factor m # merge P Varint 7 # enc (durc P) (qm_timeout m) @
     (if qm_name m \<noteq> [] then merge P LengthDelimited 8 # ld_frame P (str_bytes (qm_name m)) else []) @
     (if qm_payload m \<noteq> [] then merge P LengthDelimited 9 # ld_frame P (qm_payload m) else [])"
  define acc :: "('a, 'b) query_acc" where "acc = query_acc0\<lparr>qa_ltime := Some (qm_ltime m),
    qa_id := Some (qm_id m), qa_from := Some (qm_from m)\<rparr>"
  have wire: "wire_query P m = pre @ concat ?fs @ post"
    by (simp add: wire_query_def pre_def post_def)
  have 1: "decode_loop (query_step P) 0 (pre @ concat ?fs @ post) query_acc0
    = decode_loop (query_step P) (length pre) (concat ?fs @ post) acc"
    using assms
    by (simp add: pre_def acc_def wf_query_def query_step_def query_acc0_def wire_simps add.assoc)
  have acc: "acc = acc\<lparr>qa_filters := None\<rparr>" by (simp add: acc_def query_acc0_def)
  have 2: "decode_loop (query_step P) (length pre) (concat ?fs @ post) (acc\<lparr>qa_filters := None\<rparr>)
    = decode_loop (query_step P) (length pre + length (concat ?fs)) post
        (acc\<lparr>qa_filters := span (length pre) ?fs\<rparr>)"
    by (rule decode_loop_fields [where put = "\<lambda>w. acc\<lparr>qa_filters := w\<rparr>"])
      (use assms in \<open>simp add: wf_query_def query_step_def list_all_iff skip_field_def wire_simps\<close>)
  have 3: "decode_loop (query_step P) k post (acc\<lparr>qa_filters := w\<rparr>)
    = Inr (k + length post, acc\<lparr>qa_filters := w, qa_flags := Some (qm_flags m),
        qa_relay_factor := Some (qm_relay_factor m), qa_timeout := Some (qm_timeout m),
        qa_name := (if qm_name m = [] then None else Some (qm_name m)),
        qa_payload := (if qm_payload m = [] then None else Some (qm_payload m))\<rparr>)" for k w
    using assms
    by (cases "qm_name m = []"; cases "qm_payload m = []")
      (simp_all add: post_def acc_def wf_query_def query_step_def query_acc0_def wire_simps)
  have "decode_query_ref P (wire_query P m)
    = Inr (length (wire_query P m), m\<lparr>qm_filters := []\<rparr>,
        if qm_filters m = [] then None else Some (concat ?fs))"
    using window_span [of pre "length pre" _ "qm_filters m" post] 1 2 3 acc
    by (simp add: decode_query_ref_def wire acc_def query_acc0_def or_default_def)
  then show ?thesis
    using decode_filters_wire [OF assms(1), of "qm_filters m"] assms(2)
    by (simp add: decode_query_def query_from_ref_def wf_query_def del: if_split)
qed

end
