(* ===== verification/Wire_Members.thy ===== *)
theory Wire_Members
  imports Wire_Query
begin

text \<open>
  The encodings of members and conflict responses (\<open>types/member.rs\<close>,
  \<open>types/conflict.rs\<close>), of key requests and responses (\<open>types/key.rs\<close>) and of
  the push/pull state (\<open>types/push_pull.rs\<close>).
\<close>

section \<open>Members and conflict responses\<close>

text \<open>
  \<open>decode\<close> indexes the buffer for the one-byte fields without looking at its
  length first.
\<close>

fun byte_field :: "bytes \<Rightarrow> (u8 \<Rightarrow> 's) \<Rightarrow> decode_error + nat \<times> 's" where
  "byte_field [] k = Inl Decode_panic"
| "byte_field (b # r) k = Inr (2, k b)"

record ('i, 'a) member_acc =
  ma_node :: "('i, 'a) node option"
  ma_tags :: "bytes option option"
  ma_status :: "member_status option"
  ma_ml_protocol_version :: "u8 option"
  ma_ml_delegate_version :: "u8 option"
  ma_protocol_version :: "protocol_version option"
  ma_delegate_version :: "delegate_version option"

definition member_acc0 :: "('i, 'a) member_acc" where
  "member_acc0 = \<lparr>ma_node = None, ma_tags = None, ma_status = None, ma_ml_protocol_version = None,
     ma_ml_delegate_version = None, ma_protocol_version = None, ma_delegate_version = None\<rparr>"

definition member_step ::
  "('i, 'a) proto \<Rightarrow> nat \<Rightarrow> u8 \<Rightarrow> bytes \<Rightarrow> ('i, 'a) member_acc
   \<Rightarrow> decode_error + nat \<times> ('i, 'a) member_acc"
where
  "member_step P off b r m =
     (if b = merge P LengthDelimited 1 then
        once (ma_node m) 1 (field (ld_dec P (dec (nodec P))) r (\<lambda>v. m\<lparr>ma_node := Some v\<rparr>))
      else if b = merge P LengthDelimited 2 then
        once (ma_tags m) 2 (field (ld_dec P (decode_tags_ref P)) r (\<lambda>v. m\<lparr>ma_tags := Some v\<rparr>))
      else if b = merge P Byte 3 then
        once (ma_status m) 3 (byte_field r (\<lambda>v. m\<lparr>ma_status := Some (member_status_of_u8 v)\<rparr>))
      else if b = merge P Byte 4 then
        once (ma_ml_protocol_version m) 4
          (byte_field r (\<lambda>v. m\<lparr>ma_ml_protocol_version := Some v\<rparr>))
      else if b = merge P Byte 5 then
        once (ma_ml_delegate_version m) 5
          (byte_field r (\<lambda>v. m\<lparr>ma_ml_delegate_version := Some v\<rparr>))
      else if b = merge P Byte 6 then
        once (ma_protocol_version m) 6
          (byte_field r (\<lambda>v. m\<lparr>ma_protocol_version := Some (protocol_version_of_u8 v)\<rparr>))
      else if b = merge P Byte 7 then
        once (ma_delegate_version m) 7
          (byte_field r (\<lambda>v. m\<lparr>ma_delegate_version := Some (delegate_version_of_u8 v)\<rparr>))
      else skip_field P (b # r) (\<lambda>_. m))"

text \<open>The borrowed member: the owned one with its encoded tags beside it.\<close>

definition decode_member_ref ::
  "('i, 'a) proto \<Rightarrow> bytes \<Rightarrow> decode_error + nat \<times> ('i, 'a) member \<times> bytes option"
where
  "decode_member_ref P buf =
     bind_res (decode_loop (member_step P) 0 buf member_acc0) (\<lambda>(off, m).
     bind_res (required ''node'' (ma_node m)) (\<lambda>nd.
     bind_res (required ''tags'' (ma_tags m)) (\<lambda>tg.
     bind_res (required ''status'' (ma_status m)) (\<lambda>st.
     bind_res (required ''memberlist_protocol_version'' (ma_ml_protocol_version m)) (\<lambda>mp.
     bind_res (required ''memberlist_delegate_version'' (ma_ml_delegate_version m)) (\<lambda>md.
     bind_res (required ''protocol_version'' (ma_protocol_version m)) (\<lambda>pv.
     bind_res (required ''delegate_version'' (ma_delegate_version m)) (\<lambda>dv.
     Inr (off, \<lparr>m_node = nd, m_tags = [], m_status = st, m_ml_protocol_version = mp,
       m_ml_delegate_version = md, m_protocol_version = pv, m_delegate_version = dv\<rparr>, tg)))))))))"

definition member_from_ref ::
  "('i, 'a) proto \<Rightarrow> ('i, 'a) member \<times> bytes option \<Rightarrow> decode_error + ('i, 'a) member"
where
  "member_from_ref P v = map_res (\<lambda>ts. (fst v)\<lparr>m_tags := ts\<rparr>) (tags_from_ref P (snd v))"

definition decode_member :: "('i, 'a) proto \<Rightarrow> bytes \<Rightarrow> decode_error + nat \<times> ('i, 'a) member" where
  "decode_member P buf =
     bind_res (decode_member_ref P buf) (\<lambda>(off, v). map_res (Pair off) (member_from_ref P v))"

definition encoded_len_member :: "('i, 'a) proto \<Rightarrow> ('i, 'a) member \<Rightarrow> nat" where
  "encoded_len_member P m =
     1 + ld_len P (length (enc (nodec P) (m_node m))) + 1 + ld_len P (encoded_len_tags P (m_tags m))
     + (1 + 1) + (1 + 1) + (1 + 1) + (1 + 1) + (1 + 1)"

text \<open>Every byte but the last is stored behind a check.\<close>

definition encode_member ::
  "('i, 'a) proto \<Rightarrow> ('i, 'a) member \<Rightarrow> bytes \<Rightarrow> encode_error + bytes \<times> nat"
where
  "encode_member P m buf =
     run_enc
       [put_byte (merge P LengthDelimited 1), put_ld_bytes P (enc (nodec P) (m_node m)),
        put_byte (merge P LengthDelimited 2),
        put_ld P (encoded_len_tags P (m_tags m)) (encode_tags P (m_tags m)),
        put_byte (merge P Byte 3), put_byte (u8_of_member_status (m_status m)),
        put_byte (merge P Byte 4), put_byte (m_ml_protocol_version m),
        put_byte (merge P Byte 5), put_byte (m_ml_delegate_version m),
        put_byte (merge P Byte 6), put_byte (u8_of_protocol_version (m_protocol_version m)),
        put_byte (merge P Byte 7),
        put_byte_unchecked (u8_of_delegate_version (m_delegate_version m))]
       (buf, 0)"

definition wire_member :: "('i, 'a) proto \<Rightarrow> ('i, 'a) member \<Rightarrow> bytes" where
  "wire_member P m =
     merge P LengthDelimited 1 # ld_frame P (enc (nodec P) (m_node m)) @
     merge P LengthDelimited 2 # ld_frame P (wire_tags P (m_tags m)) @
     [merge P Byte 3, u8_of_member_status (m_status m),
      merge P Byte 4, m_ml_protocol_version m,
      merge P Byte 5, m_ml_delegate_version m,
      merge P Byte 6, u8_of_protocol_version (m_protocol_version m),
      merge P Byte 7, u8_of_delegate_version (m_delegate_version m)]"

definition wf_member :: "('i, 'a) proto \<Rightarrow> ('i, 'a) member \<Rightarrow> bool" where
  "wf_member P m \<longleftrightarrow>
     fits_u32 (enc (nodec P) (m_node m)) \<and> wf_tags P (m_tags m) \<and>
     fits_u32 (wire_tags P (m_tags m)) \<and> canonical_status (m_status m) \<and>
     canonical_protocol_version (m_protocol_version m) \<and>
     canonical_delegate_version (m_delegate_version m)"

fun conflict_step ::
  "('i, 'a) proto \<Rightarrow> nat \<Rightarrow> u8 \<Rightarrow> bytes \<Rightarrow> (('i, 'a) member \<times> bytes option) option
   \<Rightarrow> decode_error + nat \<times> (('i, 'a) member \<times> bytes option) option"
where
  "conflict_step P off b r m =
     (if b = merge P LengthDelimited 1 then
        once m 1 (field (ld_dec P (decode_member_ref P)) r (\<lambda>v. Some v))
      else skip_field P (b # r) (\<lambda>_. m))"

definition decode_conflict_ref ::
  "('i, 'a) proto \<Rightarrow> bytes \<Rightarrow> decode_error + nat \<times> ('i, 'a) member \<times> bytes option"
where
  "decode_conflict_ref P buf =
     bind_res (decode_loop (conflict_step P) 0 buf None) (\<lambda>(off, m).
     map_res (Pair off) (required ''member'' m))"

definition decode_conflict :: "('i, 'a) proto \<Rightarrow> bytes \<Rightarrow> decode_error + nat \<times> ('i, 'a) member" where
  "decode_conflict P buf =
     bind_res (decode_conflict_ref P buf) (\<lambda>(off, v). map_res (Pair off) (member_from_ref P v))"

definition encoded_len_conflict :: "('i, 'a) proto \<Rightarrow> ('i, 'a) member \<Rightarrow> nat" where
  "encoded_len_conflict P m = 1 + ld_len P (encoded_len_member P m)"

definition encode_conflict ::
  "('i, 'a) proto \<Rightarrow> ('i, 'a) member \<Rightarrow> bytes \<Rightarrow> encode_error + bytes \<times> nat"
where
  "encode_conflict P m buf =
     run_enc [put_byte (merge P LengthDelimited 1),
       put_ld P (encoded_len_member P m) (encode_member P m)] (buf, 0)"

definition wire_conflict :: "('i, 'a) proto \<Rightarrow> ('i, 'a) member \<Rightarrow> bytes" where
  "wire_conflict P m = merge P LengthDelimited 1 # ld_frame P (wire_member P m)"

definition wf_conflict :: "('i, 'a) proto \<Rightarrow> ('i, 'a) member \<Rightarrow> bool" where
  "wf_conflict P m \<longleftrightarrow> wf_member P m \<and> fits_u32 (wire_member P m)"

section \<open>Key requests and responses\<close>

fun key_request_step ::
  "('i, 'a) proto \<Rightarrow> nat \<Rightarrow> u8 \<Rightarrow> bytes \<Rightarrow> secret_key option
   \<Rightarrow> decode_error + nat \<times> secret_key option"
where
  "key_request_step P off b r k =
     (if b = merge P LengthDelimited 1 then
        field (ld_dec P (dec (keyc P))) r (\<lambda>v. Some v)
      else skip_field P (b # r) (\<lambda>_. k))"

definition decode_key_request ::
  "('i, 'a) proto \<Rightarrow> bytes \<Rightarrow> decode_error + nat \<times> secret_key option"
where
  "decode_key_request P buf = decode_loop (key_request_step P) 0 buf None"

definition encoded_len_key_request :: "('i, 'a) proto \<Rightarrow> secret_key option \<Rightarrow> nat" where
  "encoded_len_key_request P k =
     (case k of None \<Rightarrow> 0 | Some key \<Rightarrow> 1 + ld_len P (length (enc (keyc P) key)))"

definition encode_key_request ::
  "('i, 'a) proto \<Rightarrow> secret_key option \<Rightarrow> bytes \<Rightarrow> encode_error + bytes \<times> nat"
where
  "encode_key_request P k buf =
     run_enc (case k of
         None \<Rightarrow> []
       | Some key \<Rightarrow> [put_byte (merge P LengthDelimited 1), put_ld_bytes P (enc (keyc P) key)])
       (buf, 0)"

definition wire_key_request :: "('i, 'a) proto \<Rightarrow> secret_key option \<Rightarrow> bytes" where
  "wire_key_request P k =
     (case k of None \<Rightarrow> [] | Some key \<Rightarrow> merge P LengthDelimited 1 # ld_frame P (enc (keyc P) key))"

definition wf_key_request :: "('i, 'a) proto \<Rightarrow> secret_key option \<Rightarrow> bool" where
  "wf_key_request P k \<longleftrightarrow> (case k of None \<Rightarrow> True | Some key \<Rightarrow> fits_u32 (enc (keyc P) key))"

fun key_response_step ::
  "('i, 'a) proto \<Rightarrow> nat \<Rightarrow> u8 \<Rightarrow> bytes
   \<Rightarrow> bool option \<times> string option \<times> (nat \<times> nat) option \<times> secret_key option
   \<Rightarrow> decode_error + nat \<times> bool option \<times> string option \<times> (nat \<times> nat) option \<times> secret_key option"
where
  "key_response_step P off b r (rs, ms, w, pk) =
     (if b = merge P Byte 1 then
        once rs 1 (case r of [] \<Rightarrow> Inl Buffer_underflow | v # _ \<Rightarrow> Inr (2, Some (v \<noteq> 0), ms, w, pk))
      else if b = merge P LengthDelimited 2 then
        once ms 2 (field (ld_str P) r (\<lambda>v. (rs, Some v, w, pk)))
      else if b = merge P LengthDelimited 3 then
        skip_field P (b # r) (\<lambda>n. (rs, ms, widen w off n, pk))
      else if b = merge P LengthDelimited 4 then
        once pk 4 (field (ld_dec P (dec (keyc P))) r (\<lambda>v. (rs, ms, w, Some v)))
      else skip_field P (b # r) (\<lambda>_. (rs, ms, w, pk)))"

definition decode_key_response_ref ::
  "('i, 'a) proto \<Rightarrow> bytes \<Rightarrow> decode_error + nat \<times> key_response_message \<times> bytes option"
where
  "decode_key_response_ref P buf =
     map_res (\<lambda>(off, rs, ms, w, pk). (off, \<lparr>kr_result = or_default False rs,
         kr_message = or_default [] ms, kr_keys = [], kr_primary_key = pk\<rparr>, window buf w))
       (decode_loop (key_response_step P) 0 buf (None, None, None, None))"

definition key_response_from_ref ::
  "('i, 'a) proto \<Rightarrow> key_response_message \<times> bytes option \<Rightarrow> decode_error + key_response_message"
where
  "key_response_from_ref P v =
     bind_res (rep_items (rep_ld P 3) (snd v)) (\<lambda>bs.
     map_res (\<lambda>ks. (fst v)\<lparr>kr_keys := ks\<rparr>) (mapM_res (\<lambda>b. map_res snd (dec (keyc P) b)) bs))"

definition decode_key_response ::
  "('i, 'a) proto \<Rightarrow> bytes \<Rightarrow> decode_error + nat \<times> key_response_message"
where
  "decode_key_response P buf =
     bind_res (decode_key_response_ref P buf) (\<lambda>(off, v).
     map_res (Pair off) (key_response_from_ref P v))"

definition encoded_len_key_response :: "('i, 'a) proto \<Rightarrow> key_response_message \<Rightarrow> nat" where
  "encoded_len_key_response P m =
     (if kr_result m then 1 + 1 else 0)
     + (if kr_message m \<noteq> [] then 1 + ld_len P (length (kr_message m)) else 0)
     + sum_list (map (\<lambda>k. 1 + ld_len P (length (enc (keyc P) k))) (kr_keys m))
     + (case kr_primary_key m of None \<Rightarrow> 0 | Some k \<Rightarrow> 1 + ld_len P (length (enc (keyc P) k)))"

definition encode_key_response ::
  "('i, 'a) proto \<Rightarrow> key_response_message \<Rightarrow> bytes \<Rightarrow> encode_error + bytes \<times> nat"
where
  "encode_key_response P m buf =
     run_enc
       ((if kr_result m then [put_byte (merge P Byte 1), put_byte 1] else []) @
        (if kr_message m \<noteq> []
         then [put_byte (merge P LengthDelimited 2), put_ld_bytes P (str_bytes (kr_message m))]
         else []) @
        concat (map (\<lambda>k. [put_byte (merge P LengthDelimited 3), put_ld_bytes P (enc (keyc P) k)])
          (kr_keys m)) @
        (case kr_primary_key m of
           None \<Rightarrow> []
         | Some k \<Rightarrow> [put_byte (merge P LengthDelimited 4), put_ld_bytes P (enc (keyc P) k)]))
       (buf, 0)"

definition wire_key_response :: "('i, 'a) proto \<Rightarrow> key_response_message \<Rightarrow> bytes" where
  "wire_key_response P m =
     (if kr_result m then [merge P Byte 1, 1] else []) @
     (if kr_message m \<noteq> [] then merge P LengthDelimited 2 # ld_frame P (str_bytes (kr_message m)) else []) @
     concat (map (\<lambda>k. merge P LengthDelimited 3 # ld_frame P (enc (keyc P) k)) (kr_keys m)) @
     (case kr_primary_key m of
        None \<Rightarrow> []
      | Some k \<Rightarrow> merge P LengthDelimited 4 # ld_frame P (enc (keyc P) k))"

definition wf_key_response :: "('i, 'a) proto \<Rightarrow> key_response_message \<Rightarrow> bool" where
  "wf_key_response P m \<longleftrightarrow> str_ok P (kr_message m) \<and>
     list_all (\<lambda>k. fits_u32 (enc (keyc P) k)) (kr_keys m) \<and>
     (case kr_primary_key m of None \<Rightarrow> True | Some k \<Rightarrow> fits_u32 (enc (keyc P) k))"

section \<open>Push/pull\<close>

record push_pull_acc =
  pa_ltime :: "lamport_time option"
  pa_status_ltimes :: "(nat \<times> nat) option"
  pa_left_members :: "(nat \<times> nat) option"
  pa_event_ltime :: "lamport_time option"
  pa_events :: "(nat \<times> nat) option"
  pa_query_ltime :: "lamport_time option"

definition push_pull_acc0 :: push_pull_acc where
  "push_pull_acc0 = \<lparr>pa_ltime = None, pa_status_ltimes = None, pa_left_members = None,
     pa_event_ltime = None, pa_events = None, pa_query_ltime = None\<rparr>"

definition push_pull_step ::
  "('i, 'a) proto \<Rightarrow> nat \<Rightarrow> u8 \<Rightarrow> bytes \<Rightarrow> push_pull_acc \<Rightarrow> decode_error + nat \<times> push_pull_acc"
where
  "push_pull_step P off b r p =
     (if b = merge P Varint 1 then
        once (pa_ltime p) 1 (field (dec (u64c P)) r (\<lambda>v. p\<lparr>pa_ltime := Some v\<rparr>))
      else if b = merge P LengthDelimited 2 then
        skip_field P (b # r) (\<lambda>n. p\<lparr>pa_status_ltimes := widen (pa_status_ltimes p) off n\<rparr>)
      else if b = merge P (id_wire P) 3 then
        skip_field P (b # r) (\<lambda>n. p\<lparr>pa_left_members := widen (pa_left_members p) off n\<rparr>)
      else if b = merge P Varint 4 then
        once (pa_event_ltime p) 4 (field (dec (u64c P)) r (\<lambda>v. p\<lparr>pa_event_ltime := Some v\<rparr>))
      else if b = merge P LengthDelimited 5 then
        skip_field P (b # r) (\<lambda>n. p\<lparr>pa_events := widen (pa_events p) off n\<rparr>)
      else if b = merge P Varint 6 then
        once (pa_query_ltime p) 6 (field (dec (u64c P)) r (\<lambda>v. p\<lparr>pa_query_ltime := Some v\<rparr>))
      else skip_field P (b # r) (\<lambda>_. p))"

record push_pull_ref =
  ppr_ltime :: lamport_time
  ppr_status_ltimes :: "bytes option"
  ppr_left_members :: "bytes option"
  ppr_event_ltime :: lamport_time
  ppr_events :: "bytes option"
  ppr_query_ltime :: lamport_time

definition decode_push_pull_ref ::
  "('i, 'a) proto \<Rightarrow> bytes \<Rightarrow> decode_error + nat \<times> push_pull_ref"
where
  "decode_push_pull_ref P buf =
     bind_res (decode_loop (push_pull_step P) 0 buf push_pull_acc0) (\<lambda>(off, p).
     bind_res (required ''ltime'' (pa_ltime p)) (\<lambda>lt.
     bind_res (required ''event_ltime'' (pa_event_ltime p)) (\<lambda>el.
     bind_res (required ''query_ltime'' (pa_query_ltime p)) (\<lambda>ql.
     Inr (off, \<lparr>ppr_ltime = lt, ppr_status_ltimes = window buf (pa_status_ltimes p),
       ppr_left_members = window buf (pa_left_members p), ppr_event_ltime = el,
       ppr_events = window buf (pa_events p), ppr_query_ltime = ql\<rparr>)))))"

text \<open>Collecting into an \<open>IndexSet\<close>: a repeated element keeps its first place.\<close>

definition collect_set :: "'k list \<Rightarrow> 'k list" where
  "collect_set ks = fold (\<lambda>k s. if k \<in> set s then s else s @ [k]) ks []"

definition push_pull_from_ref ::
  "('i, 'a) proto \<Rightarrow> push_pull_ref \<Rightarrow> decode_error + 'i push_pull_message"
where
  "push_pull_from_ref P v =
     bind_res (bind_res (rep_items (rep_ld P 2) (ppr_status_ltimes v))
       (mapM_res (\<lambda>b. map_res snd (dec (statusc P) b)))) (\<lambda>sl.
     bind_res (rep_items (rep_id P 3) (ppr_left_members v)) (\<lambda>lm.
     bind_res (bind_res (rep_items (rep_ld P 5) (ppr_events v))
       (mapM_res (\<lambda>b. map_res snd (decode_user_events P b)))) (\<lambda>es.
     Inr \<lparr>pp_ltime = ppr_ltime v, pp_status_ltimes = collect_map sl, pp_left_members = collect_set lm,
       pp_event_ltime = ppr_event_ltime v, pp_events = es, pp_query_ltime = ppr_query_ltime v\<rparr>)))"

definition decode_push_pull ::
  "('i, 'a) proto \<Rightarrow> bytes \<Rightarrow> decode_error + nat \<times> 'i push_pull_message"
where
  "decode_push_pull P buf =
     bind_res (decode_push_pull_ref P buf) (\<lambda>(off, v). map_res (Pair off) (push_pull_from_ref P v))"

definition encoded_len_push_pull :: "('i, 'a) proto \<Rightarrow> 'i push_pull_message \<Rightarrow> nat" where
  "encoded_len_push_pull P m =
     1 + length (enc (u64c P) (pp_ltime m))
     + sum_list (map (\<lambda>kv. 1 + ld_len P (length (enc (statusc P) kv))) (pp_status_ltimes m))
     + sum_list (map (\<lambda>i. 1 + length (enc (idc P) i)) (pp_left_members m))
     + 1 + length (enc (u64c P) (pp_event_ltime m))
     + sum_list (map (\<lambda>e. 1 + ld_len P (encoded_len_user_events P e)) (pp_events m))
     + 1 + length (enc (u64c P) (pp_query_ltime m))"

definition encode_push_pull ::
  "('i, 'a) proto \<Rightarrow> 'i push_pull_message \<Rightarrow> bytes \<Rightarrow> encode_error + bytes \<times> nat"
where
  "encode_push_pull P m buf =
     run_enc
       (put_byte (merge P Varint 1) # put_enc (enc (u64c P) (pp_ltime m)) #
        concat (map (\<lambda>kv. [put_byte (merge P LengthDelimited 2),
          put_ld_bytes P (enc (statusc P) kv)]) (pp_status_ltimes m)) @
        concat (map (\<lambda>i. [put_byte (merge P (id_wire P) 3), put_enc (enc (idc P) i)])
          (pp_left_members m)) @
        put_byte (merge P Varint 4) # put_enc (enc (u64c P) (pp_event_ltime m)) #
        concat (map (\<lambda>e. [put_byte (merge P LengthDelimited 5),
          put_ld P (encoded_len_user_events P e) (encode_user_events P e)]) (pp_events m)) @
        [put_byte (merge P Varint 6), put_enc (enc (u64c P) (pp_query_ltime m))])
       (buf, 0)"

text \<open>
  The form \<open>local_state\<close> encodes: it borrows the event buffer itself, whose
  slots may be empty.
\<close>

record 'i push_pull_borrow =
  ppb_ltime :: lamport_time
  ppb_status_ltimes :: "('i, lamport_time) hash_map"
  ppb_left_members :: "'i list"
  ppb_event_ltime :: lamport_time
  ppb_events :: "user_events option list"
  ppb_query_ltime :: lamport_time

definition encoded_len_push_pull_in :: "('i, 'a) proto \<Rightarrow> 'i push_pull_borrow \<Rightarrow> nat" where
  "encoded_len_push_pull_in P m =
     1 + length (enc (u64c P) (ppb_ltime m))
     + sum_list (map (\<lambda>kv. 1 + ld_len P (length (enc (statusc P) kv))) (ppb_status_ltimes m))
     + sum_list (map (\<lambda>i. 1 + length (enc (idc P) i)) (ppb_left_members m))
     + 1 + length (enc (u64c P) (ppb_event_ltime m))
     + sum_list (List.map_filter (map_option (\<lambda>e. 1 + ld_len P (encoded_len_user_events P e)))
         (ppb_events m))
     + 1 + length (enc (u64c P) (ppb_query_ltime m))"

definition encode_push_pull_in ::
  "('i, 'a) proto \<Rightarrow> 'i push_pull_borrow \<Rightarrow> bytes \<Rightarrow> encode_error + bytes \<times> nat"
where
  "encode_push_pull_in P m buf =
     run_enc
       (put_byte (merge P Varint 1) # put_enc (enc (u64c P) (ppb_ltime m)) #
        concat (map (\<lambda>kv. [put_byte (merge P LengthDelimited 2),
          put_ld_bytes P (enc (statusc P) kv)]) (ppb_status_ltimes m)) @
        concat (map (\<lambda>i. [put_byte (merge P (id_wire P) 3), put_enc (enc (idc P) i)])
          (ppb_left_members m)) @
        put_byte (merge P Varint 4) # put_enc (enc (u64c P) (ppb_event_ltime m)) #
        concat (map (\<lambda>e. [put_byte (merge P LengthDelimited 5),
          put_ld P (encoded_len_user_events P e) (encode_user_events P e)])
          (List.map_filter (\<lambda>e. e) (ppb_events m))) @
        [put_byte (merge P Varint 6), put_enc (enc (u64c P) (ppb_query_ltime m))])
       (buf, 0)"

definition wire_push_pull :: "('i, 'a) proto \<Rightarrow> 'i push_pull_message \<Rightarrow> bytes" where
  "wire_push_pull P m =
     merge P Varint 1 # enc (u64c P) (pp_ltime m) @
     concat (map (\<lambda>kv. merge P LengthDelimited 2 # ld_frame P (enc (statusc P) kv)) (pp_status_ltimes m)) @
     concat (map (\<lambda>i. merge P (id_wire P) 3 # enc (idc P) i) (pp_left_members m)) @
     merge P Varint 4 # enc (u64c P) (pp_event_ltime m) @
     concat (map (\<lambda>e. merge P LengthDelimited 5 # ld_frame P (wire_user_events P e)) (pp_events m)) @
     merge P Varint 6 # enc (u64c P) (pp_query_ltime m)"

definition wf_push_pull :: "('i, 'a) proto \<Rightarrow> 'i push_pull_message \<Rightarrow> bool" where
  "wf_push_pull P m \<longleftrightarrow>
     distinct (map fst (pp_status_ltimes m)) \<and> distinct (pp_left_members m) \<and>
     list_all (\<lambda>kv. fits_u32 (enc (statusc P) kv)) (pp_status_ltimes m) \<and>
     list_all (\<lambda>e. wf_user_events P e \<and> fits_u32 (wire_user_events P e)) (pp_events m)"

text \<open>The owned message a borrowed one stands for.\<close>

definition push_pull_owned :: "'i push_pull_borrow \<Rightarrow> 'i push_pull_message" where
  "push_pull_owned m = \<lparr>pp_ltime = ppb_ltime m, pp_status_ltimes = ppb_status_ltimes m,
     pp_left_members = ppb_left_members m, pp_event_ltime = ppb_event_ltime m,
     pp_events = List.map_filter (\<lambda>e. e) (ppb_events m), pp_query_ltime = ppb_query_ltime m\<rparr>"

section \<open>What the encoders write\<close>

interpretation member_codec: encodable_fit "wf_member P" "wire_member P" "encode_member P"
  "encoded_len_member P" for P :: "('i, 'a) proto"
  by (rule encodable_fitI [OF _ encode_member_def, where s = False], unfold wire_member_def,
      intro emit_intros emits_Cons [OF tags_codec.put_ld_writes])
    (auto simp: wf_member_def encoded_len_member_def length_ld_frame tags_codec.encoded_len_wire)

interpretation conflict_codec: encodable_fit "wf_conflict P" "wire_conflict P" "encode_conflict P"
  "encoded_len_conflict P" for P :: "('i, 'a) proto"
  by (rule encodable_fitI [OF _ encode_conflict_def, where s = False], unfold wire_conflict_def,
      intro emit_intros emits_last member_codec.put_ld_writes)
    (auto simp: wf_conflict_def encoded_len_conflict_def length_ld_frame
      member_codec.encoded_len_wire)

interpretation key_request_codec: encodable "wf_key_request P" "wire_key_request P"
  "encode_key_request P" "encoded_len_key_request P" for P :: "('i, 'a) proto"
  by (rule encodableI [OF _ encode_key_request_def], unfold wire_key_request_def, intro emit_intros)
    (auto simp: wf_key_request_def encoded_len_key_request_def length_ld_frame split: option.splits)

interpretation key_response_codec: encodable "wf_key_response P" "wire_key_response P"
  "encode_key_response P" "encoded_len_key_response P" for P :: "('i, 'a) proto"
  by (rule encodableI [OF _ encode_key_response_def], unfold wire_key_response_def,
      intro emit_intros)
    (auto simp: wf_key_response_def encoded_len_key_response_def length_ld_frame list_all_iff
      wire_simps length_concat comp_def split: option.splits)

interpretation push_pull_codec: encodable "wf_push_pull P" "wire_push_pull P" "encode_push_pull P"
  "encoded_len_push_pull P" for P :: "('i, 'a) proto"
  by (rule encodableI [OF _ encode_push_pull_def], unfold wire_push_pull_def,
      intro emit_intros emits_last user_events_codec.put_ld_writes_full)
    (auto simp: wf_push_pull_def encoded_len_push_pull_def length_ld_frame list_all_iff
      length_concat comp_def user_events_codec.encoded_len_wire intro!: arg_cong [of _ _ sum_list])

lemma encode_push_pull_in_owned:
  "encode_push_pull_in P m = encode_push_pull P (push_pull_owned m)"
  "encoded_len_push_pull_in P m = encoded_len_push_pull P (push_pull_owned m)"
proof -
  have "List.map_filter (map_option f) xs = map f (List.map_filter (\<lambda>e. e) xs)"
    for f :: "user_events \<Rightarrow> nat" and xs
    by (induction xs) (auto simp: List.map_filter_simps split: option.splits)
  then show "encoded_len_push_pull_in P m = encoded_len_push_pull P (push_pull_owned m)"
    by (simp add: encoded_len_push_pull_in_def encoded_len_push_pull_def push_pull_owned_def)
qed (simp add: fun_eq_iff encode_push_pull_in_def encode_push_pull_def push_pull_owned_def)

section \<open>Reading back what was written\<close>

lemma decode_member_ref_wire:
  assumes "proto_ok P" "wf_member P m"
  shows "decode_member_ref P (wire_member P m) = Inr (length (wire_member P m), m\<lparr>m_tags := []\<rparr>,
    if m_tags m = [] then None else Some (wire_tags P (m_tags m)))"
  using assms decode_tags_ref_wire [of P "m_tags m"]
  by (simp add: decode_member_ref_def wire_member_def wf_member_def member_step_def member_acc0_def
      wire_simps)

lemma decode_member_wire:
  "proto_ok P \<Longrightarrow> wf_member P m \<Longrightarrow>
     decode_member P (wire_member P m) = Inr (length (wire_member P m), m)"
  by (simp add: decode_member_def decode_member_ref_wire member_from_ref_def tags_from_ref_wire
      wf_member_def del: if_split)

lemma decode_conflict_wire:
  assumes "proto_ok P" "wf_conflict P m"
  shows "decode_conflict P (wire_conflict P m) = Inr (length (wire_conflict P m), m)"
proof -
  have "decode_conflict_ref P (wire_conflict P m) = Inr (length (wire_conflict P m), m\<lparr>m_tags := []\<rparr>,
    if m_tags m = [] then None else Some (wire_tags P (m_tags m)))"
    using assms
    by (simp add: decode_conflict_ref_def wire_conflict_def wf_conflict_def decode_member_ref_wire
        wire_simps)
  then show ?thesis
    using assms
    by (simp add: decode_conflict_def member_from_ref_def tags_from_ref_wire wf_conflict_def
        wf_member_def del: if_split)
qed

lemma decode_key_request_wire:
  "proto_ok P \<Longrightarrow> wf_key_request P k \<Longrightarrow>
     decode_key_request P (wire_key_request P k) = Inr (length (wire_key_request P k), k)"
  by (cases k) (simp_all add: decode_key_request_def wire_key_request_def wf_key_request_def
      wire_simps)

lemma decode_key_response_wire:
  assumes "proto_ok P" "wf_key_response P m"
  shows "decode_key_response P (wire_key_response P m) = Inr (length (wire_key_response P m), m)"
proof -
  let ?f = "\<lambda>k. merge P LengthDelimited 3 # ld_frame P (enc (keyc P) k)"
  let ?w = "if kr_keys m = [] then None else Some (concat (map ?f (kr_keys m)))"
  define pre where "pre = (if kr_result m then [merge P Byte 1, 1] else []) @
     (if kr_message m \<noteq> [] then merge P LengthDelimited 2 # ld_frame P (str_bytes (kr_message m)) else [])"
  define post where "post = (case kr_primary_key m of None \<Rightarrow> []
     | Some k \<Rightarrow> merge P LengthDelimited 4 # ld_frame P (enc (keyc P) k))"
  define rs where "rs = (if kr_result m then Some True else None)"
  define ms where "ms = (if kr_message m = [] then None else Some (kr_message m))"
  have wire: "wire_key_response P m = pre @ concat (map ?f (kr_keys m)) @ post"
    by (simp add: wire_key_response_def pre_def post_def)
  have 1: "decode_loop (key_response_step P) 0 (pre @ r) (None, None, None, None)
    = decode_loop (key_response_step P) (length pre) r (rs, ms, None, None)" for r
    using assms
    by (cases "kr_result m"; cases "kr_message m = []")
      (simp_all add: pre_def rs_def ms_def wf_key_response_def wire_simps)
  have 2: "decode_loop (key_response_step P) k (concat (map ?f (kr_keys m)) @ r) (rs, ms, None, None)
    = decode_loop (key_response_step P) (k + length (concat (map ?f (kr_keys m)))) r
        (rs, ms, span k (map ?f (kr_keys m)), None)" for k r
    by (rule decode_loop_fields [where put = "\<lambda>w. (rs, ms, w, None)"])
      (use assms in \<open>simp add: wf_key_response_def list_all_iff skip_field_def wire_simps\<close>)
  have 3: "decode_loop (key_response_step P) k post (rs, ms, w, None)
    = Inr (k + length post, rs, ms, w, kr_primary_key m)" for k w
    using assms
    by (cases "kr_primary_key m") (simp_all add: post_def wf_key_response_def wire_simps)
  have "decode_key_response_ref P (wire_key_response P m)
    = Inr (length (wire_key_response P m), m\<lparr>kr_keys := []\<rparr>, ?w)"
    using window_span [of pre "length pre" ?f "kr_keys m" post] 1 2 3
    by (simp add: decode_key_response_ref_def wire rs_def ms_def or_default_def)
  moreover have "rep_items (rep_ld P 3) ?w = Inr (map (enc (keyc P)) (kr_keys m))"
    by (rule rep_ld_items) (use assms in \<open>auto simp: wf_key_response_def list_all_iff\<close>)
  moreover have "mapM_res (\<lambda>b. map_res snd (dec (keyc P) b)) (map (enc (keyc P)) (kr_keys m))
    = Inr (kr_keys m)"
    unfolding mapM_res_map
    by (rule mapM_res_id) (use assms in \<open>auto simp: proto_ok_def intro!: body_codec_snd\<close>)
  ultimately show ?thesis
    by (simp add: decode_key_response_def key_response_from_ref_def del: if_split)
qed

lemma collect_set_distinct: "distinct ks \<Longrightarrow> collect_set ks = ks"
proof -
  have "fold (\<lambda>k s. if k \<in> set s then s else s @ [k]) ks s = s @ ks" if "distinct (s @ ks)" for s
    using that by (induction ks arbitrary: s) auto
  from this [of "[]"] show "distinct ks \<Longrightarrow> collect_set ks = ks" by (simp add: collect_set_def)
qed

lemma push_pull_items:
  assumes "proto_ok P" "wf_push_pull P m"
  shows "bind_res (rep_items (rep_ld P 2) (if pp_status_ltimes m = [] then None else Some (concat
        (map (\<lambda>kv. merge P LengthDelimited 2 # ld_frame P (enc (statusc P) kv)) (pp_status_ltimes m)))))
      (mapM_res (\<lambda>b. map_res snd (dec (statusc P) b))) = Inr (pp_status_ltimes m)"
    and "bind_res (rep_items (rep_ld P 5) (if pp_events m = [] then None else Some (concat
        (map (\<lambda>e. merge P LengthDelimited 5 # ld_frame P (wire_user_events P e)) (pp_events m)))))
      (mapM_res (\<lambda>b. map_res snd (decode_user_events P b))) = Inr (pp_events m)"
proof -
  have "mapM_res (\<lambda>b. map_res snd (dec (statusc P) b)) (map (enc (statusc P)) (pp_status_ltimes m))
      = Inr (pp_status_ltimes m)"
    unfolding mapM_res_map
    by (rule mapM_res_id) (use assms in \<open>auto simp: proto_ok_def intro!: body_codec_snd\<close>)
  then show "bind_res (rep_items (rep_ld P 2) (if pp_status_ltimes m = [] then None else Some (concat
        (map (\<lambda>kv. merge P LengthDelimited 2 # ld_frame P (enc (statusc P) kv)) (pp_status_ltimes m)))))
      (mapM_res (\<lambda>b. map_res snd (dec (statusc P) b))) = Inr (pp_status_ltimes m)"
    using assms by (subst rep_ld_items) (auto simp: wf_push_pull_def list_all_iff)
  have "mapM_res (\<lambda>b. map_res snd (decode_user_events P b)) (map (wire_user_events P) (pp_events m))
      = Inr (pp_events m)"
    unfolding mapM_res_map
    by (rule mapM_res_id)
      (use assms in \<open>auto simp: wf_push_pull_def list_all_iff decode_user_events_wire\<close>)
  then show "bind_res (rep_items (rep_ld P 5) (if pp_events m = [] then None else Some (concat
        (map (\<lambda>e. merge P LengthDelimited 5 # ld_frame P (wire_user_events P e)) (pp_events m)))))
      (mapM_res (\<lambda>b. map_res snd (decode_user_events P b))) = Inr (pp_events m)"
    using assms by (subst rep_ld_items) (auto simp: wf_push_pull_def list_all_iff)
qed

text \<open>The loop over the six parts of an encoded push/pull message.\<close>

lemma push_pull_loop:
  fixes P :: "('i, 'a) proto"
  assumes "proto_ok P" "wf_push_pull P m"
  defines "A \<equiv> map (\<lambda>kv. merge P LengthDelimited 2 # ld_frame P (enc (statusc P) kv)) (pp_status_ltimes m)"
    and "B \<equiv> map (\<lambda>i. merge P (id_wire P) 3 # enc (idc P) i) (pp_left_members m)"
    and "C \<equiv> map (\<lambda>e. merge P LengthDelimited 5 # ld_frame P (wire_user_events P e)) (pp_events m)"
    and "k1 \<equiv> Suc (length (enc (u64c P) (pp_ltime m)))"
  defines "k2 \<equiv> k1 + length (concat A)"
  defines "k3 \<equiv> k2 + length (concat B) + Suc (length (enc (u64c P) (pp_event_ltime m)))"
  shows "decode_loop (push_pull_step P) 0 (wire_push_pull P m) push_pull_acc0
    = Inr (length (wire_push_pull P m), \<lparr>pa_ltime = Some (pp_ltime m), pa_status_ltimes = span k1 A,
        pa_left_members = span k2 B, pa_event_ltime = Some (pp_event_ltime m),
        pa_events = span k3 C, pa_query_ltime = Some (pp_query_ltime m)\<rparr>)"
proof -
  have wire: "wire_push_pull P m = (merge P Varint 1 # enc (u64c P) (pp_ltime m)) @ concat A @
     concat B @ (merge P Varint 4 # enc (u64c P) (pp_event_ltime m)) @ concat C @
     merge P Varint 6 # enc (u64c P) (pp_query_ltime m)"
    by (simp add: wire_push_pull_def A_def B_def C_def)
  have 1: "decode_loop (push_pull_step P) k (concat A @ r) (acc\<lparr>pa_status_ltimes := None\<rparr>)
    = decode_loop (push_pull_step P) (k + length (concat A)) r (acc\<lparr>pa_status_ltimes := span k A\<rparr>)"
    for k r acc
    unfolding A_def
    by (rule decode_loop_fields [where put = "\<lambda>w. acc\<lparr>pa_status_ltimes := w\<rparr>"])
      (use assms(1,2) in \<open>simp add: wf_push_pull_def list_all_iff push_pull_step_def skip_field_def
        wire_simps\<close>)
  have 2: "decode_loop (push_pull_step P) k (concat B @ r) (acc\<lparr>pa_left_members := None\<rparr>)
    = decode_loop (push_pull_step P) (k + length (concat B)) r (acc\<lparr>pa_left_members := span k B\<rparr>)"
    for k r acc
    unfolding B_def
    by (rule decode_loop_fields [where put = "\<lambda>w. acc\<lparr>pa_left_members := w\<rparr>"])
      (use assms(1) in \<open>simp add: push_pull_step_def skip_field_def wire_simps\<close>)
  have 3: "decode_loop (push_pull_step P) k (concat C @ r) (acc\<lparr>pa_events := None\<rparr>)
    = decode_loop (push_pull_step P) (k + length (concat C)) r (acc\<lparr>pa_events := span k C\<rparr>)"
    for k r acc
    unfolding C_def
    by (rule decode_loop_fields [where put = "\<lambda>w. acc\<lparr>pa_events := w\<rparr>"])
      (use assms(1,2) in \<open>simp add: wf_push_pull_def list_all_iff push_pull_step_def skip_field_def
        wire_simps\<close>)
  let ?a0 = "push_pull_acc0\<lparr>pa_ltime := Some (pp_ltime m)\<rparr>"
  let ?a1 = "?a0\<lparr>pa_status_ltimes := span k1 A\<rparr>"
  let ?a2 = "?a1\<lparr>pa_left_members := span k2 B, pa_event_ltime := Some (pp_event_ltime m)\<rparr>"
  have "decode_loop (push_pull_step P) 0 (wire_push_pull P m) push_pull_acc0
    = decode_loop (push_pull_step P) k1 (concat A @ concat B @ (merge P Varint 4 #
        enc (u64c P) (pp_event_ltime m)) @ concat C @ merge P Varint 6 # enc (u64c P) (pp_query_ltime m))
        (?a0\<lparr>pa_status_ltimes := None\<rparr>)"
    using assms(1) by (simp add: wire push_pull_step_def push_pull_acc0_def k1_def wire_simps)
  also have "\<dots> = decode_loop (push_pull_step P) k2 (concat B @ (merge P Varint 4 #
        enc (u64c P) (pp_event_ltime m)) @ concat C @ merge P Varint 6 # enc (u64c P) (pp_query_ltime m))
        (?a1\<lparr>pa_left_members := None\<rparr>)"
    by (subst 1) (simp add: push_pull_acc0_def k2_def)
  also have "\<dots> = decode_loop (push_pull_step P) k3 (concat C @ merge P Varint 6 #
        enc (u64c P) (pp_query_ltime m)) (?a2\<lparr>pa_events := None\<rparr>)"
    using assms(1)
    by (subst 2) (simp add: push_pull_acc0_def push_pull_step_def k3_def wire_simps)
  also have "\<dots> = Inr (length (wire_push_pull P m),
        ?a2\<lparr>pa_events := span k3 C, pa_query_ltime := Some (pp_query_ltime m)\<rparr>)"
    using assms(1)
    by (subst 3) (simp add: push_pull_acc0_def push_pull_step_def wire k3_def k2_def k1_def wire_simps)
  finally show ?thesis by (simp add: push_pull_acc0_def)
qed

lemma decode_push_pull_wire:
  assumes "proto_ok P" "wf_push_pull P m"
  shows "decode_push_pull P (wire_push_pull P m) = Inr (length (wire_push_pull P m), m)"
proof -
  let ?h = "merge P Varint 1 # enc (u64c P) (pp_ltime m)"
  let ?a = "\<lambda>kv. merge P LengthDelimited 2 # ld_frame P (enc (statusc P) kv)"
  let ?b = "\<lambda>i. merge P (id_wire P) 3 # enc (idc P) i"
  let ?e = "merge P Varint 4 # enc (u64c P) (pp_event_ltime m)"
  let ?c = "\<lambda>e. merge P LengthDelimited 5 # ld_frame P (wire_user_events P e)"
  let ?A = "concat (map ?a (pp_status_ltimes m))"
  let ?B = "concat (map ?b (pp_left_members m))"
  let ?C = "concat (map ?c (pp_events m))"
  let ?q = "merge P Varint 6 # enc (u64c P) (pp_query_ltime m)"
  have wire: "wire_push_pull P m = ?h @ ?A @ ?B @ ?e @ ?C @ ?q"
    by (simp add: wire_push_pull_def)
  have ref: "decode_push_pull_ref P (wire_push_pull P m) = Inr (length (wire_push_pull P m),
    \<lparr>ppr_ltime = pp_ltime m,
      ppr_status_ltimes = (if pp_status_ltimes m = [] then None else Some ?A),
      ppr_left_members = (if pp_left_members m = [] then None else Some ?B),
      ppr_event_ltime = pp_event_ltime m,
      ppr_events = (if pp_events m = [] then None else Some ?C), ppr_query_ltime = pp_query_ltime m\<rparr>)"
    using push_pull_loop [OF assms]
      window_span [of ?h _ ?a "pp_status_ltimes m" "?B @ ?e @ ?C @ ?q"]
      window_span [of "?h @ ?A" _ ?b "pp_left_members m" "?e @ ?C @ ?q"]
      window_span [of "?h @ ?A @ ?B @ ?e" _ ?c "pp_events m" ?q]
    by (simp add: decode_push_pull_ref_def wire_push_pull_def add.assoc)
  show ?thesis
    using assms push_pull_items [OF assms] rep_id_items [of P 3 "pp_left_members m"]
    by (simp add: decode_push_pull_def ref push_pull_from_ref_def collect_map_distinct
        collect_set_distinct wf_push_pull_def del: if_split)
qed

end
