(* ===== verification/Wire_Frame.thy ===== *)
theory Wire_Frame
  imports Wire_Members
begin

text \<open>
  \<open>types/message.rs\<close>: a gossip packet is one message, an identifying byte and a
  length-delimited body, or a relay message that names the node a wrapped
  message is for. \<open>decode_message\<close> returns a borrowed message (\<open>MessageRef\<close>);
  \<open>message_from_ref\<close> collects the \<open>from_ref\<close> calls of its users.
\<close>

section \<open>Encoding\<close>

definition message_byte :: "('i, 'a) proto \<Rightarrow> message_type \<Rightarrow> u8" where
  "message_byte P ty = merge P LengthDelimited (u8_of_message_type ty)"

definition encoded_message_len :: "('i, 'a) proto \<Rightarrow> nat \<Rightarrow> nat" where
  "encoded_message_len P n = 1 + length (enc (u32c P) (of_nat n)) + n"

text \<open>\<open>encode_message\<close> for a message with the given identifier, \<open>encoded_len\<close> and \<open>encode\<close>.\<close>

definition encode_message ::
  "('i, 'a) proto \<Rightarrow> u8 \<Rightarrow> nat \<Rightarrow> (bytes \<Rightarrow> encode_error + bytes \<times> nat) \<Rightarrow> bytes
   \<Rightarrow> encode_error + bytes \<times> nat"
where
  "encode_message P idb n f buf = run_enc [put_byte idb, put_ld P n f] (buf, 0)"

definition encode_message_to_bytes ::
  "('i, 'a) proto \<Rightarrow> u8 \<Rightarrow> nat \<Rightarrow> (bytes \<Rightarrow> encode_error + bytes \<times> nat) \<Rightarrow> encode_error + bytes"
where
  "encode_message_to_bytes P idb n f =
     map_res fst (encode_message P idb n f (replicate (encoded_message_len P n) 0))"

definition encoded_relay_message_len :: "('i, 'a) proto \<Rightarrow> nat \<Rightarrow> ('i, 'a) node \<Rightarrow> nat" where
  "encoded_relay_message_len P n nd =
     1 + 1 + ld_len P (length (enc (nodec P) nd)) + 1 + (1 + length (enc (u32c P) (of_nat n)) + n)"

definition encode_relay_message ::
  "('i, 'a) proto \<Rightarrow> u8 \<Rightarrow> nat \<Rightarrow> (bytes \<Rightarrow> encode_error + bytes \<times> nat) \<Rightarrow> ('i, 'a) node \<Rightarrow> bytes
   \<Rightarrow> encode_error + bytes \<times> nat"
where
  "encode_relay_message P idb n f nd buf =
     run_enc
       [put_byte (message_byte P MT_Relay), put_byte (merge P LengthDelimited 1),
        put_ld_bytes P (enc (nodec P) nd), put_byte (merge P LengthDelimited 2),
        put_byte idb, put_ld P n f]
       (buf, 0)"

definition encode_relay_message_to_bytes ::
  "('i, 'a) proto \<Rightarrow> u8 \<Rightarrow> nat \<Rightarrow> (bytes \<Rightarrow> encode_error + bytes \<times> nat) \<Rightarrow> ('i, 'a) node
   \<Rightarrow> encode_error + bytes"
where
  "encode_relay_message_to_bytes P idb n f nd =
     map_res fst (encode_relay_message P idb n f nd (replicate (encoded_relay_message_len P n nd) 0))"

text \<open>The messages that can be encoded, and their instances of the trait \<open>Encodable\<close>.\<close>

datatype ('i, 'a) message =
    Msg_Leave "'i leave_message"
  | Msg_Join "'i join_message"
  | Msg_PushPull "'i push_pull_message"
  | Msg_UserEvent user_event_message
  | Msg_Query "('i, 'a) query_message"
  | Msg_QueryResponse "('i, 'a) query_response_message"
  | Msg_ConflictResponse "('i, 'a) member"
  | Msg_KeyRequest "secret_key option"
  | Msg_KeyResponse key_response_message

fun message_ty :: "('i, 'a) message \<Rightarrow> message_type" where
  "message_ty (Msg_Leave m) = MT_Leave"
| "message_ty (Msg_Join m) = MT_Join"
| "message_ty (Msg_PushPull m) = MT_PushPull"
| "message_ty (Msg_UserEvent m) = MT_UserEvent"
| "message_ty (Msg_Query m) = MT_Query"
| "message_ty (Msg_QueryResponse m) = MT_QueryResponse"
| "message_ty (Msg_ConflictResponse m) = MT_ConflictResponse"
| "message_ty (Msg_KeyRequest m) = MT_KeyRequest"
| "message_ty (Msg_KeyResponse m) = MT_KeyResponse"

fun body_len :: "('i, 'a) proto \<Rightarrow> ('i, 'a) message \<Rightarrow> nat" where
  "body_len P (Msg_Leave m) = encoded_len_leave P m"
| "body_len P (Msg_Join m) = encoded_len_join P m"
| "body_len P (Msg_PushPull m) = encoded_len_push_pull P m"
| "body_len P (Msg_UserEvent m) = encoded_len_user_event_message P m"
| "body_len P (Msg_Query m) = encoded_len_query P m"
| "body_len P (Msg_QueryResponse m) = encoded_len_query_response P m"
| "body_len P (Msg_ConflictResponse m) = encoded_len_conflict P m"
| "body_len P (Msg_KeyRequest m) = encoded_len_key_request P m"
| "body_len P (Msg_KeyResponse m) = encoded_len_key_response P m"

fun encode_body :: "('i, 'a) proto \<Rightarrow> ('i, 'a) message \<Rightarrow> bytes \<Rightarrow> encode_error + bytes \<times> nat" where
  "encode_body P (Msg_Leave m) = encode_leave P m"
| "encode_body P (Msg_Join m) = encode_join P m"
| "encode_body P (Msg_PushPull m) = encode_push_pull P m"
| "encode_body P (Msg_UserEvent m) = encode_user_event_message P m"
| "encode_body P (Msg_Query m) = encode_query P m"
| "encode_body P (Msg_QueryResponse m) = encode_query_response P m"
| "encode_body P (Msg_ConflictResponse m) = encode_conflict P m"
| "encode_body P (Msg_KeyRequest m) = encode_key_request P m"
| "encode_body P (Msg_KeyResponse m) = encode_key_response P m"

definition message_to_bytes :: "('i, 'a) proto \<Rightarrow> ('i, 'a) message \<Rightarrow> encode_error + bytes" where
  "message_to_bytes P m =
     encode_message_to_bytes P (message_byte P (message_ty m)) (body_len P m) (encode_body P m)"

definition relay_to_bytes ::
  "('i, 'a) proto \<Rightarrow> ('i, 'a) message \<Rightarrow> ('i, 'a) node \<Rightarrow> encode_error + bytes"
where
  "relay_to_bytes P m nd =
     encode_relay_message_to_bytes P (message_byte P (message_ty m)) (body_len P m) (encode_body P m) nd"

section \<open>Decoding\<close>

datatype ('i, 'a) message_ref =
    MR_Leave "'i leave_message"
  | MR_Join "'i join_message"
  | MR_PushPull push_pull_ref
  | MR_UserEvent user_event_message
  | MR_Query "('i, 'a) query_message \<times> bytes option"
  | MR_QueryResponse "('i, 'a) query_response_message"
  | MR_ConflictResponse "('i, 'a) member \<times> bytes option"
  | MR_Relay "('i, 'a) node" nat bytes
  | MR_KeyRequest "secret_key option"
  | MR_KeyResponse "key_response_message \<times> bytes option"

fun relay_step ::
  "('i, 'a) proto \<Rightarrow> nat \<Rightarrow> u8 \<Rightarrow> bytes \<Rightarrow> ('i, 'a) node option \<times> bytes option
   \<Rightarrow> decode_error + nat \<times> ('i, 'a) node option \<times> bytes option"
where
  "relay_step P off b r (nd, ms) =
     (if b = merge P LengthDelimited 1 then
        once nd 1 (field (ld_dec P (dec (nodec P))) r (\<lambda>v. (Some v, ms)))
      else if b = merge P LengthDelimited 2 then
        once ms 2
          (if length r < 2 then Inl Buffer_underflow
           else case dec (u32c P) (tl r) of
             Inl e \<Rightarrow> Inl e
           | Inr (n, len) \<Rightarrow>
               (let e = 1 + n + unat len in
                if length r < e then Inl Decode_panic else Inr (1 + e, nd, Some (take e r))))
      else skip_field P (b # r) (\<lambda>_. (nd, ms)))"

definition decode_relay ::
  "('i, 'a) proto \<Rightarrow> bytes \<Rightarrow> decode_error + nat \<times> ('i, 'a) node \<times> bytes"
where
  "decode_relay P buf =
     bind_res (decode_loop (relay_step P) 0 buf (None, None)) (\<lambda>(off, nd, ms).
     map_res (\<lambda>nd. (off, nd, or_default [] ms)) (required ''node'' nd))"

definition message_step ::
  "('i, 'a) proto \<Rightarrow> nat \<Rightarrow> u8 \<Rightarrow> bytes \<Rightarrow> ('i, 'a) message_ref option
   \<Rightarrow> decode_error + nat \<times> ('i, 'a) message_ref option"
where
  "message_step P off b r m =
     (if b = message_byte P MT_Leave then
        once m 1 (field (ld_dec P (decode_leave P)) r (\<lambda>v. Some (MR_Leave v)))
      else if b = message_byte P MT_Join then
        once m 2 (field (ld_dec P (decode_join P)) r (\<lambda>v. Some (MR_Join v)))
      else if b = message_byte P MT_PushPull then
        once m 3 (field (ld_dec P (decode_push_pull_ref P)) r (\<lambda>v. Some (MR_PushPull v)))
      else if b = message_byte P MT_UserEvent then
        once m 4 (field (ld_dec P (decode_user_event_message P)) r (\<lambda>v. Some (MR_UserEvent v)))
      else if b = message_byte P MT_Query then
        once m 5 (field (ld_dec P (decode_query_ref P)) r (\<lambda>v. Some (MR_Query v)))
      else if b = message_byte P MT_QueryResponse then
        once m 6 (field (ld_dec P (decode_query_response P)) r (\<lambda>v. Some (MR_QueryResponse v)))
      else if b = message_byte P MT_ConflictResponse then
        once m 7 (field (ld_dec P (decode_conflict_ref P)) r (\<lambda>v. Some (MR_ConflictResponse v)))
      else if b = message_byte P MT_Relay then
        once m 8 (case decode_relay P r of
            Inl e \<Rightarrow> Inl e
          | Inr (n, nd, pl) \<Rightarrow> Inr (1 + n, Some (MR_Relay nd (off + 1 + n - length pl) pl)))
      else if b = message_byte P MT_KeyRequest then
        once m 9 (field (ld_dec P (decode_key_request P)) r (\<lambda>v. Some (MR_KeyRequest v)))
      else if b = message_byte P MT_KeyResponse then
        once m 10 (field (ld_dec P (decode_key_response_ref P)) r (\<lambda>v. Some (MR_KeyResponse v)))
      else skip_field P (b # r) (\<lambda>_. m))"

definition decode_message :: "('i, 'a) proto \<Rightarrow> bytes \<Rightarrow> decode_error + ('i, 'a) message_ref" where
  "decode_message P buf =
     bind_res (decode_loop (message_step P) 0 buf None) (\<lambda>(off, m). required ''value'' m)"

text \<open>
  The owned message; a relay message has none, its payload is forwarded as it is.
\<close>

fun message_from_ref ::
  "('i, 'a) proto \<Rightarrow> ('i, 'a) message_ref \<Rightarrow> decode_error + ('i, 'a) message option"
where
  "message_from_ref P (MR_Leave m) = Inr (Some (Msg_Leave m))"
| "message_from_ref P (MR_Join m) = Inr (Some (Msg_Join m))"
| "message_from_ref P (MR_PushPull v) = map_res (\<lambda>m. Some (Msg_PushPull m)) (push_pull_from_ref P v)"
| "message_from_ref P (MR_UserEvent m) = Inr (Some (Msg_UserEvent m))"
| "message_from_ref P (MR_Query v) = map_res (\<lambda>m. Some (Msg_Query m)) (query_from_ref P v)"
| "message_from_ref P (MR_QueryResponse m) = Inr (Some (Msg_QueryResponse m))"
| "message_from_ref P (MR_ConflictResponse v) =
     map_res (\<lambda>m. Some (Msg_ConflictResponse m)) (member_from_ref P v)"
| "message_from_ref P (MR_Relay nd off pl) = Inr None"
| "message_from_ref P (MR_KeyRequest k) = Inr (Some (Msg_KeyRequest k))"
| "message_from_ref P (MR_KeyResponse v) =
     map_res (\<lambda>m. Some (Msg_KeyResponse m)) (key_response_from_ref P v)"

section \<open>The bytes of a message\<close>

fun body_wire :: "('i, 'a) proto \<Rightarrow> ('i, 'a) message \<Rightarrow> bytes" where
  "body_wire P (Msg_Leave m) = wire_leave P m"
| "body_wire P (Msg_Join m) = wire_join P m"
| "body_wire P (Msg_PushPull m) = wire_push_pull P m"
| "body_wire P (Msg_UserEvent m) = wire_user_event_message P m"
| "body_wire P (Msg_Query m) = wire_query P m"
| "body_wire P (Msg_QueryResponse m) = wire_query_response P m"
| "body_wire P (Msg_ConflictResponse m) = wire_conflict P m"
| "body_wire P (Msg_KeyRequest m) = wire_key_request P m"
| "body_wire P (Msg_KeyResponse m) = wire_key_response P m"

fun wf_body :: "('i, 'a) proto \<Rightarrow> ('i, 'a) message \<Rightarrow> bool" where
  "wf_body P (Msg_Leave m) \<longleftrightarrow> wf_leave P m"
| "wf_body P (Msg_Join m) \<longleftrightarrow> True"
| "wf_body P (Msg_PushPull m) \<longleftrightarrow> wf_push_pull P m"
| "wf_body P (Msg_UserEvent m) \<longleftrightarrow> wf_user_event_message P m"
| "wf_body P (Msg_Query m) \<longleftrightarrow> wf_query P m"
| "wf_body P (Msg_QueryResponse m) \<longleftrightarrow> wf_query_response P m"
| "wf_body P (Msg_ConflictResponse m) \<longleftrightarrow> wf_conflict P m"
| "wf_body P (Msg_KeyRequest m) \<longleftrightarrow> wf_key_request P m"
| "wf_body P (Msg_KeyResponse m) \<longleftrightarrow> wf_key_response P m"

definition wire_message :: "('i, 'a) proto \<Rightarrow> ('i, 'a) message \<Rightarrow> bytes" where
  "wire_message P m = message_byte P (message_ty m) # ld_frame P (body_wire P m)"

definition wire_relay :: "('i, 'a) proto \<Rightarrow> ('i, 'a) message \<Rightarrow> ('i, 'a) node \<Rightarrow> bytes" where
  "wire_relay P m nd =
     message_byte P MT_Relay # merge P LengthDelimited 1 # ld_frame P (enc (nodec P) nd) @
     merge P LengthDelimited 2 # wire_message P m"

definition wf_message :: "('i, 'a) proto \<Rightarrow> ('i, 'a) message \<Rightarrow> bool" where
  "wf_message P m \<longleftrightarrow> wf_body P m \<and> fits_u32 (body_wire P m)"

section \<open>Lemmas\<close>

context encodable_fit
begin

lemma encode_message_exact:
  assumes "valid m" "fits_u32 (wire m)"
  shows "encode_message_to_bytes P idb (encoded_len m) (encode m) = Inr (idb # ld_frame P (wire m))"
proof -
  have "emits False [put_byte idb, put_ld P (encoded_len m) (encode m)] (idb # ld_frame P (wire m))"
    by (intro emit_intros emits_last put_ld_writes assms)
  then show ?thesis
    unfolding encode_message_to_bytes_def encode_message_def
    by (rule emits_exact)
      (simp add: encoded_message_len_def encoded_len_wire assms(1) length_ld_frame ld_len_def)
qed

lemma encode_relay_exact:
  assumes "valid m" "fits_u32 (wire m)" "fits_u32 (enc (nodec P) nd)"
  shows "encode_relay_message_to_bytes P idb (encoded_len m) (encode m) nd
    = Inr (message_byte P MT_Relay # merge P LengthDelimited 1 # ld_frame P (enc (nodec P) nd) @
        merge P LengthDelimited 2 # idb # ld_frame P (wire m))"
proof -
  have "emits False [put_byte (message_byte P MT_Relay), put_byte (merge P LengthDelimited 1),
        put_ld_bytes P (enc (nodec P) nd), put_byte (merge P LengthDelimited 2),
        put_byte idb, put_ld P (encoded_len m) (encode m)]
      (message_byte P MT_Relay # merge P LengthDelimited 1 # ld_frame P (enc (nodec P) nd) @
        merge P LengthDelimited 2 # idb # ld_frame P (wire m))"
    by (intro emit_intros emits_last put_ld_writes assms)
  then show ?thesis
    unfolding encode_relay_message_to_bytes_def encode_relay_message_def
    by (rule emits_exact)
      (simp add: encoded_relay_message_len_def encoded_len_wire assms(1) length_ld_frame ld_len_def)
qed

end

text \<open>Every message is encodable, through the codec of its kind.\<close>

interpretation message_codec: encodable_fit "wf_body P" "body_wire P" "encode_body P" "body_len P"
  for P :: "('i, 'a) proto"
proof
  fix m :: "('i, 'a) message" and buf :: bytes
  assume wf: "wf_body P m"
  show "encode_body P m buf = put_enc (body_wire P m) (buf, 0)"
    if "length (body_wire P m) \<le> length buf"
    using wf that
    by (cases m)
      (simp_all del: put_enc.simps add: leave_codec.encode_wire join_codec.encode_wire push_pull_codec.encode_wire
        user_event_message_codec.encode_wire query_codec.encode_wire query_response_codec.encode_wire
        conflict_codec.encode_fit key_request_codec.encode_wire key_response_codec.encode_wire)
  show "body_len P m = length (body_wire P m)"
    using wf
    by (cases m)
      (simp_all add: leave_codec.encoded_len_wire join_codec.encoded_len_wire
        push_pull_codec.encoded_len_wire user_event_message_codec.encoded_len_wire
        query_codec.encoded_len_wire query_response_codec.encoded_len_wire
        conflict_codec.encoded_len_wire key_request_codec.encoded_len_wire
        key_response_codec.encoded_len_wire)
qed

lemma message_to_bytes_wire:
  "wf_message P m \<Longrightarrow> message_to_bytes P m = Inr (wire_message P m)"
  by (simp add: message_to_bytes_def wire_message_def wf_message_def
      message_codec.encode_message_exact)

lemma relay_to_bytes_wire:
  "wf_message P m \<Longrightarrow> fits_u32 (enc (nodec P) nd) \<Longrightarrow> relay_to_bytes P m nd = Inr (wire_relay P m nd)"
  by (simp add: relay_to_bytes_def wire_relay_def wire_message_def wf_message_def
      message_codec.encode_relay_exact)

lemma message_too_large:
  "2 ^ 32 \<le> body_len P m \<Longrightarrow> message_to_bytes P m = Inl Too_large"
  by (simp add: message_to_bytes_def encode_message_to_bytes_def encode_message_def put_ld_def
      encoded_message_len_def)

lemma message_byte_eq [wire_simps]:
  "proto_ok P \<Longrightarrow> t \<noteq> MT_Unknown v \<Longrightarrow> u8_of_message_type t < 16 \<Longrightarrow> u8_of_message_type u < 16 \<Longrightarrow>
     message_byte P t = message_byte P u \<longleftrightarrow> u8_of_message_type t = u8_of_message_type u"
  by (simp add: message_byte_def wire_simps)

lemma decode_message_one:
  "message_step P 0 b xs None = Inr (Suc (length xs), Some v) \<Longrightarrow> decode_message P (b # xs) = Inr v"
  by (simp add: decode_message_def)

lemma via_ref:
  assumes "bind_res r (\<lambda>(off, v). map_res (Pair off) (g v)) = Inr (n, m)"
  shows "\<exists>v. r = Inr (n, v) \<and> g v = Inr m"
proof (cases r)
  case (Inr a)
  with assms show ?thesis by (cases a; cases "g (snd a)") auto
qed (use assms in simp)

lemma decode_message_via:
  assumes "message_step P 0 (message_byte P (message_ty m)) (ld_frame P (body_wire P m)) None
      = Inr (Suc (length (ld_frame P (body_wire P m))), Some v)"
    and "message_from_ref P v = Inr (Some m)"
  shows "\<exists>v. decode_message P (wire_message P m) = Inr v \<and> message_from_ref P v = Inr (Some m)"
  using assms by (auto simp: wire_message_def decode_message_one)

lemmas frame_simps = message_step_def message_byte_def wf_message_def wire_simps

lemma decode_message_wire:
  assumes "proto_ok P" "wf_message P m"
  shows "\<exists>v. decode_message P (wire_message P m) = Inr v \<and> message_from_ref P v = Inr (Some m)"
proof (cases m)
  case (Msg_Leave l)
  with assms show ?thesis
    by (intro decode_message_via [of P m "MR_Leave l"])
      (simp_all add: frame_simps decode_leave_wire decode_join_wire decode_user_event_message_wire
        decode_query_response_wire decode_key_request_wire)
next
  case (Msg_Join j)
  with assms show ?thesis
    by (intro decode_message_via [of P m "MR_Join j"])
      (simp_all add: frame_simps decode_leave_wire decode_join_wire decode_user_event_message_wire
        decode_query_response_wire decode_key_request_wire)
next
  case (Msg_UserEvent u)
  with assms show ?thesis
    by (intro decode_message_via [of P m "MR_UserEvent u"])
      (simp_all add: frame_simps decode_leave_wire decode_join_wire decode_user_event_message_wire
        decode_query_response_wire decode_key_request_wire)
next
  case (Msg_QueryResponse r)
  with assms show ?thesis
    by (intro decode_message_via [of P m "MR_QueryResponse r"])
      (simp_all add: frame_simps decode_leave_wire decode_join_wire decode_user_event_message_wire
        decode_query_response_wire decode_key_request_wire)
next
  case (Msg_KeyRequest k)
  with assms show ?thesis
    by (intro decode_message_via [of P m "MR_KeyRequest k"])
      (simp_all add: frame_simps decode_leave_wire decode_join_wire decode_user_event_message_wire
        decode_query_response_wire decode_key_request_wire)
next
  case (Msg_PushPull p)
  with assms obtain v where "decode_push_pull_ref P (wire_push_pull P p) = Inr (length (wire_push_pull P p), v)"
    "push_pull_from_ref P v = Inr p"
    using via_ref [OF decode_push_pull_wire [of P p, unfolded decode_push_pull_def]]
    by (auto simp: wf_message_def)
  with assms Msg_PushPull show ?thesis
    by (intro decode_message_via [of P m "MR_PushPull v"]) (simp_all add: frame_simps)
next
  case (Msg_Query q)
  with assms obtain v where "decode_query_ref P (wire_query P q) = Inr (length (wire_query P q), v)"
    "query_from_ref P v = Inr q"
    using via_ref [OF decode_query_wire [of P q, unfolded decode_query_def]]
    by (auto simp: wf_message_def)
  with assms Msg_Query show ?thesis
    by (intro decode_message_via [of P m "MR_Query v"]) (simp_all add: frame_simps)
next
  case (Msg_ConflictResponse c)
  with assms obtain v where "decode_conflict_ref P (wire_conflict P c) = Inr (length (wire_conflict P c), v)"
    "member_from_ref P v = Inr c"
    using via_ref [OF decode_conflict_wire [of P c, unfolded decode_conflict_def]]
    by (auto simp: wf_message_def)
  with assms Msg_ConflictResponse show ?thesis
    by (intro decode_message_via [of P m "MR_ConflictResponse v"]) (simp_all add: frame_simps)
next
  case (Msg_KeyResponse k)
  with assms obtain v where "decode_key_response_ref P (wire_key_response P k) = Inr (length (wire_key_response P k), v)"
    "key_response_from_ref P v = Inr k"
    using via_ref [OF decode_key_response_wire [of P k, unfolded decode_key_response_def]]
    by (auto simp: wf_message_def)
  with assms Msg_KeyResponse show ?thesis
    by (intro decode_message_via [of P m "MR_KeyResponse v"]) (simp_all add: frame_simps)
qed

end
