(* ===== verification/Wire_Sample.thy ===== *)
theory Wire_Sample
  imports Wire_Base
begin

text \<open>
  A simple instance of the wire primitives that satisfies \<open>proto_ok\<close>: lengths
  and times in unary, single-byte identifiers and addresses. It shows that the
  assumptions on memberlist's primitives can hold together, and the closed
  examples of the development run on it.
\<close>

section \<open>Unary numbers\<close>

definition un :: "nat \<Rightarrow> bytes" where
  "un n = replicate n 1 @ [0]"

definition un_dec :: "bytes \<Rightarrow> decode_error + nat \<times> nat" where
  "un_dec b =
     (let k = length (takeWhile (\<lambda>x. x = 1) b) in
      if k < length b then Inr (Suc k, k) else Inl Buffer_underflow)"

definition bytes_str :: "bytes \<Rightarrow> string" where
  "bytes_str b = map (\<lambda>x. char_of (unat x)) b"

definition sample_merge :: "wire_type \<Rightarrow> u8 \<Rightarrow> u8" where
  "sample_merge w t =
     of_nat ((case w of Byte \<Rightarrow> 0 | Varint \<Rightarrow> 64 | LengthDelimited \<Rightarrow> 128) + unat t)"

definition sample_split :: "bytes \<Rightarrow> decode_error + nat \<times> bytes" where
  "sample_split b =
     bind_res (un_dec b) (\<lambda>(n, k).
       if n + k \<le> length b then Inr (n + k, take k (drop n b)) else Inl Buffer_underflow)"

definition sample_skip :: "bytes \<Rightarrow> decode_error + nat" where
  "sample_skip b =
     (case b of
        [] \<Rightarrow> Inl Buffer_underflow
      | t # r \<Rightarrow>
          if unat t < 64 then Inr 2
          else if unat t < 128 then map_res (\<lambda>(n, k). Suc n) (un_dec r)
          else map_res (\<lambda>(n, k). Suc n) (sample_split r))"

fun sample_rep :: "nat \<Rightarrow> u8 \<Rightarrow> bytes \<Rightarrow> decode_error + bytes list" where
  "sample_rep 0 t b = Inr []"
| "sample_rep (Suc f) t [] = Inr []"
| "sample_rep (Suc f) t (b # r) =
     (if b = sample_merge LengthDelimited t
      then bind_res (sample_split r) (\<lambda>(n, body).
           map_res (Cons body) (sample_rep f t (drop n r)))
      else Inl Decode_custom)"

fun sample_ids :: "bytes \<Rightarrow> decode_error + u8 list" where
  "sample_ids (t # i # r) = map_res (Cons i) (sample_ids r)"
| "sample_ids [t] = Inl Buffer_underflow"
| "sample_ids [] = Inr []"

fun sample_id_iter :: "bytes \<Rightarrow> (decode_error + u8) list" where
  "sample_id_iter (t # i # r) = Inr i # sample_id_iter r"
| "sample_id_iter [t] = [Inl Buffer_underflow]"
| "sample_id_iter [] = []"

definition sample_proto :: "(u8, u8) proto" where
  "sample_proto = \<lparr>
     merge = sample_merge,
     skip = sample_skip,
     u32c = \<lparr>enc = \<lambda>n. un (unat n), dec = \<lambda>b. map_res (\<lambda>(n, k). (n, of_nat k)) (un_dec b)\<rparr>,
     u64c = \<lparr>enc = \<lambda>n. un (unat n), dec = \<lambda>b. map_res (\<lambda>(n, k). (n, of_nat k)) (un_dec b)\<rparr>,
     u8c = \<lparr>enc = \<lambda>n. [n],
       dec = \<lambda>b. case b of [] \<Rightarrow> Inl Buffer_underflow | x # _ \<Rightarrow> Inr (1, x)\<rparr>,
     boolc = \<lparr>enc = \<lambda>v. [if v then 1 else 0],
       dec = \<lambda>b. case b of [] \<Rightarrow> Inl Buffer_underflow | x # _ \<Rightarrow> Inr (1, x \<noteq> 0)\<rparr>,
     durc = \<lparr>enc = un, dec = un_dec\<rparr>,
     idc = \<lparr>enc = \<lambda>n. [n],
       dec = \<lambda>b. case b of [] \<Rightarrow> Inl Buffer_underflow | x # _ \<Rightarrow> Inr (1, x)\<rparr>,
     id_wire = Byte,
     nodec = \<lparr>enc = \<lambda>nd. [node_id nd, node_addr nd],
       dec = \<lambda>b. case b of [i, a] \<Rightarrow> Inr (2, \<lparr>node_id = i, node_addr = a\<rparr>) | _ \<Rightarrow> Inl Decode_custom\<rparr>,
     keyc = \<lparr>enc = \<lambda>k. k, dec = \<lambda>b. Inr (length b, b)\<rparr>,
     tagc = \<lparr>enc = \<lambda>(k, v). un (length k) @ str_bytes k @ str_bytes v,
       dec = \<lambda>b. map_res (\<lambda>(n, k). (length b, bytes_str (take k (drop n b)), bytes_str (drop (n + k) b)))
         (un_dec b)\<rparr>,
     statusc = \<lparr>enc = \<lambda>(i, t). i # un (unat t),
       dec = \<lambda>b. case b of [] \<Rightarrow> Inl Buffer_underflow
         | i # r \<Rightarrow> map_res (\<lambda>(n, k). (Suc n, i, of_nat k)) (un_dec r)\<rparr>,
     ld_split = sample_split,
     rep_ld = \<lambda>t b. sample_rep (length b) t b,
     rep_id = \<lambda>t. sample_ids,
     rep_id_iter = \<lambda>t. sample_id_iter,
     str_dec = \<lambda>b. Inr (bytes_str b),
     utf8 = \<lambda>_. True,
     regex_new = \<lambda>_. True,
     regex_match = (=)\<rparr>"

section \<open>It satisfies the assumptions\<close>

lemma takeWhile_un [simp]: "takeWhile (\<lambda>x. x = 1) (un n @ r) = replicate n 1"
  by (induction n) (auto simp: un_def)

lemma length_un [simp]: "length (un n) = Suc n"
  by (simp add: un_def)

lemma un_dec_un [simp]: "un_dec (un n @ r) = Inr (Suc n, n)" "un_dec (un n) = Inr (Suc n, n)"
  using takeWhile_un [of n "[]"] by (simp_all add: un_dec_def)

lemma unat_of_char: "unat (of_char c :: u8) = of_char c"
proof -
  have "(of_char c :: u8) = of_nat (of_char c)" by (rule of_nat_of_char [symmetric])
  moreover have "(of_char c :: nat) < 256" by (rule nat_of_char_less_256)
  ultimately show ?thesis by (simp add: unat_of_nat)
qed

lemma bytes_str_bytes [simp]: "bytes_str (str_bytes s) = s"
  by (simp add: bytes_str_def str_bytes_def comp_def unat_of_char)

lemma sample_sels [simp]:
  "merge sample_proto = sample_merge" "skip sample_proto = sample_skip"
  "enc (u32c sample_proto) n = un (unat n)" "enc (u64c sample_proto) t = un (unat t)"
  "enc (u8c sample_proto) b = [b]" "enc (boolc sample_proto) v = [if v then 1 else 0]"
  "enc (durc sample_proto) d = un d" "enc (idc sample_proto) i = [i]" "id_wire sample_proto = Byte"
  "enc (nodec sample_proto) nd = [node_id nd, node_addr nd]" "enc (keyc sample_proto) k = k"
  "enc (tagc sample_proto) kv = un (length (fst kv)) @ str_bytes (fst kv) @ str_bytes (snd kv)"
  "enc (statusc sample_proto) st = fst st # un (unat (snd st))"
  "ld_split sample_proto = sample_split"
  "rep_ld sample_proto tg b2 = sample_rep (length b2) tg b2" "rep_id sample_proto tg = sample_ids"
  "str_dec sample_proto b2 = Inr (bytes_str b2)" "utf8 sample_proto s = True"
  "regex_new sample_proto s = True" "regex_match sample_proto = (=)"
  "rep_id_iter sample_proto tg = sample_id_iter"
  by (simp_all add: sample_proto_def split: prod.splits)

lemma sample_frame: "ld_frame sample_proto b = un (unat (of_nat (length b) :: u32)) @ b"
  by (simp add: ld_frame_def)

lemma sample_unat: "fits_u32 b \<Longrightarrow> unat (of_nat (length b) :: u32) = length b"
  by (simp add: fits_u32_def unat_of_nat)

lemma sample_split_frame [simp]:
  "fits_u32 b \<Longrightarrow> sample_split (ld_frame sample_proto b @ r) = Inr (length (ld_frame sample_proto b), b)"
  by (simp add: sample_split_def sample_frame sample_unat)

lemma unat_sample_merge:
  assumes "t < 16"
  shows "unat (sample_merge w t)
    = (case w of Byte \<Rightarrow> 0 | Varint \<Rightarrow> 64 | LengthDelimited \<Rightarrow> 128) + unat t"
proof -
  have "unat t < 16" using assms by (simp add: word_less_nat_alt)
  then show ?thesis unfolding sample_merge_def unat_of_nat by (cases w) simp_all
qed

lemma sample_tags_differ: "tags_differ sample_proto"
proof -
  have "v = w \<and> t = u" if "sample_merge v t = sample_merge w u" "t < 16" "u < 16" for v w t u
  proof -
    have "unat t < 16" "unat u < 16" using that by (simp_all add: word_less_nat_alt)
    with that unat_sample_merge [of t v] unat_sample_merge [of u w] show ?thesis
      by (cases v; cases w) (auto intro: unsigned_word_eqI [where 'a = nat])
  qed
  then show ?thesis by (simp add: tags_differ_def)
qed

lemma sample_skip_ok: "skip_ok sample_proto"
proof -
  have "unat t < 64 \<and> unat t < 128" if "t < 16" for t :: u8
    using that by (simp add: word_less_nat_alt)
  then show ?thesis
    by (auto simp: skip_ok_def sample_skip_def unat_sample_merge)
qed

lemma sample_rep_frames:
  assumes "list_all fits_u32 bs" "length bs \<le> f"
  shows "sample_rep f t (concat (map (\<lambda>b. sample_merge LengthDelimited t # ld_frame sample_proto b) bs))
    = Inr bs"
  using assms
proof (induction bs arbitrary: f)
  case Nil
  then show ?case by (cases f) auto
next
  case (Cons b bs)
  then obtain g where "f = Suc g" by (cases f) auto
  with Cons show ?case by simp
qed

lemma sample_ids_ids: "sample_ids (concat (map (\<lambda>i. [t, i]) is)) = Inr is"
  by (induction "is") auto

lemma sample_rep_ok: "rep_ok sample_proto"
proof -
  have "length bs \<le> length (concat (map (\<lambda>b. sample_merge LengthDelimited t # ld_frame sample_proto b) bs))"
    for t bs
    by (induction bs) auto
  then show ?thesis
    by (auto simp: rep_ok_def sample_ids_ids intro!: sample_rep_frames)
qed

lemma sample_iter_ok: "iter_ok sample_proto"
proof -
  have "sample_ids b = mapM_res (\<lambda>x. x) (sample_id_iter b)" for b
    by (induction b rule: sample_id_iter.induct) (auto split: sum.split)
  then show ?thesis by (simp add: iter_ok_def)
qed

lemma sample_decs [simp]:
  "dec (u32c sample_proto) b = map_res (\<lambda>(n, k). (n, of_nat k)) (un_dec b)"
  "dec (u64c sample_proto) b = map_res (\<lambda>(n, k). (n, of_nat k)) (un_dec b)"
  "dec (boolc sample_proto) (x # r) = Inr (1, x \<noteq> 0)" "dec (u8c sample_proto) (x # r) = Inr (1, x)"
  "dec (durc sample_proto) b = un_dec b" "dec (idc sample_proto) (x # r) = Inr (1, x)"
  "dec (nodec sample_proto) [x, y] = Inr (2, \<lparr>node_id = x, node_addr = y\<rparr>)"
  "dec (keyc sample_proto) b = Inr (length b, b)"
  "dec (tagc sample_proto) b = map_res (\<lambda>(n, k). (length b, bytes_str (take k (drop n b)),
     bytes_str (drop (n + k) b))) (un_dec b)"
  "dec (statusc sample_proto) (x # r) = map_res (\<lambda>(n, k). (Suc n, x, of_nat k)) (un_dec r)"
  by (simp_all add: sample_proto_def)

lemma sample_proto_ok: "proto_ok sample_proto"
proof -
  have "split_ok sample_proto" by (simp add: split_ok_def)
  moreover have "body_codec (\<lambda>(k, v). str_ok sample_proto k \<and> str_ok sample_proto v) (tagc sample_proto)"
    by (auto simp: body_codec_def)
  ultimately show ?thesis
    unfolding proto_ok_def
    by (intro conjI sample_tags_differ sample_skip_ok sample_rep_ok sample_iter_ok)
      (auto simp: stream_codec_def body_codec_def)
qed

end
