(* ===== verification/Wire_Theorems.thy ===== *)
theory Wire_Theorems
  imports Wire_Frame Wire_Sample
begin

text \<open>The properties of the wire format.\<close>

section \<open>Lemmas\<close>

lemma enc_u32_nonempty:
  assumes "proto_ok P"
  shows "enc (u32c P) n \<noteq> []"
proof
  assume "enc (u32c P) n = []"
  with proto_streams(1) [OF assms, of n] have "dec (u32c P) r = Inr (0, n)" for r by simp
  with proto_streams(1) [OF assms, of "n + 1" "[]"] show False by simp
qed

lemma relay_msg_step:
  assumes "proto_ok P" "fits_u32 b"
  shows "relay_step P off (merge P LengthDelimited 2) (idb # ld_frame P b) (nd, None)
    = Inr (Suc (Suc (length (ld_frame P b))), nd, Some (idb # ld_frame P b))"
proof -
  have "unat (of_nat (length b) :: u32) = length b"
    using assms(2) by (simp add: fits_u32_def unat_of_nat)
  moreover have "\<not> length (idb # ld_frame P b) < 2"
    using enc_u32_nonempty [OF assms(1)] by (simp add: ld_frame_def not_less Suc_le_eq)
  ultimately show ?thesis
    using assms by (simp add: ld_frame_def wire_simps Let_def)
qed

lemma decode_relay_wire:
  assumes "proto_ok P" "fits_u32 b" "fits_u32 (enc (nodec P) nd)"
  shows "decode_relay P (merge P LengthDelimited 1 # ld_frame P (enc (nodec P) nd) @
      merge P LengthDelimited 2 # idb # ld_frame P b)
    = Inr (3 + length (ld_frame P (enc (nodec P) nd)) + length (ld_frame P b), nd, idb # ld_frame P b)"
  using assms relay_msg_step [OF assms(1,2)]
  by (simp add: decode_relay_def or_default_def wire_simps del: relay_step.simps)
    (simp add: wire_simps)

lemma relay_panic_step:
  assumes "proto_ok P" "length rest < unat n"
  shows "relay_step P off (merge P LengthDelimited 2) (idb # enc (u32c P) n @ rest) (nd, None)
    = Inl Decode_panic"
proof -
  have "\<not> length (idb # enc (u32c P) n @ rest) < 2"
    using enc_u32_nonempty [OF assms(1)] by (cases "enc (u32c P) n") auto
  then show ?thesis using assms by (simp add: wire_simps Let_def)
qed

lemma encode_member_short:
  assumes wf: "wf_member P m" and len: "length buf + 1 = encoded_len_member P m"
  shows "encode_member P m buf = Inl Encode_panic"
proof -
  define v where "v = u8_of_delegate_version (m_delegate_version m)"
  define ops where "ops = [put_byte (merge P LengthDelimited 1), put_ld_bytes P (enc (nodec P) (m_node m)),
        put_byte (merge P LengthDelimited 2),
        put_ld P (encoded_len_tags P (m_tags m)) (encode_tags P (m_tags m)),
        put_byte (merge P Byte 3), put_byte (u8_of_member_status (m_status m)),
        put_byte (merge P Byte 4), put_byte (m_ml_protocol_version m),
        put_byte (merge P Byte 5), put_byte (m_ml_delegate_version m),
        put_byte (merge P Byte 6), put_byte (u8_of_protocol_version (m_protocol_version m)),
        put_byte (merge P Byte 7)]"
  define w where "w = merge P LengthDelimited 1 # ld_frame P (enc (nodec P) (m_node m)) @
     merge P LengthDelimited 2 # ld_frame P (wire_tags P (m_tags m)) @
     [merge P Byte 3, u8_of_member_status (m_status m),
      merge P Byte 4, m_ml_protocol_version m, merge P Byte 5, m_ml_delegate_version m,
      merge P Byte 6, u8_of_protocol_version (m_protocol_version m), merge P Byte 7]"
  have "emits True ops w"
    unfolding ops_def w_def
    by (intro emit_intros emits_Cons [OF tags_codec.put_ld_writes_full])
      (use wf in \<open>simp_all add: wf_member_def\<close>)
  moreover have w: "length w = length buf"
    using len member_codec.encoded_len_wire [OF wf] by (simp add: wire_member_def w_def)
  ultimately have "run_enc ops (buf, 0) = Inr (w, length w)"
    by (simp add: emits_run [of True] blit_def)
  moreover have "encode_member P m buf = run_enc (ops @ [put_byte_unchecked v]) (buf, 0)"
    by (simp only: encode_member_def ops_def v_def append_Cons append_Nil)
  ultimately show ?thesis by (simp add: run_enc_append)
qed

lemma encode_conflict_short:
  assumes wf: "wf_conflict P m" and len: "length buf + 1 = encoded_len_conflict P m"
  shows "encode_conflict P m buf = Inl Encode_panic"
proof -
  define n where "n = encoded_len_member P m"
  define u where "u = enc (u32c P) (of_nat n :: u32)"
  have n: "n < 2 ^ 32" "0 < n"
    using wf member_codec.encoded_len_wire [of P m]
    by (simp_all add: n_def wf_conflict_def fits_u32_def wire_member_def)
  have buf: "length buf = length u + n"
    using len by (simp add: encoded_len_conflict_def ld_len_def n_def u_def)
  then have "encode_member P m (drop (Suc (length u)) buf) = Inl Encode_panic"
    using wf n by (intro encode_member_short) (simp_all add: wf_conflict_def n_def)
  then show ?thesis
    using n buf
    by (cases buf)
      (simp_all add: encode_conflict_def put_ld_def n_def [symmetric] u_def [symmetric] blit_def)
qed


section \<open>Sample messages\<close>

definition sample_query :: "(u8, u8) query_message" where
  "sample_query = \<lparr>qm_ltime = 3, qm_id = 5, qm_from = \<lparr>node_id = 7, node_addr = 9\<rparr>,
     qm_filters = [Filter_Id [1, 2], Filter_Tag \<lparr>tf_tag = ''dc'', tf_expr = Some ''e.*''\<rparr>],
     qm_flags = 1, qm_relay_factor = 2, qm_timeout = 4, qm_name = ''ps'', qm_payload = [8]\<rparr>"

definition sample_member :: "(u8, u8) member" where
  "sample_member = \<lparr>m_node = \<lparr>node_id = 7, node_addr = 9\<rparr>, m_tags = [(''dc'', ''e'')],
     m_status = Alive, m_ml_protocol_version = 1, m_ml_delegate_version = 1,
     m_protocol_version = PV1, m_delegate_version = DV1\<rparr>"

lemma sample_query_wf: "wf_message sample_proto (Msg_Query sample_query)"
  by (simp add: wf_message_def wf_query_def sample_query_def wf_tag_filter_def str_ok_def fits_u32_def
      wire_tag_filter_def wire_query_def sample_frame dur_ok_def flag_truncate_def query_flag_ack_def
      query_flag_no_broadcast_def str_bytes_def unat_of_nat)

lemma sample_member_wf: "wf_conflict sample_proto sample_member"
  by (simp add: wf_conflict_def wf_member_def sample_member_def wf_tags_def str_ok_def fits_u32_def
      wire_tags_def wire_member_def sample_frame canonical_status_def canonical_protocol_version_def
      canonical_delegate_version_def str_bytes_def unat_of_nat)

section \<open>Properties\<close>

text \<open>
  C1. Every well-formed message survives the wire: \<open>encode_message_to_bytes\<close>
  succeeds on it, and \<open>decode_message\<close> with the \<open>from_ref\<close> of its kind gives the
  message back, for leave, join, push/pull, user event, query, query response,
  conflict response, key request and key response messages.
\<close>

theorem message_round_trip:
  assumes "proto_ok P" "wf_message P m"
  shows "\<exists>bs v. message_to_bytes P m = Inr bs \<and> decode_message P bs = Inr v
    \<and> message_from_ref P v = Inr (Some m)"
  using assms message_to_bytes_wire decode_message_wire by blast

theorem message_round_trip_witness:
  "\<exists>bs v. message_to_bytes sample_proto (Msg_Query sample_query) = Inr bs
    \<and> decode_message sample_proto bs = Inr v
    \<and> message_from_ref sample_proto v = Inr (Some (Msg_Query sample_query))"
  by (rule message_round_trip [OF sample_proto_ok sample_query_wf])

text \<open>
  C2. Relaying: the packet that wraps a message for a node decodes to a relay
  message with that node, and what it asks to forward, read at the offset the
  decoder reports, is exactly the packet of the wrapped message.
\<close>

theorem relay_round_trip:
  assumes "proto_ok P" "wf_message P m" "fits_u32 (enc (nodec P) nd)"
  shows "\<exists>bs inner off. relay_to_bytes P m nd = Inr bs \<and> message_to_bytes P m = Inr inner
    \<and> decode_message P bs = Inr (MR_Relay nd off inner) \<and> drop off bs = inner"
proof -
  let ?f = "ld_frame P (enc (nodec P) nd)"
  let ?b = "ld_frame P (body_wire P m)"
  have fits: "fits_u32 (body_wire P m)" using assms(2) by (simp add: wf_message_def)
  have "message_step P 0 (message_byte P MT_Relay) (merge P LengthDelimited 1 # ?f @
      merge P LengthDelimited 2 # message_byte P (message_ty m) # ?b) None
    = Inr (Suc (3 + length ?f + length ?b), Some (MR_Relay nd (3 + length ?f) (wire_message P m)))"
    using assms(1) decode_relay_wire [OF assms(1) fits assms(3), of "message_byte P (message_ty m)"]
    by (simp add: message_step_def wire_message_def message_byte_def wire_simps)
  then have "decode_message P (wire_relay P m nd) = Inr (MR_Relay nd (3 + length ?f) (wire_message P m))"
    unfolding wire_relay_def wire_message_def by (intro decode_message_one) simp
  moreover have "drop (3 + length ?f) (wire_relay P m nd) = wire_message P m"
    by (simp add: wire_relay_def numeral_3_eq_3)
  ultimately show ?thesis
    using assms by (auto simp: relay_to_bytes_wire message_to_bytes_wire)
qed

theorem relay_round_trip_witness:
  "\<exists>bs inner off. relay_to_bytes sample_proto (Msg_Query sample_query) \<lparr>node_id = 4, node_addr = 6\<rparr> = Inr bs
    \<and> message_to_bytes sample_proto (Msg_Query sample_query) = Inr inner
    \<and> decode_message sample_proto bs = Inr (MR_Relay \<lparr>node_id = 4, node_addr = 6\<rparr> off inner)
    \<and> drop off bs = inner"
  by (rule relay_round_trip [OF sample_proto_ok sample_query_wf]) (simp add: fits_u32_def)



text \<open>
  A conflict response is the exception: its last byte, the delegate version
  of the member, is stored without a check, so a buffer that is one byte short
  makes \<open>encode\<close> panic instead of returning the error.
\<close>

theorem encode_conflict_panics:
  assumes "wf_conflict P m" "length buf + 1 = encoded_len_conflict P m"
  shows "encode_conflict P m buf = Inl Encode_panic"
  using encode_conflict_short assms by blast

theorem encode_conflict_panics_witness:
  "encode_conflict sample_proto sample_member
     (replicate (encoded_len_conflict sample_proto sample_member - 1) 0) = Inl Encode_panic"
  by (rule encode_conflict_panics [OF sample_member_wf]) (simp add: encoded_len_conflict_def)

text \<open>
  C4. A relay packet whose inner length runs past the end of the packet makes
  \<open>decode_message\<close> slice out of range, which is a panic: the length is added to
  the offset without a bounds check.
\<close>

theorem decode_relay_panics:
  assumes "proto_ok P" "length rest < unat n"
  shows "decode_message P
    (message_byte P MT_Relay # merge P LengthDelimited 2 # idb # enc (u32c P) n @ rest) = Inl Decode_panic"
  using assms relay_panic_step [OF assms]
  by (simp add: decode_message_def message_step_def message_byte_def decode_relay_def wire_simps
      del: relay_step.simps)

theorem decode_relay_panics_witness:
  "decode_message sample_proto
    (message_byte sample_proto MT_Relay # merge sample_proto LengthDelimited 2 # 1 #
     enc (u32c sample_proto) 2 @ [7]) = Inl Decode_panic"
  by (rule decode_relay_panics [OF sample_proto_ok]) simp

text \<open>
  What \<open>local_state\<close> sends: encoding the borrowed push/pull state, whose event
  buffer may have empty slots, gives the bytes, the length and the errors of
  encoding the owned message with the empty slots left out, for every buffer.
\<close>

theorem push_pull_borrow_encoding:
  "encode_push_pull_in P m buf = encode_push_pull P (push_pull_owned m) buf
   \<and> encoded_len_push_pull_in P m = encoded_len_push_pull P (push_pull_owned m)"
  by (simp add: encode_push_pull_in_owned)

end
