(* ===== verification/Float64.thy ===== *)
theory Float64
  imports Serf_Prelude
begin

text \<open>
  The arithmetic of Rust's \<open>f64\<close>: IEEE 754 binary64 values as their 64 bits,
  with rounding to the nearest value and ties to the even one. A value is read
  as a sign, an integer significand and a power of two; an operation computes
  the exact result as a fraction and rounds it. All computation is on integers,
  so that the operations evaluate. Which of its many representations a NaN has
  is not kept: the operations give the canonical one.
\<close>

type_synonym f64 = u64

section \<open>Representation\<close>

datatype fval = F_nan | F_inf bool | F_num bool int int

definition f64_sign :: "f64 \<Rightarrow> bool" where
  "f64_sign x \<longleftrightarrow> 2 ^ 63 \<le> uint x"

definition f64_exponent :: "f64 \<Rightarrow> int" where
  "f64_exponent x = uint x div 2 ^ 52 mod 2 ^ 11"

definition f64_fraction :: "f64 \<Rightarrow> int" where
  "f64_fraction x = uint x mod 2 ^ 52"

definition f64_val :: "f64 \<Rightarrow> fval" where
  "f64_val x =
     (if f64_exponent x = 2047 then (if f64_fraction x = 0 then F_inf (f64_sign x) else F_nan)
      else if f64_exponent x = 0 then F_num (f64_sign x) (f64_fraction x) (- 1074)
      else F_num (f64_sign x) (2 ^ 52 + f64_fraction x) (f64_exponent x - 1075))"

definition is_finite :: "f64 \<Rightarrow> bool" where
  "is_finite x \<longleftrightarrow> f64_exponent x \<noteq> 2047"

definition f64_pack :: "bool \<Rightarrow> int \<Rightarrow> f64" where
  "f64_pack s b = word_of_int (if s then 2 ^ 63 + b else b)"

definition f64_nan :: f64 where
  "f64_nan = 0x7FF8000000000000"

definition f64_inf :: "bool \<Rightarrow> f64" where
  "f64_inf s = f64_pack s (2047 * 2 ^ 52)"

section \<open>Rounding\<close>

function bit_length :: "int \<Rightarrow> int" where
  "bit_length n = (if n \<le> 0 then 0 else 1 + bit_length (n div 2))"
  by pat_completeness auto
termination
  by (relation "measure nat") auto

declare bit_length.simps [simp del]

text \<open>
  The value nearest to \<open>n / d\<close>, for \<open>0 < d\<close>. \<open>e\<close> is the binary logarithm of the
  fraction rounded down, \<open>q\<close> the exponent of the last bit of the result; adding
  the significand to the exponent carries into it when rounding up does.
\<close>

definition f64_round :: "bool \<Rightarrow> int \<Rightarrow> int \<Rightarrow> f64" where
  "f64_round s n d =
     (if n \<le> 0 then f64_pack s 0
      else
        (let k = bit_length n - bit_length d;
             e = (if (if 0 \<le> k then d * 2 ^ nat k \<le> n else d \<le> n * 2 ^ nat (- k)) then k else k - 1);
             q = max (e - 52) (- 1074);
             num = (if q < 0 then n * 2 ^ nat (- q) else n);
             den = (if 0 < q then d * 2 ^ nat q else d);
             m = num div den;
             r = num mod den;
             m = (if den < 2 * r \<or> den = 2 * r \<and> odd m then m + 1 else m)
         in f64_pack s (min ((q + 1074) * 2 ^ 52 + m) (2047 * 2 ^ 52))))"

text \<open>\<open>m * 2 ^ e\<close>, and decimal literals.\<close>

definition f64_scale :: "bool \<Rightarrow> int \<Rightarrow> int \<Rightarrow> f64" where
  "f64_scale s m e =
     (if 0 \<le> e then f64_round s (m * 2 ^ nat e) 1 else f64_round s m (2 ^ nat (- e)))"

definition f64_lit :: "int \<Rightarrow> int \<Rightarrow> f64" where
  "f64_lit n d = f64_round False n d"

section \<open>Operations\<close>

text \<open>Adding \<open>2 ^ 63\<close> modulo \<open>2 ^ 64\<close> flips the sign bit.\<close>

definition f64_neg :: "f64 \<Rightarrow> f64" where
  "f64_neg x = x + 2 ^ 63"

definition f64_abs :: "f64 \<Rightarrow> f64" where
  "f64_abs x = (if f64_sign x then f64_neg x else x)"

definition signed_int :: "bool \<Rightarrow> int \<Rightarrow> int" where
  "signed_int s m = (if s then - m else m)"

definition f64_add :: "f64 \<Rightarrow> f64 \<Rightarrow> f64" where
  "f64_add x y =
     (case (f64_val x, f64_val y) of
        (F_num s m e, F_num t n f) \<Rightarrow>
          (let g = min e f;
               z = signed_int s (m * 2 ^ nat (e - g)) + signed_int t (n * 2 ^ nat (f - g))
           in if z = 0 then f64_pack (s \<and> t) 0 else f64_scale (z < 0) \<bar>z\<bar> g)
      | (F_inf s, F_inf t) \<Rightarrow> if s = t then f64_inf s else f64_nan
      | (F_inf s, F_num _ _ _) \<Rightarrow> f64_inf s
      | (F_num _ _ _, F_inf t) \<Rightarrow> f64_inf t
      | _ \<Rightarrow> f64_nan)"

definition f64_sub :: "f64 \<Rightarrow> f64 \<Rightarrow> f64" where
  "f64_sub x y = f64_add x (f64_neg y)"

definition f64_mul :: "f64 \<Rightarrow> f64 \<Rightarrow> f64" where
  "f64_mul x y =
     (case (f64_val x, f64_val y) of
        (F_num s m e, F_num t n f) \<Rightarrow> f64_scale (s \<noteq> t) (m * n) (e + f)
      | (F_inf s, F_inf t) \<Rightarrow> f64_inf (s \<noteq> t)
      | (F_inf s, F_num t n f) \<Rightarrow> if n = 0 then f64_nan else f64_inf (s \<noteq> t)
      | (F_num s m e, F_inf t) \<Rightarrow> if m = 0 then f64_nan else f64_inf (s \<noteq> t)
      | _ \<Rightarrow> f64_nan)"

definition f64_div :: "f64 \<Rightarrow> f64 \<Rightarrow> f64" where
  "f64_div x y =
     (case (f64_val x, f64_val y) of
        (F_num s m e, F_num t n f) \<Rightarrow>
          if n = 0 then (if m = 0 then f64_nan else f64_inf (s \<noteq> t))
          else f64_round (s \<noteq> t) (m * 2 ^ nat (e - min e f)) (n * 2 ^ nat (f - min e f))
      | (F_inf s, F_inf t) \<Rightarrow> f64_nan
      | (F_inf s, F_num t n f) \<Rightarrow> f64_inf (s \<noteq> t)
      | (F_num s m e, F_inf t) \<Rightarrow> f64_pack (s \<noteq> t) 0
      | _ \<Rightarrow> f64_nan)"

function isqrt :: "int \<Rightarrow> int" where
  "isqrt n =
     (if n \<le> 0 then 0
      else (let r = 2 * isqrt (n div 4) in if (r + 1) * (r + 1) \<le> n then r + 1 else r))"
  by pat_completeness auto
termination
  by (relation "measure nat") auto

declare isqrt.simps [simp del]

text \<open>The root of \<open>m * 2 ^ e\<close>, from the integer root of a multiple with at least
  55 bits; the last bit tells whether the root is exact.\<close>

definition f64_sqrt :: "f64 \<Rightarrow> f64" where
  "f64_sqrt x =
     (case f64_val x of
        F_num s m e \<Rightarrow>
          if m = 0 then x
          else if s then f64_nan
          else
            (let t = 112 + e mod 2;
                 v = m * 2 ^ nat t;
                 r = isqrt v
             in f64_scale False (2 * r + (if r * r = v then 0 else 1)) ((e - t) div 2 - 1))
      | F_inf s \<Rightarrow> if s then f64_nan else x
      | F_nan \<Rightarrow> f64_nan)"

definition f64_lt :: "f64 \<Rightarrow> f64 \<Rightarrow> bool" where
  "f64_lt x y =
     (case (f64_val x, f64_val y) of
        (F_num s m e, F_num t n f) \<Rightarrow>
          signed_int s (m * 2 ^ nat (e - min e f)) < signed_int t (n * 2 ^ nat (f - min e f))
      | (F_inf s, F_inf t) \<Rightarrow> s \<and> \<not> t
      | (F_inf s, F_num _ _ _) \<Rightarrow> s
      | (F_num _ _ _, F_inf t) \<Rightarrow> \<not> t
      | _ \<Rightarrow> False)"

text \<open>\<open>max\<close> and \<open>min\<close> give the other operand for a NaN; of two zeros either may
  be given.\<close>

definition f64_max :: "f64 \<Rightarrow> f64 \<Rightarrow> f64" where
  "f64_max x y =
     (if f64_val x = F_nan then y else if f64_val y = F_nan then x else if f64_lt x y then y else x)"

definition f64_min :: "f64 \<Rightarrow> f64 \<Rightarrow> f64" where
  "f64_min x y =
     (if f64_val x = F_nan then y else if f64_val y = F_nan then x else if f64_lt y x then y else x)"

definition f64_recip :: "f64 \<Rightarrow> f64" where
  "f64_recip x = f64_div (f64_lit 1 1) x"

text \<open>The cast \<open>as u64\<close> truncates and saturates, and takes NaN to 0; the cast of
  an integer rounds.\<close>

definition f64_as_u64 :: "f64 \<Rightarrow> u64" where
  "f64_as_u64 x =
     (case f64_val x of
        F_num s m e \<Rightarrow>
          if s then 0
          else word_of_int (min (if 0 \<le> e then m * 2 ^ nat e else m div 2 ^ nat (- e)) (2 ^ 64 - 1))
      | F_inf s \<Rightarrow> if s then 0 else - 1
      | F_nan \<Rightarrow> 0)"

definition f64_of_nat :: "nat \<Rightarrow> f64" where
  "f64_of_nat n = f64_lit (int n) 1"

end
