(* ===== verification/Coordinates.thy ===== *)
theory Coordinates
  imports Float64
begin

text \<open>
  Network coordinates (\<open>types/coordinate.rs\<close>): the Vivaldi coordinate of a node
  and the client that moves it when round trip times to other nodes are
  observed.

  A \<open>Duration\<close> is its number of nanoseconds. \<open>rand_f64\<close> is an argument: \<open>rnd i\<close>
  is the number drawn for dimension \<open>i\<close>. So is \<open>powf\<close>, whose precision Rust does
  not specify. A function that can panic (a failed assertion, an index out of
  range) returns \<open>Inl\<close>.
\<close>

section \<open>Coordinates\<close>

record coordinate_options =
  copt_dimensionality :: nat
  copt_vivaldi_error_max :: f64
  copt_vivaldi_ce :: f64
  copt_vivaldi_cc :: f64
  copt_adjustment_window_size :: nat
  copt_height_min :: f64
  copt_latency_filter_size :: nat
  copt_gravity_rho :: f64

definition coordinate_options_new :: coordinate_options where
  "coordinate_options_new =
     \<lparr>copt_dimensionality = 8, copt_vivaldi_error_max = f64_lit 15 10, copt_vivaldi_ce = f64_lit 25 100,
      copt_vivaldi_cc = f64_lit 25 100, copt_adjustment_window_size = 20,
      copt_height_min = f64_lit 10 1000000, copt_latency_filter_size = 3, copt_gravity_rho = f64_lit 150 1\<rparr>"

record coordinate =
  co_portion :: "f64 list"
  co_error :: f64
  co_adjustment :: f64
  co_height :: f64

definition coordinate_with_options :: "coordinate_options \<Rightarrow> coordinate" where
  "coordinate_with_options opts =
     \<lparr>co_portion = replicate (copt_dimensionality opts) 0, co_error = copt_vivaldi_error_max opts,
      co_adjustment = 0, co_height = copt_height_min opts\<rparr>"

definition coordinate_new :: coordinate where
  "coordinate_new = coordinate_with_options coordinate_options_new"

definition is_valid :: "coordinate \<Rightarrow> bool" where
  "is_valid c \<longleftrightarrow> list_all is_finite (co_portion c) \<and> is_finite (co_error c) \<and>
     is_finite (co_adjustment c) \<and> is_finite (co_height c)"

definition is_compatible_with :: "coordinate \<Rightarrow> coordinate \<Rightarrow> bool" where
  "is_compatible_with c other \<longleftrightarrow> length (co_portion c) = length (co_portion other)"

section \<open>Vectors\<close>

definition zero_threshold :: f64 where
  "zero_threshold = f64_lit 1 1000000"

definition add_in_place :: "f64 list \<Rightarrow> f64 list \<Rightarrow> f64 list" where
  "add_in_place v w = map2 f64_add v w @ drop (length w) v"

definition diff :: "f64 list \<Rightarrow> f64 list \<Rightarrow> f64 list" where
  "diff v w = map2 f64_sub v w"

definition mul_in_place :: "f64 list \<Rightarrow> f64 \<Rightarrow> f64 list" where
  "mul_in_place v factor = map (\<lambda>x. f64_mul x factor) v"

definition magnitude_in_place :: "f64 list \<Rightarrow> f64" where
  "magnitude_in_place v = f64_sqrt (fold (\<lambda>x acc. f64_add acc (f64_mul x x)) v 0)"

definition unit_vector_at :: "(nat \<Rightarrow> f64) \<Rightarrow> f64 list \<Rightarrow> f64 list \<Rightarrow> panic + f64 list \<times> f64" where
  "unit_vector_at rnd v w =
     (let ret = diff v w;
          mag = magnitude_in_place ret
      in if f64_lt zero_threshold mag then Inr (mul_in_place ret (f64_recip mag), mag)
         else
           (let ret = map (\<lambda>i. f64_sub (rnd i) (f64_lit 1 2)) [0..<length ret];
                mag = magnitude_in_place ret
            in if f64_lt zero_threshold mag then Inr (mul_in_place ret (f64_recip mag), 0)
               else if ret = [] then Inl Index_out_of_bounds
               else Inr ((replicate (length ret) 0)[0 := f64_lit 1 1], 0)))"

section \<open>Forces and distances\<close>

definition apply_force_in_place ::
  "(nat \<Rightarrow> f64) \<Rightarrow> f64 \<Rightarrow> f64 \<Rightarrow> coordinate \<Rightarrow> coordinate \<Rightarrow> panic + coordinate" where
  "apply_force_in_place rnd height_min force other c =
     (if \<not> is_compatible_with c other then Inl Explicit_panic
      else map_res (\<lambda>(unit, mag).
        (let c = c\<lparr>co_portion := add_in_place (co_portion c) (mul_in_place unit force)\<rparr>
         in if f64_lt zero_threshold mag then
              (let h = f64_add (f64_div (f64_mul (f64_add (co_height c) (co_height other)) force) mag) (co_height c)
               in c\<lparr>co_height := f64_max h height_min\<rparr>)
            else c))
        (unit_vector_at rnd (co_portion c) (co_portion other)))"

text \<open>\<open>apply_force\<close> works on a clone.\<close>

definition apply_force ::
  "(nat \<Rightarrow> f64) \<Rightarrow> f64 \<Rightarrow> f64 \<Rightarrow> coordinate \<Rightarrow> coordinate \<Rightarrow> panic + coordinate" where
  "apply_force rnd height_min force other c =
     (if \<not> is_compatible_with c other then Inl Explicit_panic
      else bind_res (unit_vector_at rnd (co_portion c) (co_portion other)) (\<lambda>(unit, mag).
        (let ret = c\<lparr>co_portion := add_in_place (co_portion c) (mul_in_place unit force)\<rparr>
         in if f64_lt zero_threshold mag then
              (let h = f64_add (f64_div (f64_mul (f64_add (co_height ret) (co_height other)) force) mag) (co_height ret)
               in Inr (ret\<lparr>co_height := f64_max h height_min\<rparr>))
            else Inr ret)))"

definition raw_distance_to :: "coordinate \<Rightarrow> coordinate \<Rightarrow> f64" where
  "raw_distance_to c other =
     f64_add (f64_add (magnitude_in_place (diff (co_portion c) (co_portion other))) (co_height c))
       (co_height other)"

definition distance_to :: "coordinate \<Rightarrow> coordinate \<Rightarrow> panic + nat" where
  "distance_to c other =
     (if \<not> is_compatible_with c other then Inl Explicit_panic
      else
        (let dist = raw_distance_to c other;
             adjusted_dist = f64_add (f64_add dist (co_adjustment c)) (co_adjustment other);
             dist = (if f64_lt 0 adjusted_dist then adjusted_dist else dist)
         in Inr (unat (f64_as_u64 (f64_mul dist (f64_lit 1000000000 1))))))"

definition as_secs :: "nat \<Rightarrow> nat" where
  "as_secs d = d div 1000000000"

definition as_secs_f64 :: "nat \<Rightarrow> f64" where
  "as_secs_f64 d =
     f64_add (f64_of_nat (as_secs d)) (f64_div (f64_of_nat (d mod 1000000000)) (f64_lit 1000000000 1))"

section \<open>The client\<close>

record 'i coordinate_client =
  cl_coord :: coordinate
  cl_origin :: coordinate
  cl_opts :: coordinate_options
  cl_adjustment_index :: nat
  cl_adjustment_samples :: "f64 list"
  cl_latency_filter_samples :: "('i, f64 list) hash_map"
  cl_resets :: nat

definition coordinate_client_new :: "'i coordinate_client" where
  "coordinate_client_new =
     \<lparr>cl_coord = coordinate_new, cl_origin = coordinate_new, cl_opts = coordinate_options_new,
      cl_adjustment_index = 0, cl_adjustment_samples = replicate 20 0, cl_latency_filter_samples = [],
      cl_resets = 0\<rparr>"

definition coordinate_client_with_options :: "coordinate_options \<Rightarrow> 'i coordinate_client" where
  "coordinate_client_with_options opts =
     \<lparr>cl_coord = coordinate_with_options opts, cl_origin = coordinate_with_options opts, cl_opts = opts,
      cl_adjustment_index = 0, cl_adjustment_samples = replicate (copt_adjustment_window_size opts) 0,
      cl_latency_filter_samples = [], cl_resets = 0\<rparr>"

datatype coordinate_error = Dimensionality_mismatch | Invalid_coordinate | Invalid_rtt nat

definition get_coordinate :: "'i coordinate_client \<Rightarrow> coordinate" where
  "get_coordinate cl = cl_coord cl"

definition check_coordinate :: "coordinate \<Rightarrow> coordinate \<Rightarrow> coordinate_error + unit" where
  "check_coordinate c coord =
     (if \<not> is_compatible_with c coord then Inl Dimensionality_mismatch
      else if \<not> is_valid coord then Inl Invalid_coordinate
      else Inr ())"

definition set_coordinate ::
  "coordinate \<Rightarrow> 'i coordinate_client \<Rightarrow> (coordinate_error + unit) \<times> 'i coordinate_client" where
  "set_coordinate coord cl =
     (case check_coordinate (cl_coord cl) coord of
        Inl e \<Rightarrow> (Inl e, cl)
      | Inr _ \<Rightarrow> (Inr (), cl\<lparr>cl_coord := coord\<rparr>))"

definition client_distance_to :: "coordinate \<Rightarrow> 'i coordinate_client \<Rightarrow> panic + nat" where
  "client_distance_to coord cl = distance_to (cl_coord cl) coord"

definition forget_node :: "'i \<Rightarrow> 'i coordinate_client \<Rightarrow> 'i coordinate_client" where
  "forget_node nid cl =
     cl\<lparr>cl_latency_filter_samples := AList.delete nid (cl_latency_filter_samples cl)\<rparr>"

definition update_gravity ::
  "(f64 \<Rightarrow> f64 \<Rightarrow> f64) \<Rightarrow> (nat \<Rightarrow> f64) \<Rightarrow> 'i coordinate_client \<Rightarrow> panic + 'i coordinate_client" where
  "update_gravity powf rnd cl =
     bind_res (distance_to (cl_origin cl) (cl_coord cl)) (\<lambda>d.
       (let dist = as_secs d;
            force = f64_neg (powf (f64_div (f64_of_nat dist) (copt_gravity_rho (cl_opts cl))) (f64_lit 2 1))
        in map_res (\<lambda>c. cl\<lparr>cl_coord := c\<rparr>)
             (apply_force_in_place rnd (copt_height_min (cl_opts cl)) force (cl_origin cl) (cl_coord cl))))"

text \<open>The samples are sorted by the partial order of floats; the samples are
  durations, so none is NaN.\<close>

fun insert_f64 :: "f64 \<Rightarrow> f64 list \<Rightarrow> f64 list" where
  "insert_f64 x [] = [x]"
| "insert_f64 x (y # ys) = (if f64_lt y x then y # insert_f64 x ys else x # y # ys)"

definition sort_f64 :: "f64 list \<Rightarrow> f64 list" where
  "sort_f64 xs = foldr insert_f64 xs []"

definition latency_filter ::
  "'i \<Rightarrow> f64 \<Rightarrow> 'i coordinate_client \<Rightarrow> panic + f64 \<times> 'i coordinate_client" where
  "latency_filter node rtt_seconds cl =
     (let old = (case map_of (cl_latency_filter_samples cl) node of None \<Rightarrow> [] | Some xs \<Rightarrow> xs);
          samples = old @ [rtt_seconds];
          samples = (if copt_latency_filter_size (cl_opts cl) < length samples then tl samples else samples);
          tmp = sort_f64 samples;
          cl = cl\<lparr>cl_latency_filter_samples := AList.update node samples (cl_latency_filter_samples cl)\<rparr>
      in if length tmp div 2 < length tmp then Inr (tmp ! (length tmp div 2), cl)
         else Inl Index_out_of_bounds)"

definition update_vivaldi ::
  "(nat \<Rightarrow> f64) \<Rightarrow> coordinate \<Rightarrow> f64 \<Rightarrow> 'i coordinate_client \<Rightarrow> panic + 'i coordinate_client" where
  "update_vivaldi rnd other rtt_seconds cl =
     bind_res (distance_to (cl_coord cl) other) (\<lambda>d.
       (let dist = as_secs_f64 d;
            rtt_seconds = f64_max rtt_seconds zero_threshold;
            wrongness = f64_abs (f64_div (f64_sub dist rtt_seconds) rtt_seconds);
            total_error = f64_max (f64_add (co_error (cl_coord cl)) (co_error other)) zero_threshold;
            weight = f64_div (co_error (cl_coord cl)) total_error;
            ce = copt_vivaldi_ce (cl_opts cl);
            coord = (cl_coord cl)\<lparr>co_error := f64_min
                (f64_add (f64_mul (f64_mul ce weight) wrongness)
                  (f64_mul (co_error (cl_coord cl)) (f64_sub (f64_lit 1 1) (f64_mul ce weight))))
                (copt_vivaldi_error_max (cl_opts cl))\<rparr>;
            force = f64_mul (f64_mul (copt_vivaldi_cc (cl_opts cl)) weight) (f64_sub rtt_seconds dist)
        in map_res (\<lambda>c. cl\<lparr>cl_coord := c\<rparr>)
             (apply_force_in_place rnd (copt_height_min (cl_opts cl)) force other coord)))"

text \<open>A sum of floats starts from \<open>-0.0\<close>.\<close>

definition f64_sum :: "f64 list \<Rightarrow> f64" where
  "f64_sum xs = fold (\<lambda>x acc. f64_add acc x) xs (f64_neg 0)"

definition update_adjustment ::
  "coordinate \<Rightarrow> f64 \<Rightarrow> 'i coordinate_client \<Rightarrow> panic + 'i coordinate_client" where
  "update_adjustment other rtt_seconds cl =
     (let window = copt_adjustment_window_size (cl_opts cl)
      in if window = 0 then Inr cl
         else
           (let dist = raw_distance_to (cl_coord cl) other
            in if length (cl_adjustment_samples cl) \<le> cl_adjustment_index cl then Inl Index_out_of_bounds
               else
                 (let samples = (cl_adjustment_samples cl)[cl_adjustment_index cl := f64_sub rtt_seconds dist]
                  in Inr (cl\<lparr>cl_adjustment_samples := samples,
                             cl_adjustment_index := (cl_adjustment_index cl + 1) mod window,
                             cl_coord := (cl_coord cl)\<lparr>co_adjustment :=
                               f64_div (f64_sum samples) (f64_mul (f64_lit 2 1) (f64_of_nat window))\<rparr>\<rparr>))))"

definition max_rtt :: nat where
  "max_rtt = 10 * 1000000000"

text \<open>\<open>rnd 0\<close> and \<open>rnd 1\<close> are the numbers drawn by the two forces.\<close>

definition client_update ::
  "(f64 \<Rightarrow> f64 \<Rightarrow> f64) \<Rightarrow> (nat \<Rightarrow> nat \<Rightarrow> f64) \<Rightarrow> 'i \<Rightarrow> coordinate \<Rightarrow> nat \<Rightarrow> 'i coordinate_client
   \<Rightarrow> panic + (coordinate_error + coordinate) \<times> 'i coordinate_client" where
  "client_update powf rnd node other rtt cl =
     (case check_coordinate (cl_coord cl) other of
        Inl e \<Rightarrow> Inr (Inl e, cl)
      | Inr _ \<Rightarrow>
          if max_rtt < rtt then Inr (Inl (Invalid_rtt rtt), cl)
          else
            bind_res (latency_filter node (as_secs_f64 rtt) cl) (\<lambda>(rtt_seconds, cl).
            bind_res (update_vivaldi (rnd 0) other rtt_seconds cl) (\<lambda>cl.
            bind_res (update_adjustment other rtt_seconds cl) (\<lambda>cl.
            map_res (\<lambda>cl.
              (let cl = (if is_valid (cl_coord cl) then cl
                         else cl\<lparr>cl_resets := cl_resets cl + 1,
                                 cl_coord := coordinate_with_options (cl_opts cl)\<rparr>)
               in (Inr (cl_coord cl), cl)))
              (update_gravity powf (rnd 1) cl)))))"

section \<open>The invariant of the client\<close>

definition coordinate_options_ok :: "coordinate_options \<Rightarrow> bool" where
  "coordinate_options_ok opts \<longleftrightarrow>
     0 < copt_dimensionality opts \<and> 0 < copt_latency_filter_size opts \<and>
     is_finite (copt_vivaldi_error_max opts) \<and> is_finite (copt_height_min opts)"

text \<open>The coordinate has the dimensions of the options, the ring of adjustments
  has its size and an index inside, and no node has more samples than the filter
  keeps. Between two updates the coordinate is also finite.\<close>

definition client_shape :: "'i coordinate_client \<Rightarrow> bool" where
  "client_shape cl \<longleftrightarrow>
     coordinate_options_ok (cl_opts cl) \<and>
     length (co_portion (cl_coord cl)) = copt_dimensionality (cl_opts cl) \<and>
     cl_origin cl = coordinate_with_options (cl_opts cl) \<and>
     length (cl_adjustment_samples cl) = copt_adjustment_window_size (cl_opts cl) \<and>
     (cl_adjustment_index cl < copt_adjustment_window_size (cl_opts cl) \<or>
      copt_adjustment_window_size (cl_opts cl) = 0) \<and>
     list_all (\<lambda>(_, xs). length xs \<le> copt_latency_filter_size (cl_opts cl)) (cl_latency_filter_samples cl)"

definition client_inv :: "'i coordinate_client \<Rightarrow> bool" where
  "client_inv cl \<longleftrightarrow> client_shape cl \<and> is_valid (cl_coord cl)"

section \<open>Lemmas\<close>

lemma is_finite_0 [simp]: "is_finite 0"
  by (simp add: is_finite_def f64_exponent_def)

lemma is_valid_with_options: "coordinate_options_ok opts \<Longrightarrow> is_valid (coordinate_with_options opts)"
  by (simp add: coordinate_options_ok_def is_valid_def coordinate_with_options_def list_all_iff)

lemma coordinate_options_new_ok: "coordinate_options_ok coordinate_options_new"
  by code_simp

lemma length_with_options [simp]:
  "length (co_portion (coordinate_with_options opts)) = copt_dimensionality opts"
  by (simp add: coordinate_with_options_def)

lemma client_inv_with_options: "coordinate_options_ok opts \<Longrightarrow> client_inv (coordinate_client_with_options opts)"
  by (auto simp: client_inv_def client_shape_def coordinate_client_with_options_def is_valid_with_options)

lemma coordinate_client_new_eq: "coordinate_client_new = coordinate_client_with_options coordinate_options_new"
  by (simp add: coordinate_client_new_def coordinate_client_with_options_def coordinate_new_def
      coordinate_options_new_def)

lemma apply_force_eq: "apply_force = apply_force_in_place"
proof (intro ext)
  fix rnd h f other c
  show "apply_force rnd h f other c = apply_force_in_place rnd h f other c"
    by (cases "unit_vector_at rnd (co_portion c) (co_portion other)")
      (auto simp: apply_force_def apply_force_in_place_def Let_def)
qed

lemma length_sort_f64 [simp]: "length (sort_f64 xs) = length xs"
proof -
  have "length (insert_f64 x ys) = Suc (length ys)" for x ys by (induction ys) auto
  then show ?thesis by (induction xs) (simp_all add: sort_f64_def)
qed

lemma unit_vector_at_ok:
  assumes "v \<noteq> []" "length w = length v"
  shows "\<exists>u mag. unit_vector_at rnd v w = Inr (u, mag) \<and> length u = length v"
  using assms by (auto simp: unit_vector_at_def Let_def diff_def mul_in_place_def)

lemma apply_force_ok:
  assumes "is_compatible_with c other" "co_portion c \<noteq> []"
  shows "\<exists>c'. apply_force_in_place rnd h f other c = Inr c' \<and> length (co_portion c') = length (co_portion c)"
proof -
  obtain u mag where "unit_vector_at rnd (co_portion c) (co_portion other) = Inr (u, mag)"
    "length u = length (co_portion c)"
    using unit_vector_at_ok [of "co_portion c" "co_portion other" rnd] assms
    by (auto simp: is_compatible_with_def)
  then show ?thesis
    using assms(1) by (auto simp: apply_force_in_place_def Let_def add_in_place_def mul_in_place_def)
qed

lemma distance_to_ok: "is_compatible_with c other \<Longrightarrow> \<exists>d. distance_to c other = Inr d"
  by (simp add: distance_to_def Let_def)

lemma list_all_update: "Q (k, v) \<Longrightarrow> list_all Q m \<Longrightarrow> list_all Q (AList.update k v m)"
  by (induction m) auto

lemma list_all_delete: "list_all Q m \<Longrightarrow> list_all Q (AList.delete k m)"
  by (simp add: AList.delete_eq list_all_iff)

lemma client_inv_forget: "client_inv cl \<Longrightarrow> client_inv (forget_node nid cl)"
  by (simp add: client_inv_def client_shape_def forget_node_def list_all_delete)

lemma client_inv_set_coordinate: "client_inv cl \<Longrightarrow> client_inv (snd (set_coordinate c cl))"
  by (auto simp: set_coordinate_def check_coordinate_def client_inv_def client_shape_def is_compatible_with_def)

lemma latency_samples_bound:
  assumes "list_all (\<lambda>(_, xs). length xs \<le> n) m" "0 < n"
  shows "length (case map_of m node of None \<Rightarrow> [] | Some xs \<Rightarrow> xs) \<le> n"
  using assms by (auto simp: list_all_iff split: option.split dest!: map_of_SomeD)

lemma latency_filter_ok:
  assumes "client_shape cl"
  shows "\<exists>x cl'. latency_filter node rtt cl = Inr (x, cl') \<and> client_shape cl' \<and>
    cl_coord cl' = cl_coord cl \<and> cl_opts cl' = cl_opts cl"
proof -
  let ?n = "copt_latency_filter_size (cl_opts cl)"
  define old where "old = (case map_of (cl_latency_filter_samples cl) node of None \<Rightarrow> [] | Some xs \<Rightarrow> xs)"
  define new where "new = (if ?n < Suc (length old) then tl (old @ [rtt]) else old @ [rtt])"
  have n: "0 < ?n" and all: "list_all (\<lambda>(_, xs). length xs \<le> ?n) (cl_latency_filter_samples cl)"
    using assms by (auto simp: client_shape_def coordinate_options_ok_def)
  from latency_samples_bound [OF all n] have "length old \<le> ?n" by (simp add: old_def)
  moreover have "length new = (if ?n < Suc (length old) then length old else Suc (length old))"
    by (simp add: new_def)
  ultimately have new: "0 < length new" "length new \<le> ?n" using n by (auto split: if_splits)
  have new_eq: "(if ?n < length (old @ [rtt]) then tl (old @ [rtt]) else old @ [rtt]) = new"
    by (simp add: new_def)
  have "latency_filter node rtt cl = Inr (sort_f64 new ! (length new div 2),
      cl\<lparr>cl_latency_filter_samples := AList.update node new (cl_latency_filter_samples cl)\<rparr>)"
    unfolding latency_filter_def Let_def old_def [symmetric] new_eq using new(1) by simp
  moreover have "list_all (\<lambda>(_, xs). length xs \<le> ?n) (AList.update node new (cl_latency_filter_samples cl))"
    by (rule list_all_update) (simp_all add: new all)
  ultimately show ?thesis
    using assms by (auto simp: client_shape_def)
qed

lemma update_vivaldi_ok:
  assumes "client_shape cl" "length (co_portion other) = copt_dimensionality (cl_opts cl)"
  shows "\<exists>cl'. update_vivaldi rnd other rtt cl = Inr cl' \<and> client_shape cl' \<and> cl_opts cl' = cl_opts cl"
proof -
  have com: "is_compatible_with (cl_coord cl) other" and ne: "co_portion (cl_coord cl) \<noteq> []"
    using assms by (auto simp: is_compatible_with_def client_shape_def coordinate_options_ok_def)
  obtain d where "distance_to (cl_coord cl) other = Inr d" using distance_to_ok [OF com] by blast
  moreover have "\<exists>c'. apply_force_in_place rnd h f other ((cl_coord cl)\<lparr>co_error := e\<rparr>) = Inr c' \<and>
      length (co_portion c') = length (co_portion (cl_coord cl))" for h f e
    using apply_force_ok [of "(cl_coord cl)\<lparr>co_error := e\<rparr>" other rnd h f] com ne
    by (simp add: is_compatible_with_def)
  then obtain F where "\<And>h f e. apply_force_in_place rnd h f other ((cl_coord cl)\<lparr>co_error := e\<rparr>) = Inr (F h f e)"
    "\<And>h f e. length (co_portion (F h f e)) = length (co_portion (cl_coord cl))" by metis
  ultimately show ?thesis
    using assms(1) by (simp add: update_vivaldi_def Let_def client_shape_def)
qed

lemma update_adjustment_ok:
  assumes "client_shape cl"
  shows "\<exists>cl'. update_adjustment other rtt cl = Inr cl' \<and> client_shape cl' \<and> cl_opts cl' = cl_opts cl"
  using assms by (auto simp: update_adjustment_def Let_def client_shape_def)

lemma update_gravity_ok:
  assumes "client_shape cl"
  shows "\<exists>cl'. update_gravity powf rnd cl = Inr cl' \<and> client_shape cl' \<and> cl_opts cl' = cl_opts cl"
proof -
  have com: "is_compatible_with (cl_coord cl) (cl_origin cl)" "is_compatible_with (cl_origin cl) (cl_coord cl)"
    and ne: "co_portion (cl_coord cl) \<noteq> []"
    using assms by (auto simp: is_compatible_with_def client_shape_def coordinate_options_ok_def)
  obtain d where "distance_to (cl_origin cl) (cl_coord cl) = Inr d" using distance_to_ok [OF com(2)] by blast
  moreover obtain F where "\<And>h f. apply_force_in_place rnd h f (cl_origin cl) (cl_coord cl) = Inr (F h f)"
    "\<And>h f. length (co_portion (F h f)) = length (co_portion (cl_coord cl))"
    using apply_force_ok [OF com(1) ne, of rnd] by metis
  ultimately show ?thesis
    using assms by (simp add: update_gravity_def Let_def client_shape_def)
qed

text \<open>An update never panics and keeps the invariant, whatever the other node
  claims and whatever the arithmetic gives; a rejected one changes nothing.\<close>

lemma client_update_ok:
  assumes "client_inv cl"
  shows "\<exists>r cl'. client_update powf rnd node other rtt cl = Inr (r, cl') \<and> client_inv cl' \<and>
    cl_opts cl' = cl_opts cl \<and>
    (case r of Inl e \<Rightarrow> cl' = cl | Inr c \<Rightarrow> c = cl_coord cl' \<and> rtt \<le> max_rtt \<and> is_valid other \<and>
       length (co_portion other) = copt_dimensionality (cl_opts cl))"
proof (cases "check_coordinate (cl_coord cl) other = Inr () \<and> rtt \<le> max_rtt")
  case False
  then show ?thesis
    using assms by (auto simp: client_update_def check_coordinate_def)
next
  case True
  then have ok: "length (co_portion other) = copt_dimensionality (cl_opts cl)" "is_valid other"
    using assms by (auto simp: check_coordinate_def client_inv_def client_shape_def is_compatible_with_def
        split: if_splits)
  have shape: "client_shape cl" using assms by (simp add: client_inv_def)
  obtain x c1 where 1: "latency_filter node (as_secs_f64 rtt) cl = Inr (x, c1)" "client_shape c1"
    "cl_opts c1 = cl_opts cl" using latency_filter_ok [OF shape] by blast
  obtain c2 where 2: "update_vivaldi (rnd 0) other x c1 = Inr c2" "client_shape c2" "cl_opts c2 = cl_opts c1"
    using update_vivaldi_ok [OF 1(2), of other "rnd 0" x] ok 1(3) by auto
  obtain c3 where 3: "update_adjustment other x c2 = Inr c3" "client_shape c3" "cl_opts c3 = cl_opts c2"
    using update_adjustment_ok [OF 2(2)] by blast
  obtain c4 where 4: "update_gravity powf (rnd 1) c3 = Inr c4" "client_shape c4" "cl_opts c4 = cl_opts c3"
    using update_gravity_ok [OF 3(2)] by blast
  define c5 where "c5 = (if is_valid (cl_coord c4) then c4
      else c4\<lparr>cl_resets := cl_resets c4 + 1, cl_coord := coordinate_with_options (cl_opts c4)\<rparr>)"
  have "client_update powf rnd node other rtt cl = Inr (Inr (cl_coord c5), c5)"
    unfolding client_update_def using True by (simp add: 1(1) 2(1) 3(1) 4(1) [unfolded One_nat_def] Let_def c5_def)
  moreover have "client_inv c5" "cl_opts c5 = cl_opts cl"
    using 4(2) 1(3) 2(3) 3(3) 4(3) by (auto simp: c5_def client_inv_def client_shape_def is_valid_with_options)
  ultimately show ?thesis
    using True ok by simp
qed

section \<open>Options the client does not survive, and gravity at short range\<close>

lemma zero_filter_panics:
  "copt_latency_filter_size (cl_opts cl) = 0 \<Longrightarrow> map_of (cl_latency_filter_samples cl) node = None \<Longrightarrow>
   latency_filter node rtt cl = Inl Index_out_of_bounds"
  by (simp add: latency_filter_def Let_def sort_f64_def)

lemma zero_dimensions_panic: "unit_vector_at rnd [] [] = Inl Index_out_of_bounds"
  by code_simp

text \<open>The distance is truncated to whole seconds before gravity is computed from
  it, so a coordinate that is less than a second away is not pulled at all.\<close>

lemma no_gravity_below_a_second:
  assumes "distance_to (cl_origin cl) (cl_coord cl) = Inr d" "d < 1000000000"
  shows "update_gravity powf rnd cl =
    map_res (\<lambda>c. cl\<lparr>cl_coord := c\<rparr>)
      (apply_force_in_place rnd (copt_height_min (cl_opts cl))
        (f64_neg (powf (f64_div 0 (copt_gravity_rho (cl_opts cl))) (f64_lit 2 1))) (cl_origin cl) (cl_coord cl))"
proof -
  have "f64_of_nat 0 = 0" by code_simp
  then show ?thesis using assms by (simp add: update_gravity_def Let_def as_secs_def)
qed

end
