(* ===== verification/Coordinate_Wire.thy ===== *)
theory Coordinate_Wire
  imports Coordinates Wire_Base
begin

text \<open>
  The encoding of coordinates, which travel in the acknowledgements of pings.
  Memberlist's encoding of an \<open>f64\<close> is the parameter \<open>f64_wire\<close>: the byte of a
  tag with the wire type of 64-bit values, the codec, the size it reports for a
  length-delimited value, and the iterator over repeated fields.
\<close>

record f64_wire =
  fw_merge :: "u8 \<Rightarrow> u8"
  fw_codec :: "f64 codec"
  fw_ld_len :: "f64 \<Rightarrow> nat"
  fw_rep :: "u8 \<Rightarrow> bytes \<Rightarrow> decode_error + f64 list"

text \<open>
  What the code relies on: the bytes of the four tags differ, a value is read
  back whatever follows, skipping a field takes exactly that field, the iterator
  yields consecutive fields in order, and a value of fixed size carries no
  length.
\<close>

definition f64_wire_ok :: "('i, 'a) proto \<Rightarrow> f64_wire \<Rightarrow> bool" where
  "f64_wire_ok P W \<longleftrightarrow>
     (\<forall>t u. t < 16 \<longrightarrow> u < 16 \<longrightarrow> fw_merge W t = fw_merge W u \<longrightarrow> t = u) \<and>
     stream_codec (\<lambda>_. True) (fw_codec W) \<and>
     (\<forall>t x r. t < 16 \<longrightarrow> skip P (fw_merge W t # enc (fw_codec W) x @ r) = Inr (1 + length (enc (fw_codec W) x))) \<and>
     (\<forall>t xs. t < 16 \<longrightarrow> fw_rep W t (concat (map (\<lambda>x. fw_merge W t # enc (fw_codec W) x) xs)) = Inr xs) \<and>
     (\<forall>x. fw_ld_len W x = length (enc (fw_codec W) x))"

section \<open>Decoding\<close>

fun coordinate_step ::
  "('i, 'a) proto \<Rightarrow> f64_wire \<Rightarrow> nat \<Rightarrow> u8 \<Rightarrow> bytes
   \<Rightarrow> (nat \<times> nat) option \<times> f64 option \<times> f64 option \<times> f64 option
   \<Rightarrow> decode_error + nat \<times> (nat \<times> nat) option \<times> f64 option \<times> f64 option \<times> f64 option"
where
  "coordinate_step P W off b r (w, er, ad, he) =
     (if b = fw_merge W 1 then skip_field P (b # r) (\<lambda>n. (widen w off n, er, ad, he))
      else if b = fw_merge W 2 then
        once er 2 (field (dec (fw_codec W)) r (\<lambda>v. (w, Some v, ad, he)))
      else if b = fw_merge W 3 then
        once ad 3 (field (dec (fw_codec W)) r (\<lambda>v. (w, er, Some v, he)))
      else if b = fw_merge W 4 then
        once he 4 (field (dec (fw_codec W)) r (\<lambda>v. (w, er, ad, Some v)))
      else skip_field P (b # r) (\<lambda>_. (w, er, ad, he)))"

definition decode_coordinate_ref ::
  "('i, 'a) proto \<Rightarrow> f64_wire \<Rightarrow> bytes \<Rightarrow> decode_error + nat \<times> coordinate \<times> bytes option"
where
  "decode_coordinate_ref P W buf =
     bind_res (decode_loop (coordinate_step P W) 0 buf (None, None, None, None)) (\<lambda>(off, w, er, ad, he).
     bind_res (required ''error'' er) (\<lambda>er.
     bind_res (required ''adjustment'' ad) (\<lambda>ad.
     map_res (\<lambda>he. (off, \<lparr>co_portion = [], co_error = er, co_adjustment = ad, co_height = he\<rparr>, window buf w))
       (required ''height'' he))))"

definition coordinate_from_ref ::
  "f64_wire \<Rightarrow> coordinate \<times> bytes option \<Rightarrow> decode_error + coordinate"
where
  "coordinate_from_ref W v =
     map_res (\<lambda>xs. (fst v)\<lparr>co_portion := xs\<rparr>) (rep_items (fw_rep W 1) (snd v))"

definition decode_coordinate ::
  "('i, 'a) proto \<Rightarrow> f64_wire \<Rightarrow> bytes \<Rightarrow> decode_error + nat \<times> coordinate"
where
  "decode_coordinate P W buf =
     bind_res (decode_coordinate_ref P W buf) (\<lambda>(off, v). map_res (Pair off) (coordinate_from_ref W v))"

section \<open>Encoding\<close>

definition encoded_len_coordinate :: "f64_wire \<Rightarrow> coordinate \<Rightarrow> nat" where
  "encoded_len_coordinate W c =
     sum_list (map (\<lambda>x. 1 + fw_ld_len W x) (co_portion c))
     + 1 + length (enc (fw_codec W) (co_error c))
     + 1 + length (enc (fw_codec W) (co_adjustment c))
     + 1 + length (enc (fw_codec W) (co_height c))"

definition encode_coordinate :: "f64_wire \<Rightarrow> coordinate \<Rightarrow> bytes \<Rightarrow> encode_error + bytes \<times> nat" where
  "encode_coordinate W c buf =
     run_enc
       (concat (map (\<lambda>x. [put_byte (fw_merge W 1), put_enc (enc (fw_codec W) x)]) (co_portion c)) @
        [put_byte (fw_merge W 2), put_enc (enc (fw_codec W) (co_error c)),
         put_byte (fw_merge W 3), put_enc (enc (fw_codec W) (co_adjustment c)),
         put_byte (fw_merge W 4), put_enc (enc (fw_codec W) (co_height c))]) (buf, 0)"

definition wire_coordinate :: "f64_wire \<Rightarrow> coordinate \<Rightarrow> bytes" where
  "wire_coordinate W c =
     concat (map (\<lambda>x. fw_merge W 1 # enc (fw_codec W) x) (co_portion c)) @
     fw_merge W 2 # enc (fw_codec W) (co_error c) @
     fw_merge W 3 # enc (fw_codec W) (co_adjustment c) @
     fw_merge W 4 # enc (fw_codec W) (co_height c)"

section \<open>Round trip\<close>

interpretation coordinate_codec: encodable "\<lambda>c. \<forall>x. fw_ld_len W x = length (enc (fw_codec W) x)"
  "wire_coordinate W" "encode_coordinate W" "encoded_len_coordinate W" for W :: f64_wire
  by (rule encodableI [OF _ encode_coordinate_def], unfold wire_coordinate_def, intro emit_intros)
    (auto simp: encoded_len_coordinate_def length_concat comp_def)

lemma decode_coordinate_wire:
  assumes "f64_wire_ok P W"
  shows "decode_coordinate P W (wire_coordinate W c) = Inr (length (wire_coordinate W c), c)"
proof -
  let ?e = "enc (fw_codec W)"
  let ?f = "\<lambda>x. fw_merge W 1 # ?e x"
  let ?xs = "co_portion c"
  have tags: "fw_merge W t = fw_merge W u \<longleftrightarrow> t = u" if "t < 16" "u < 16" for t u
    using assms that by (auto simp: f64_wire_ok_def)
  have dec: "dec (fw_codec W) (?e x @ r) = Inr (length (?e x), x)" "dec (fw_codec W) (?e x) = Inr (length (?e x), x)"
    for x r using assms by (auto simp: f64_wire_ok_def intro: stream_codecD)
  have "decode_loop (coordinate_step P W) 0 (concat (map ?f ?xs) @ r) (None, None, None, None)
      = decode_loop (coordinate_step P W) (0 + length (concat (map ?f ?xs))) r (span 0 (map ?f ?xs), None, None, None)"
    for r
    by (rule decode_loop_fields [where put = "\<lambda>w. (w, None, None, None)"])
      (use assms in \<open>simp add: f64_wire_ok_def skip_field_def\<close>)
  then have loop: "decode_loop (coordinate_step P W) 0 (wire_coordinate W c) (None, None, None, None)
    = Inr (length (wire_coordinate W c), span 0 (map ?f ?xs), Some (co_error c), Some (co_adjustment c), Some (co_height c))"
    by (simp add: wire_coordinate_def tags dec)
  have "window (wire_coordinate W c) (span 0 (map ?f ?xs)) = (if ?xs = [] then None else Some (concat (map ?f ?xs)))"
    using window_span [of "[]" 0 ?f ?xs] by (simp add: wire_coordinate_def)
  moreover have "fw_rep W 1 (concat (map ?f ?xs)) = Inr ?xs"
    using assms by (simp add: f64_wire_ok_def)
  ultimately show ?thesis
    by (simp add: decode_coordinate_def decode_coordinate_ref_def loop coordinate_from_ref_def)
qed

end
