(* ===== verification/Serf_State.thy ===== *)
theory Serf_State
  imports Wire_Frame Coordinate_Wire
begin

text \<open>
  The state of a Serf instance (\<open>serf.rs\<close>), the events it emits (\<open>event.rs\<close>,
  \<open>event/crate_event.rs\<close>) and the options its handlers read (\<open>options.rs\<close>).

  The instance runs on top of memberlist. What it hands to memberlist is kept
  as output: packets in \<open>sf_sent\<close>, submitted broadcasts in the three queues
  (\<open>SerfBroadcast\<close> invalidates nothing, so a queue holds what was submitted in
  order), detached tasks in \<open>sf_spawned\<close>. Events are appended to
  \<open>sf_event_tx\<close>; a failed send is only logged by the code.
\<close>

section \<open>Events\<close>

datatype serf_state = SerfAlive | SerfLeaving | SerfLeft | SerfShutdown

datatype member_event_type = EvJoin | EvLeave | EvFailed | EvUpdate | EvReap

fun member_event_type_as_str :: "member_event_type \<Rightarrow> string" where
  "member_event_type_as_str EvJoin = ''member-join''"
| "member_event_type_as_str EvLeave = ''member-leave''"
| "member_event_type_as_str EvFailed = ''member-failed''"
| "member_event_type_as_str EvUpdate = ''member-update''"
| "member_event_type_as_str EvReap = ''member-reap''"

record ('i, 'a) member_event =
  me_ty :: member_event_type
  me_members :: "('i, 'a) member list"

text \<open>
  The context of a received query holds its deadline: the time the query was
  received, until it is answered, and the timeout the sender asked for.
\<close>

record query_context =
  qc_query_timeout :: nat
  qc_span :: "nat option"

record ('i, 'a) query_event =
  qe_ltime :: lamport_time
  qe_name :: string
  qe_payload :: bytes
  qe_ctx :: query_context
  qe_id :: u32
  qe_from :: "('i, 'a) node"
  qe_relay_factor :: u8

datatype 'i internal_query_event =
    IQ_Ping
  | IQ_Conflict 'i
  | IQ_InstallKey
  | IQ_UseKey
  | IQ_RemoveKey
  | IQ_ListKey

fun internal_query_as_str :: "'i internal_query_event \<Rightarrow> string" where
  "internal_query_as_str IQ_Ping = ''_serf_ping''"
| "internal_query_as_str (IQ_Conflict _) = ''_serf_conflict''"
| "internal_query_as_str IQ_InstallKey = ''_serf_install_key''"
| "internal_query_as_str IQ_UseKey = ''_serf_use_key''"
| "internal_query_as_str IQ_RemoveKey = ''_serf_remove_key''"
| "internal_query_as_str IQ_ListKey = ''_serf_list_keys''"

definition decode_internal_query ::
  "('i, 'a) proto \<Rightarrow> string \<Rightarrow> bytes \<Rightarrow> (decode_error + 'i internal_query_event) option" where
  "decode_internal_query P name payload =
     (if name = ''_serf_ping'' then Some (Inr IQ_Ping)
      else if name = ''_serf_conflict''
        then Some (map_res (\<lambda>(_, i). IQ_Conflict i) (dec (idc P) payload))
      else if name = ''_serf_install_key'' then Some (Inr IQ_InstallKey)
      else if name = ''_serf_use_key'' then Some (Inr IQ_UseKey)
      else if name = ''_serf_remove_key'' then Some (Inr IQ_RemoveKey)
      else if name = ''_serf_list_keys'' then Some (Inr IQ_ListKey)
      else None)"

datatype ('i, 'a) crate_event =
    Ev_Member "('i, 'a) member_event"
  | Ev_User user_event_message
  | Ev_Query "('i, 'a) query_event"
  | Ev_InternalQuery "'i internal_query_event" "('i, 'a) query_event"

section \<open>Query bookkeeping\<close>

text \<open>
  A bounded channel: its capacity, the values waiting in it and whether it has
  been closed. A \<open>QueryResponse\<close> collects the acks and the responses of a
  running query; its two hash sets are lists without repetition.
\<close>

record 'x chan =
  ch_cap :: nat
  ch_queue :: "'x list"
  ch_closed :: bool

record ('i, 'a) node_response =
  nr_from :: "('i, 'a) node"
  nr_payload :: bytes

record ('i, 'a) query_response =
  qp_deadline :: nat
  qp_id :: u32
  qp_ltime :: lamport_time
  qp_closed :: bool
  qp_acks :: "('i, 'a) node list"
  qp_responses :: "('i, 'a) node list"
  qp_ack_ch :: "('i, 'a) node chan option"
  qp_resp_ch :: "('i, 'a) node_response chan"

record queries =
  qs_ltime :: lamport_time
  qs_query_ids :: "u32 list"

record ('i, 'a) query_core =
  qco_responses :: "(lamport_time, ('i, 'a) query_response) hash_map"
  qco_min_time :: lamport_time
  qco_buffer :: "queries option list"

record event_core =
  ec_min_time :: lamport_time
  ec_buffer :: "user_events option list"

section \<open>Coordinates, options, broadcasts\<close>

record 'i coord_core =
  cc_client :: "'i coordinate_client"
  cc_cache :: "('i, coordinate) hash_map"

record options =
  op_tags :: tags
  op_protocol_version :: protocol_version
  op_delegate_version :: delegate_version
  op_ml_protocol_version :: u8
  op_ml_delegate_version :: u8
  op_event_buffer_size :: nat
  op_query_buffer_size :: nat
  op_max_user_event_size :: nat
  op_query_size_limit :: nat
  op_query_response_size_limit :: nat
  op_query_timeout_mult :: nat
  op_gossip_interval :: nat
  op_reconnect_timeout :: nat
  op_tombstone_timeout :: nat
  op_recent_intent_timeout :: nat
  op_min_queue_depth :: nat
  op_max_queue_depth :: nat
  op_enable_id_conflict_resolution :: bool
  op_disable_coordinates :: bool

record serf_broadcast =
  sb_msg :: bytes
  sb_notify :: bool

text \<open>Tasks the instance detaches: the refutation of a leave intent, the
  timer that closes a query, the resolution of a conflict over its name.\<close>

datatype task =
    Task_BroadcastJoin lamport_time
  | Task_CloseQuery nat lamport_time
  | Task_ResolveConflict

section \<open>The instance\<close>

record ('i, 'a) serf =
  sf_clock :: u64
  sf_event_clock :: u64
  sf_query_clock :: u64
  sf_broadcasts :: "serf_broadcast list"
  sf_event_broadcasts :: "serf_broadcast list"
  sf_query_broadcasts :: "serf_broadcast list"
  sf_local :: "('i, 'a) node"
  sf_members :: "('i, 'a) members"
  sf_event_tx :: "('i, 'a) crate_event list"
  sf_event_join_ignore :: bool
  sf_event_core :: event_core
  sf_query_core :: "('i, 'a) query_core"
  sf_opts :: options
  sf_state :: serf_state
  sf_coord_core :: "'i coord_core option"
  sf_sent :: "('a \<times> bytes) list"
  sf_spawned :: "task list"

abbreviation local_id :: "('i, 'a) serf \<Rightarrow> 'i" where
  "local_id s \<equiv> node_id (sf_local s)"

abbreviation ms_id :: "('i, 'a) member_state \<Rightarrow> 'i" where
  "ms_id m \<equiv> node_id (m_node (ms_member m))"

abbreviation ms_status :: "('i, 'a) member_state \<Rightarrow> member_status" where
  "ms_status m \<equiv> m_status (ms_member m)"

definition send_event :: "('i, 'a) crate_event \<Rightarrow> ('i, 'a) serf \<Rightarrow> ('i, 'a) serf" where
  "send_event e s = s\<lparr>sf_event_tx := sf_event_tx s @ [e]\<rparr>"

definition send_member_event ::
  "member_event_type \<Rightarrow> ('i, 'a) member \<Rightarrow> ('i, 'a) serf \<Rightarrow> ('i, 'a) serf" where
  "send_member_event ty m = send_event (Ev_Member \<lparr>me_ty = ty, me_members = [m]\<rparr>)"

definition spawn_task :: "task \<Rightarrow> ('i, 'a) serf \<Rightarrow> ('i, 'a) serf" where
  "spawn_task t s = s\<lparr>sf_spawned := sf_spawned s @ [t]\<rparr>"

definition ml_send :: "'a \<Rightarrow> bytes \<Rightarrow> ('i, 'a) serf \<Rightarrow> ('i, 'a) serf" where
  "ml_send a b s = s\<lparr>sf_sent := sf_sent s @ [(a, b)]\<rparr>"

text \<open>The queue of intents: \<open>broadcast\<close> of \<open>base.rs\<close>.\<close>

definition broadcast :: "bytes \<Rightarrow> bool \<Rightarrow> ('i, 'a) serf \<Rightarrow> ('i, 'a) serf" where
  "broadcast m notify s =
     s\<lparr>sf_broadcasts := sf_broadcasts s @ [\<lparr>sb_msg = m, sb_notify = notify\<rparr>]\<rparr>"

definition queue_event_broadcast :: "bytes \<Rightarrow> ('i, 'a) serf \<Rightarrow> ('i, 'a) serf" where
  "queue_event_broadcast m s =
     s\<lparr>sf_event_broadcasts := sf_event_broadcasts s @ [\<lparr>sb_msg = m, sb_notify = False\<rparr>]\<rparr>"

definition queue_query_broadcast :: "bytes \<Rightarrow> ('i, 'a) serf \<Rightarrow> ('i, 'a) serf" where
  "queue_query_broadcast m s =
     s\<lparr>sf_query_broadcasts := sf_query_broadcasts s @ [\<lparr>sb_msg = m, sb_notify = False\<rparr>]\<rparr>"

section \<open>Construction\<close>

datatype serf_error =
    User_event_limit_too_large nat
  | User_event_too_large nat
  | Raw_user_event_too_large nat
  | Query_too_large nat
  | Query_timeout
  | Query_response_too_large nat nat
  | Query_already_responsed
  | Relayed_response_too_large nat
  | Query_response_delivery_failed
  | Fail_truncate_response
  | Bad_join_status serf_state
  | Bad_leave_status serf_state
  | Tags_too_large nat
  | Removal_broadcast_timeout
  | Broadcast_channel_closed
  | Memberlist_error
  | Coordinates_disabled
  | Multiple_errors serf_error serf_error
  | Encode_failed encode_error
  | Decode_failed decode_error

definition user_event_size_limit :: nat where
  "user_event_size_limit = 9 * 1024"

text \<open>
  \<open>Meta::MAX_SIZE\<close> is memberlist's bound on the metadata of a node, a
  parameter. The clocks saved by the snapshot are \<open>(0, 0, 0)\<close> when none is
  configured; with a snapshot, older events and queries are cut off.
\<close>

definition restore_clock :: "lamport_time \<Rightarrow> u64" where
  "restore_clock old = clock_witness old (snd (clock_increment lamport_clock_new))"

definition min_time_of :: "lamport_time option \<Rightarrow> lamport_time" where
  "min_time_of old = (case old of None \<Rightarrow> 0 | Some t \<Rightarrow> t + 1)"

definition saved_time :: "lamport_time option \<Rightarrow> lamport_time" where
  "saved_time old = (case old of None \<Rightarrow> 0 | Some t \<Rightarrow> t)"

definition serf_new ::
  "('i, 'a) proto \<Rightarrow> nat \<Rightarrow> options \<Rightarrow> ('i, 'a) node
   \<Rightarrow> (lamport_time \<times> lamport_time \<times> lamport_time) option \<Rightarrow> serf_error + ('i, 'a) serf" where
  "serf_new P meta_max opts node snap =
     (let old = map_option fst snap;
          old_event = map_option (\<lambda>t. fst (snd t)) snap;
          old_query = map_option (\<lambda>t. snd (snd t)) snap;
          len = ld_len P (encoded_len_tags P (op_tags opts))
      in if user_event_size_limit < op_max_user_event_size opts
           then Inl (User_event_limit_too_large user_event_size_limit)
         else if op_tags opts \<noteq> [] \<and>
                 meta_max < 1 + length (enc (u32c P) (of_nat len)) + len
           then Inl (Tags_too_large len)
         else Inr
           \<lparr>sf_clock = restore_clock (saved_time old),
            sf_event_clock = restore_clock (saved_time old_event),
            sf_query_clock = restore_clock (saved_time old_query),
            sf_broadcasts = [], sf_event_broadcasts = [], sf_query_broadcasts = [],
            sf_local = node, sf_members = members_default, sf_event_tx = [],
            sf_event_join_ignore = False,
            sf_event_core = \<lparr>ec_min_time = min_time_of old_event,
                             ec_buffer = replicate (op_event_buffer_size opts) None\<rparr>,
            sf_query_core = \<lparr>qco_responses = [], qco_min_time = min_time_of old_query,
                             qco_buffer = replicate (op_query_buffer_size opts) None\<rparr>,
            sf_opts = opts, sf_state = SerfAlive,
            sf_coord_core = (if op_disable_coordinates opts then None
                             else Some \<lparr>cc_client = coordinate_client_with_options coordinate_options_new,
                                      cc_cache = []\<rparr>),
            sf_sent = [], sf_spawned = []\<rparr>)"

end
