(* ===== verification/Membership_Inv.thy ===== *)
theory Membership_Inv
  imports Membership "HOL-Library.Multiset"
begin

section \<open>The invariant of the members\<close>

definition old_list_ok ::
  "('i, 'a) member_state list \<Rightarrow> member_status \<Rightarrow> ('i \<Rightarrow> ('i, 'a) member_state option) \<Rightarrow> bool" where
  "old_list_ok xs st m \<longleftrightarrow>
     distinct (map ms_id xs) \<and>
     (\<forall>i. i \<in> ms_id ` set xs \<longleftrightarrow> (\<exists>ms. m i = Some ms \<and> ms_status ms = st)) \<and>
     (\<forall>ms \<in> set xs. ms_leave_time ms \<noteq> None)"

definition states_ok :: "('i \<Rightarrow> ('i, 'a) member_state option) \<Rightarrow> bool" where
  "states_ok m \<longleftrightarrow>
     (\<forall>i ms. m i = Some ms \<longrightarrow>
        ms_id ms = i \<and> (ms_status ms \<in> {Left, Failed} \<longrightarrow> ms_leave_time ms \<noteq> None))"

definition members_inv :: "('i, 'a) members \<Rightarrow> bool" where
  "members_inv mb \<longleftrightarrow>
     distinct (map fst (states mb)) \<and> distinct (map fst (recent_intents mb)) \<and>
     states_ok (map_of (states mb)) \<and>
     old_list_ok (left_members mb) Left (map_of (states mb)) \<and>
     old_list_ok (failed_members mb) Failed (map_of (states mb))"

lemma old_list_keep:
  "old_list_ok xs st m \<Longrightarrow> (ms_status ms' = st \<longleftrightarrow> (\<exists>ms. m i = Some ms \<and> ms_status ms = st))
   \<Longrightarrow> old_list_ok xs st (m(i \<mapsto> ms'))"
  by (auto simp: old_list_ok_def)

lemma old_list_push:
  "old_list_ok xs st m \<Longrightarrow> \<nexists>ms. m i = Some ms \<and> ms_status ms = st \<Longrightarrow> ms_id ms' = i
   \<Longrightarrow> ms_status ms' = st \<Longrightarrow> ms_leave_time ms' \<noteq> None
   \<Longrightarrow> old_list_ok (xs @ [ms']) st (m(i \<mapsto> ms'))"
  by (auto simp: old_list_ok_def)

lemma old_list_drop_put:
  "old_list_ok xs st m \<Longrightarrow> ms_status ms' \<noteq> st
   \<Longrightarrow> old_list_ok (remove_old_member xs i) st (m(i \<mapsto> ms'))"
  by (auto simp: old_list_ok_def remove_old_member_def distinct_map_filter image_iff)

lemma old_list_drop_del:
  "old_list_ok xs st m \<Longrightarrow> old_list_ok (remove_old_member xs i) st (m(i := None))"
  by (auto simp: old_list_ok_def remove_old_member_def distinct_map_filter image_iff)

lemma old_list_del:
  "old_list_ok xs st m \<Longrightarrow> \<nexists>ms. m i = Some ms \<and> ms_status ms = st
   \<Longrightarrow> old_list_ok xs st (m(i := None))"
  by (auto simp: old_list_ok_def)


lemmas old_list_intros = old_list_keep old_list_push old_list_drop_put old_list_drop_del old_list_del

lemmas serf_ops =
  send_event_def send_member_event_def spawn_task_def ml_send_def broadcast_def
  upd_members_def put_state_def set_status_def

text \<open>
  How the invariant moves with the updates the handlers are made of. \<open>is_old\<close>
  tells the two statuses whose members are also on a list.
\<close>

definition is_old :: "member_status \<Rightarrow> bool" where
  "is_old st \<longleftrightarrow> st = Left \<or> st = Failed"

lemma is_old_simps [simp]:
  "is_old Left" "is_old Failed" "\<not> is_old Alive" "\<not> is_old Leaving" "\<not> is_old Status_None"
  "\<not> is_old (Status_Unknown v)"
  by (simp_all add: is_old_def)

lemma states_ok_alt:
  "states_ok m \<longleftrightarrow>
     (\<forall>i ms. m i = Some ms \<longrightarrow> ms_id ms = i \<and> (is_old (ms_status ms) \<longrightarrow> ms_leave_time ms \<noteq> None))"
  by (auto simp: states_ok_def is_old_def)

lemma states_ok_put:
  "states_ok m \<Longrightarrow> ms_id ms' = i \<Longrightarrow> (is_old (ms_status ms') \<longrightarrow> ms_leave_time ms' \<noteq> None)
   \<Longrightarrow> states_ok (m(i \<mapsto> ms'))"
  by (auto simp: states_ok_alt)

lemma states_ok_del: "states_ok m \<Longrightarrow> states_ok (m(i := None))"
  by (auto simp: states_ok_alt)

lemma inv_lookup:
  assumes "members_inv mb" "map_of (states mb) i = Some ms"
  shows "ms_id ms = i" "is_old (ms_status ms) \<Longrightarrow> ms_leave_time ms \<noteq> None"
  using assms unfolding members_inv_def states_ok_alt by blast+

lemma inv_put_same:
  "members_inv mb \<Longrightarrow> map_of (states mb) i = Some ms \<Longrightarrow> ms_id ms' = i
   \<Longrightarrow> ms_status ms' = ms_status ms \<Longrightarrow> ms_leave_time ms' = ms_leave_time ms
   \<Longrightarrow> members_inv (put_state i ms' mb)"
  using inv_lookup [of mb i ms]
  unfolding members_inv_def put_state_def
  by (simp add: update_conv' distinct_update del: map_of_eq_Some_iff)
     (intro conjI states_ok_put old_list_keep; simp del: map_of_eq_Some_iff)

lemma inv_put_live:
  "members_inv mb \<Longrightarrow> (\<And>ms. map_of (states mb) i = Some ms \<Longrightarrow> \<not> is_old (ms_status ms))
   \<Longrightarrow> ms_id ms' = i \<Longrightarrow> \<not> is_old (ms_status ms') \<Longrightarrow> members_inv (put_state i ms' mb)"
  unfolding members_inv_def put_state_def is_old_def
  by (simp add: update_conv' distinct_update del: map_of_eq_Some_iff)
     (intro conjI states_ok_put old_list_keep; fastforce simp: is_old_def simp del: map_of_eq_Some_iff)

lemma inv_put_rejoin:
  "members_inv mb \<Longrightarrow> ms_id ms' = i \<Longrightarrow> \<not> is_old (ms_status ms')
   \<Longrightarrow> members_inv (drop_old_lists i (put_state i ms' mb))"
  unfolding members_inv_def put_state_def drop_old_lists_def is_old_def
  by (simp add: update_conv' distinct_update del: map_of_eq_Some_iff)
     (intro conjI states_ok_put old_list_drop_put; simp add: is_old_def)

lemma inv_put_left:
  "members_inv mb \<Longrightarrow> map_of (states mb) i = Some ms \<Longrightarrow> \<not> is_old (ms_status ms) \<Longrightarrow> ms_id ms' = i
   \<Longrightarrow> ms_status ms' = Left \<Longrightarrow> ms_leave_time ms' \<noteq> None
   \<Longrightarrow> members_inv ((put_state i ms' mb)\<lparr>left_members := left_members mb @ [ms']\<rparr>)"
  unfolding members_inv_def put_state_def
  by (simp add: update_conv' distinct_update del: map_of_eq_Some_iff)
     (intro conjI states_ok_put old_list_push old_list_keep;
      (assumption | fastforce simp del: map_of_eq_Some_iff))

lemma inv_put_failed:
  "members_inv mb \<Longrightarrow> map_of (states mb) i = Some ms \<Longrightarrow> \<not> is_old (ms_status ms) \<Longrightarrow> ms_id ms' = i
   \<Longrightarrow> ms_status ms' = Failed \<Longrightarrow> ms_leave_time ms' \<noteq> None
   \<Longrightarrow> members_inv ((put_state i ms' mb)\<lparr>failed_members := failed_members mb @ [ms']\<rparr>)"
  unfolding members_inv_def put_state_def
  by (simp add: update_conv' distinct_update del: map_of_eq_Some_iff)
     (intro conjI states_ok_put old_list_push old_list_keep;
      (assumption | fastforce simp del: map_of_eq_Some_iff))

lemma inv_failed_to_left:
  "members_inv mb \<Longrightarrow> map_of (states mb) i = Some ms \<Longrightarrow> ms_status ms = Failed \<Longrightarrow> ms_id ms' = i
   \<Longrightarrow> ms_status ms' = Left \<Longrightarrow> ms_leave_time ms' \<noteq> None
   \<Longrightarrow> members_inv ((put_state i ms' mb)
         \<lparr>failed_members := filter (\<lambda>m. ms_id m \<noteq> i) (failed_members mb),
          left_members := left_members mb @ [ms']\<rparr>)"
  unfolding members_inv_def put_state_def
  by (simp add: update_conv' distinct_update del: map_of_eq_Some_iff flip: remove_old_member_def)
     (intro conjI states_ok_put old_list_push old_list_drop_put;
      (assumption | fastforce simp del: map_of_eq_Some_iff))

lemma inv_erase:
  "members_inv mb \<Longrightarrow> map_of (states mb) i = Some ms \<Longrightarrow> ms_status ms \<noteq> Failed
   \<Longrightarrow> members_inv (mb\<lparr>left_members := remove_old_member (left_members mb) i,
                       states := AList.delete i (states mb)\<rparr>)"
  unfolding members_inv_def
  by (simp add: delete_conv' distinct_delete del: map_of_eq_Some_iff)
     (intro conjI states_ok_del old_list_drop_del old_list_del;
      (assumption | fastforce simp del: map_of_eq_Some_iff))


section \<open>Every handler keeps the invariant\<close>

lemma states_put_state [simp]:
  "map_of (states (put_state i ms mb)) = (map_of (states mb))(i \<mapsto> ms)"
  "recent_intents (put_state i ms mb) = recent_intents mb"
  "left_members (put_state i ms mb) = left_members mb"
  "failed_members (put_state i ms mb) = failed_members mb"
  by (simp_all add: put_state_def update_conv')

lemma put_state_twice [simp]: "put_state i b (put_state i a mb) = put_state i b mb"
  by (simp add: put_state_def)

lemma set_status_simps [simp]:
  "ms_status (set_status st ms) = st" "ms_id (set_status st ms) = ms_id ms"
  "ms_leave_time (set_status st ms) = ms_leave_time ms"
  "ms_status_time (set_status st ms) = ms_status_time ms"
  by (simp_all add: set_status_def)

lemma serf_ops_members [simp]:
  "sf_members (send_event e s) = sf_members s"
  "sf_members (send_member_event ty m s) = sf_members s"
  "sf_members (spawn_task t s) = sf_members s"
  "sf_members (ml_send a b s) = sf_members s"
  "sf_members (broadcast b nt s) = sf_members s"
  "sf_members (upd_members f s) = f (sf_members s)"
  by (simp_all add: serf_ops)

lemma upsert_intent_keys:
  "upsert_intent ints i t l now = (b, ints') \<Longrightarrow> distinct (map fst ints)
   \<Longrightarrow> distinct (map fst ints')"
  by (auto simp: upsert_intent_def distinct_update split: option.splits if_splits)

lemma inv_intents:
  "members_inv mb \<Longrightarrow> distinct (map fst ints) \<Longrightarrow> members_inv (mb\<lparr>recent_intents := ints\<rparr>)"
  by (simp add: members_inv_def)

lemma inv_upsert:
  "members_inv mb \<Longrightarrow> upsert_intent (recent_intents mb) i t l now = (b, ints)
   \<Longrightarrow> members_inv (mb\<lparr>recent_intents := ints\<rparr>)"
  by (rule inv_intents) (auto simp: members_inv_def dest: upsert_intent_keys)

lemma new_member_state_simps [simp]:
  "ms_id (new_member_state opts ints node tgs) = node_id node"
  "\<not> is_old (ms_status (new_member_state opts ints node tgs))"
  by (auto simp: new_member_state_def Let_def split: option.splits)

lemma rejoined_state_simps [simp]:
  "ms_id (rejoined_state node tgs ms) = node_id node"
  "ms_status (rejoined_state node tgs ms) = Alive"
  by (simp_all add: rejoined_state_def)

lemma inv_handle_node_join:
  assumes "members_inv (sf_members s)"
  shows "members_inv (sf_members (handle_node_join P n s))"
proof (cases "map_of (states (sf_members s)) (ns_id n)")
  case None
  then show ?thesis
    using assms by (auto simp: handle_node_join_def Let_def intro!: inv_put_live split: sum.split)
next
  case (Some ms)
  then show ?thesis
    using assms
    by (auto simp: handle_node_join_def Let_def is_old_def split: sum.split
          intro!: inv_put_live inv_put_rejoin)
qed

lemma inv_handle_node_leave:
  assumes "members_inv (sf_members s)"
  shows "members_inv (sf_members (handle_node_leave now n s))"
proof (cases "map_of (states (sf_members s)) (ns_id n)")
  case None
  then show ?thesis
    using assms by (simp add: handle_node_leave_def)
next
  case (Some ms)
  then show ?thesis
    using assms inv_lookup [OF assms Some]
    by (auto simp: handle_node_leave_def Let_def split: member_status.split
          intro!: inv_put_left [OF assms Some] inv_put_failed [OF assms Some])
qed

lemma inv_handle_node_update:
  "members_inv (sf_members s) \<Longrightarrow> members_inv (sf_members (handle_node_update P v1 n s))"
  by (auto simp: handle_node_update_def Let_def updated_member_def
        intro: inv_put_same split: sum.split option.split)

lemma inv_handle_node_join_intent:
  assumes "members_inv (sf_members s)"
  shows "members_inv (sf_members (snd (handle_node_join_intent now msg s)))"
proof (cases "map_of (states (sf_members s)) (jm_id msg)")
  case None
  then show ?thesis
    using assms by (auto simp: handle_node_join_intent_def Let_def split: prod.split intro: inv_upsert)
next
  case (Some ms)
  then show ?thesis
    using assms inv_lookup [OF assms Some]
    by (auto simp: handle_node_join_intent_def Let_def intro: inv_put_live inv_put_same)
qed

lemma inv_handle_prune:
  "members_inv (sf_members s) \<Longrightarrow> map_of (states (sf_members s)) i = Some m \<Longrightarrow> ms_id m = i
   \<Longrightarrow> ms_status m = Leaving \<or> ms_status m = Left
   \<Longrightarrow> members_inv (sf_members (handle_prune m s))"
  using inv_erase [of "sf_members s" i m] by (auto simp: handle_prune_def Let_def)

lemma inv_maybe_prune:
  "members_inv (sf_members s) \<Longrightarrow> map_of (states (sf_members s)) i = Some m \<Longrightarrow> ms_id m = i
   \<Longrightarrow> ms_status m = Leaving \<or> ms_status m = Left
   \<Longrightarrow> members_inv (sf_members (maybe_prune p m s))"
  by (simp add: maybe_prune_def inv_handle_prune)

lemma inv_leave_transition:
  assumes inv: "members_inv (sf_members s)"
    and ms: "map_of (states (sf_members s)) (lm_id msg) = Some ms"
  shows "members_inv (sf_members (snd (leave_transition msg ms s)))"
proof (cases "ms_status ms")
  case Failed
  then show ?thesis
    using inv_lookup [OF inv ms]
    by (auto simp: leave_transition_def Let_def intro!: inv_maybe_prune inv_failed_to_left [OF inv ms])
qed (use inv_lookup [OF inv ms] in
      \<open>auto simp: leave_transition_def Let_def ms
         intro!: inv_maybe_prune [OF _ _ _ disjI1] inv_put_live [OF inv] inv inv_maybe_prune\<close>)

lemma inv_handle_node_leave_intent:
  assumes "members_inv (sf_members s)"
  shows "members_inv (sf_members (snd (handle_node_leave_intent now msg s)))"
proof (cases "map_of (states (sf_members s)) (lm_id msg)")
  case None
  then show ?thesis
    using assms by (auto simp: handle_node_leave_intent_def Let_def split: prod.split intro: inv_upsert)
next
  case (Some ms)
  then show ?thesis
    using assms inv_lookup [OF assms Some]
    by (auto simp: handle_node_leave_intent_def Let_def
          intro!: inv_leave_transition inv_put_same [OF assms Some])
qed


section \<open>The reaper\<close>

lemma mset_swap_remove:
  assumes "i < length xs"
  shows "mset xs = add_mset (xs ! i) (mset (swap_remove i xs))"
proof -
  have len: "xs \<noteq> []" using assms by auto
  have "mset (xs[i := last xs]) = add_mset (last xs) (mset xs - {#xs ! i#})"
    using assms by (rule mset_update)
  moreover have "xs[i := last xs] = swap_remove i xs @ [last xs]"
    using append_butlast_last_id [of "xs[i := last xs]"] len
    by (cases "i = length xs - 1") (simp_all add: swap_remove_def last_list_update)
  ultimately have "mset (swap_remove i xs) = mset xs - {#xs ! i#}"
    by simp
  then show ?thesis
    using assms by simp
qed

lemma take_swap_remove: "i < length xs \<Longrightarrow> take i (swap_remove i xs) = take i xs"
  by (simp add: swap_remove_def take_butlast)

lemma old_list_ok_mset:
  assumes "mset xs = mset ys" "old_list_ok xs st m"
  shows "old_list_ok ys st m"
proof -
  have "mset (map ms_id xs) = mset (map ms_id ys)"
    using assms(1) by simp
  then have "distinct (map ms_id xs) \<longleftrightarrow> distinct (map ms_id ys)"
    by (rule mset_eq_imp_distinct_iff)
  then show ?thesis
    using assms mset_eq_setD [OF assms(1)] by (simp add: old_list_ok_def)
qed

lemma mset_swap_remove_old:
  assumes "distinct (map ms_id xs)" "i < length xs"
  shows "mset (swap_remove i xs) = mset (remove_old_member xs (ms_id (xs ! i)))"
proof -
  let ?k = "ms_id (xs ! i)"
  have "distinct (map ms_id (xs ! i # swap_remove i xs))"
    using assms mset_swap_remove [OF assms(2)]
    by (metis mset.simps(2) mset_eq_imp_distinct_iff mset_map)
  then have "filter (\<lambda>m. ms_id m \<noteq> ?k) (swap_remove i xs) = swap_remove i xs"
    by (auto simp: filter_id_conv) (metis imageI)
  moreover have "mset (remove_old_member xs ?k) = mset (filter (\<lambda>m. ms_id m \<noteq> ?k) (swap_remove i xs))"
    unfolding remove_old_member_def mset_filter by (subst mset_swap_remove [OF assms(2)]) simp
  ultimately show ?thesis
    by simp
qed

fun old_status :: "old_list \<Rightarrow> member_status" where
  "old_status Failed_list = Failed"
| "old_status Left_list = Left"

lemma inv_old_list: "members_inv mb \<Longrightarrow> old_list_ok (get_old l mb) (old_status l) (map_of (states mb))"
  by (cases l) (simp_all add: members_inv_def)

lemma inv_reap_one:
  assumes inv: "members_inv mb" and i: "i < length (get_old l mb)"
  defines "k \<equiv> ms_id (get_old l mb ! i)"
  shows "members_inv ((set_old l (swap_remove i (get_old l mb)) mb)\<lparr>states := AList.delete k (states mb)\<rparr>)"
proof -
  have ok: "old_list_ok (get_old l mb) (old_status l) (map_of (states mb))"
    using inv by (rule inv_old_list)
  then have d: "distinct (map ms_id (get_old l mb))"
    by (simp add: old_list_ok_def)
  have "k \<in> ms_id ` set (get_old l mb)"
    using i by (simp add: k_def)
  then obtain ms where ms: "map_of (states mb) k = Some ms" "ms_status ms = old_status l"
    using ok unfolding old_list_ok_def by blast
  have "old_list_ok (remove_old_member (get_old l mb) k) (old_status l) ((map_of (states mb))(k := None))"
    using ok by (rule old_list_drop_del)
  then have del: "old_list_ok (swap_remove i (get_old l mb)) (old_status l) ((map_of (states mb))(k := None))"
    using old_list_ok_mset [OF mset_swap_remove_old [OF d i, symmetric]] by (simp add: k_def)
  show ?thesis
  proof (cases l)
    case Failed_list
    have "old_list_ok (left_members mb) Left ((map_of (states mb))(k := None))"
      using inv ms Failed_list by (intro old_list_del) (simp_all add: members_inv_def del: map_of_eq_Some_iff)
    then show ?thesis
      using inv del Failed_list by (simp add: members_inv_def delete_conv' distinct_delete states_ok_del)
  next
    case Left_list
    have "old_list_ok (failed_members mb) Failed ((map_of (states mb))(k := None))"
      using inv ms Left_list by (intro old_list_del) (simp_all add: members_inv_def del: map_of_eq_Some_iff)
    then show ?thesis
      using inv del Left_list by (simp add: members_inv_def delete_conv' distinct_delete states_ok_del)
  qed
qed

lemma inv_reap_loop:
  "members_inv (sf_members s) \<Longrightarrow> members_inv (sf_members (reap_loop rd l timeout now i s))"
proof (induction rd l timeout now i s rule: reap_loop.induct)
  case (1 rd l timeout now i s)
  let ?xs = "get_old l (sf_members s)"
  show ?case
  proof (cases "i < length ?xs")
    case True
    then show ?thesis
      using "1.IH" [OF refl True] inv_reap_one [OF "1.prems" True] "1.prems"
      by (subst reap_loop.simps) (cases l; simp add: Let_def)
  next
    case False
    then show ?thesis
      using "1.prems" by (subst reap_loop.simps) simp
  qed
qed

definition reap_event :: "('i, 'a) member_state \<Rightarrow> ('i, 'a) crate_event" where
  "reap_event m = Ev_Member \<lparr>me_ty = EvReap, me_members = [ms_member m]\<rparr>"

lemma erase_node_fields [simp]:
  "sf_event_tx (erase_node i m s) = sf_event_tx s @ [reap_event m]"
  "sf_opts (erase_node i m s) = sf_opts s"
  "sf_clock (erase_node i m s) = sf_clock s"
  "sf_local (erase_node i m s) = sf_local s"
  by (simp_all add: erase_node_def reap_event_def serf_ops)

lemma upd_members_fields [simp]:
  "sf_event_tx (upd_members f s) = sf_event_tx s"
  "sf_opts (upd_members f s) = sf_opts s"
  "sf_clock (upd_members f s) = sf_clock s"
  "sf_local (upd_members f s) = sf_local s"
  by (simp_all add: upd_members_def)

lemma set_old_fields [simp]:
  "states (set_old l xs mb) = states mb"
  "recent_intents (set_old l xs mb) = recent_intents mb"
  "l' \<noteq> l \<Longrightarrow> get_old l' (set_old l xs mb) = get_old l' mb"
  by (cases l; cases l'; simp)+

definition reaped ::
  "(('i, 'a) member_state \<Rightarrow> bool) \<Rightarrow> old_list \<Rightarrow> ('i, 'a) serf \<Rightarrow> ('i, 'a) serf \<Rightarrow> bool" where
  "reaped due l s t \<longleftrightarrow>
     (\<exists>rs. mset rs = filter_mset due (mset (get_old l (sf_members s))) \<and>
        sf_event_tx t = sf_event_tx s @ map reap_event rs \<and>
        map_of (states (sf_members t)) = map_of (states (sf_members s)) |` (- (ms_id ` set rs))) \<and>
     mset (get_old l (sf_members t)) = filter_mset (\<lambda>m. \<not> due m) (mset (get_old l (sf_members s))) \<and>
     (\<forall>l'. l' \<noteq> l \<longrightarrow> get_old l' (sf_members t) = get_old l' (sf_members s)) \<and>
     recent_intents (sf_members t) = recent_intents (sf_members s) \<and>
     sf_opts t = sf_opts s \<and> sf_clock t = sf_clock s \<and> sf_local t = sf_local s"

lemma reaped_none:
  "\<forall>m \<in> set (get_old l (sf_members s)). \<not> due m \<Longrightarrow> reaped due l s s"
  unfolding reaped_def
  by (intro conjI exI [of _ "[]"]) (auto simp: filter_id_conv simp flip: mset_filter)

lemma reaped_one:
  assumes i: "i < length (get_old l (sf_members s))"
  defines "m \<equiv> get_old l (sf_members s) ! i"
  assumes due: "due m"
    and rest: "reaped due l (erase_node (ms_id m) m
                 (upd_members (set_old l (swap_remove i (get_old l (sf_members s)))) s)) t"
  shows "reaped due l s t"
proof -
  have ms: "mset (get_old l (sf_members s)) = add_mset m (mset (swap_remove i (get_old l (sf_members s))))"
    unfolding m_def by (rule mset_swap_remove [OF i])
  obtain rs where rs: "mset rs = filter_mset due (mset (swap_remove i (get_old l (sf_members s))))"
    "sf_event_tx t = sf_event_tx s @ map reap_event (m # rs)"
    "map_of (states (sf_members t)) = ((map_of (states (sf_members s)))(ms_id m := None)) |` (- (ms_id ` set rs))"
    using rest unfolding reaped_def by (auto simp: delete_conv')
  have "map_of (states (sf_members t)) = map_of (states (sf_members s)) |` (- (ms_id ` set (m # rs)))"
    using rs(3) by (auto simp: restrict_map_def)
  moreover have "mset (m # rs) = filter_mset due (mset (get_old l (sf_members s)))"
    using ms due rs(1) by simp
  ultimately have "\<exists>rs. mset rs = filter_mset due (mset (get_old l (sf_members s))) \<and>
      sf_event_tx t = sf_event_tx s @ map reap_event rs \<and>
      map_of (states (sf_members t)) = map_of (states (sf_members s)) |` (- (ms_id ` set rs))"
    using rs(2) by (intro exI [of _ "m # rs"]) simp
  then show ?thesis
    using rest ms due unfolding reaped_def by simp
qed

lemma reap_loop_exact:
  "\<forall>m \<in> set (take i (get_old l (sf_members s))). \<not> reap_due rd timeout now m
   \<Longrightarrow> reaped (reap_due rd timeout now) l s (reap_loop rd l timeout now i s)"
proof (induction rd l timeout now i s rule: reap_loop.induct)
  case (1 rd l timeout now i s)
  let ?xs = "get_old l (sf_members s)"
  let ?s' = "erase_node (ms_id (?xs ! i)) (?xs ! i) (upd_members (set_old l (swap_remove i ?xs)) s)"
  show ?case
  proof (cases "i < length ?xs")
    case i: True
    show ?thesis
    proof (cases "reap_due rd timeout now (?xs ! i)")
      case True
      then have "reaped (reap_due rd timeout now) l ?s' (reap_loop rd l timeout now i ?s')"
        using "1.IH"(1) [OF refl i True] "1.prems" i by (simp add: take_swap_remove)
      then have "reaped (reap_due rd timeout now) l s (reap_loop rd l timeout now i ?s')"
        by (rule reaped_one [where due = "reap_due rd timeout now", OF i True])
      then show ?thesis
        using i True by (subst reap_loop.simps) (simp add: Let_def)
    next
      case False
      then have "reaped (reap_due rd timeout now) l s (reap_loop rd l timeout now (i + 1) s)"
        using "1.IH"(2) [OF refl i False] "1.prems" i by (simp add: take_Suc_conv_app_nth)
      then show ?thesis
        using i False by (subst reap_loop.simps) (simp add: Let_def)
    qed
  next
    case False
    then show ?thesis
      using "1.prems" by (subst reap_loop.simps) (simp add: reaped_none)
  qed
qed

section \<open>The clock stays ahead\<close>

definition ahead :: "u64 \<Rightarrow> ('i, 'a) members \<Rightarrow> bool" where
  "ahead c mb \<longleftrightarrow>
     0 < c \<and>
     (\<forall>i ms. map_of (states mb) i = Some ms \<longrightarrow> ms_status_time ms < c) \<and>
     (\<forall>i ni. map_of (recent_intents mb) i = Some ni \<longrightarrow> ni_ltime ni < c)"

definition clock_ahead :: "('i, 'a) serf \<Rightarrow> bool" where
  "clock_ahead s \<longleftrightarrow> ahead (sf_clock s) (sf_members s)"

lemma ahead_lists [simp]:
  "ahead c (mb\<lparr>left_members := xs\<rparr>) = ahead c mb"
  "ahead c (mb\<lparr>failed_members := ys\<rparr>) = ahead c mb"
  by (simp_all add: ahead_def)

lemma ahead_mono: "ahead c mb \<Longrightarrow> c \<le> c' \<Longrightarrow> ahead c' mb"
  unfolding ahead_def using order_less_le_trans by blast

lemma ahead_put: "ahead c mb \<Longrightarrow> ms_status_time ms < c \<Longrightarrow> ahead c (put_state i ms mb)"
  by (auto simp: ahead_def)

lemma ahead_lookup: "ahead c mb \<Longrightarrow> map_of (states mb) i = Some ms \<Longrightarrow> ms_status_time ms < c"
  by (auto simp: ahead_def)

lemma ahead_delete: "ahead c mb \<Longrightarrow> ahead c (mb\<lparr>states := AList.delete i (states mb)\<rparr>)"
  by (auto simp: ahead_def delete_conv')

lemma ahead_upsert:
  "ahead c mb \<Longrightarrow> l < c \<Longrightarrow> upsert_intent (recent_intents mb) i t l now = (b, ints)
   \<Longrightarrow> ahead c (mb\<lparr>recent_intents := ints\<rparr>)"
  by (auto simp: ahead_def upsert_intent_def update_conv' split: option.splits if_splits)

lemma recent_intent_ahead:
  "ahead c mb \<Longrightarrow> recent_intent (recent_intents mb) i ty = Some t \<Longrightarrow> t < c"
  by (auto simp: ahead_def recent_intent_def split: option.splits if_splits)

lemma ahead_new_member:
  "ahead c mb \<Longrightarrow> ms_status_time (new_member_state opts (recent_intents mb) node tgs) < c"
  by (auto simp: new_member_state_def Let_def recent_intent_ahead split: option.split)
     (simp add: ahead_def)

lemma ahead_drop_old_lists [simp]: "ahead c (drop_old_lists i mb) = ahead c mb"
  by (simp add: ahead_def drop_old_lists_def)

lemma serf_ops_clock [simp]:
  "sf_clock (send_event e s) = sf_clock s"
  "sf_clock (send_member_event ty m s) = sf_clock s"
  "sf_clock (spawn_task t s) = sf_clock s"
  "sf_clock (ml_send a b s) = sf_clock s"
  "sf_clock (broadcast b nt s) = sf_clock s"
  by (simp_all add: serf_ops)

lemma ahead_handle_node_join: "clock_ahead s \<Longrightarrow> clock_ahead (handle_node_join P n s)"
  by (auto simp: clock_ahead_def handle_node_join_def Let_def rejoined_state_def
        intro!: ahead_put ahead_new_member split: sum.split option.split dest: ahead_lookup)

lemma ahead_handle_node_leave: "clock_ahead s \<Longrightarrow> clock_ahead (handle_node_leave now n s)"
  by (auto simp: clock_ahead_def handle_node_leave_def Let_def
        intro!: ahead_put split: option.split member_status.split dest: ahead_lookup)

lemma ahead_handle_node_update: "clock_ahead s \<Longrightarrow> clock_ahead (handle_node_update P v1 n s)"
  by (auto simp: clock_ahead_def handle_node_update_def Let_def
        intro!: ahead_put split: sum.split option.split dest: ahead_lookup)

lemma ahead_erase_node: "clock_ahead s \<Longrightarrow> clock_ahead (erase_node i m s)"
  by (simp add: clock_ahead_def ahead_delete)

lemma ahead_maybe_prune: "clock_ahead s \<Longrightarrow> clock_ahead (maybe_prune p m s)"
  by (auto simp: maybe_prune_def handle_prune_def Let_def clock_ahead_def ahead_def delete_conv')

lemma ahead_witnessed:
  "clock_ahead s \<Longrightarrow> t < - 1 \<Longrightarrow> clock_ahead (s\<lparr>sf_clock := clock_witness t (sf_clock s)\<rparr>)"
  by (auto simp: clock_ahead_def intro: ahead_mono clock_witness_ge)

lemma ahead_handle_node_join_intent:
  assumes "clock_ahead s" "jm_ltime msg < - 1"
  shows "clock_ahead (snd (handle_node_join_intent now msg s))"
  using ahead_witnessed [OF assms] clock_witness_gt [OF assms(2), of "sf_clock s"]
  by (auto simp: clock_ahead_def handle_node_join_intent_def Let_def
        intro: ahead_upsert ahead_put split: option.split prod.split)

lemma ahead_leave_transition:
  "clock_ahead s \<Longrightarrow> ms_status_time ms < sf_clock s \<Longrightarrow> clock_ahead (snd (leave_transition msg ms s))"
  by (cases "ms_status ms")
     (auto simp: leave_transition_def Let_def intro!: ahead_maybe_prune, auto simp: clock_ahead_def intro: ahead_put)

lemma ahead_handle_node_leave_intent:
  assumes "clock_ahead s" "lm_ltime msg < - 1"
  shows "clock_ahead (snd (handle_node_leave_intent now msg s))"
  using ahead_witnessed [OF assms] clock_witness_gt [OF assms(2), of "sf_clock s"]
  by (auto simp: handle_node_leave_intent_def Let_def intro!: ahead_leave_transition
        split: option.split prod.split)
     (auto simp: clock_ahead_def intro: ahead_upsert ahead_put)


section \<open>The invariant of the membership component\<close>

definition membership_inv :: "('i, 'a) serf \<Rightarrow> bool" where
  "membership_inv s \<longleftrightarrow> members_inv (sf_members s) \<and> clock_ahead s"

lemma reaped_ahead: "reaped due l s t \<Longrightarrow> clock_ahead s \<Longrightarrow> clock_ahead t"
  unfolding reaped_def clock_ahead_def ahead_def by (auto simp: restrict_map_def split: if_splits)

lemma reap_loop_ahead: "clock_ahead s \<Longrightarrow> clock_ahead (reap_loop rd l timeout now 0 s)"
  using reap_loop_exact [of 0 l s rd timeout now] by (auto intro: reaped_ahead)

lemma membership_reap_loop:
  "membership_inv s \<Longrightarrow> membership_inv (reap_loop rd l timeout now 0 s)"
  by (simp add: membership_inv_def inv_reap_loop reap_loop_ahead)

lemma reap_intents_keys:
  "distinct (map fst ints) \<Longrightarrow> distinct (map fst (reap_intents ints now timeout))"
  by (simp add: reap_intents_def distinct_map_filter)

lemma membership_reap_intents:
  "membership_inv s \<Longrightarrow>
   membership_inv (upd_members (\<lambda>mb. mb\<lparr>recent_intents := reap_intents (recent_intents mb) now timeout\<rparr>) s)"
  unfolding membership_inv_def clock_ahead_def ahead_def members_inv_def
  by (auto simp: reap_intents_keys) (auto simp: reap_intents_def)

lemma membership_reaper_tick: "membership_inv s \<Longrightarrow> membership_inv (reaper_tick rd now s)"
  unfolding reaper_tick_def reap_left_def reap_failed_def
  by (intro membership_reap_intents membership_reap_loop)

lemma membership_witness:
  "membership_inv s \<Longrightarrow> t < - 1 \<Longrightarrow> membership_inv (s\<lparr>sf_clock := clock_witness t (sf_clock s)\<rparr>)"
  by (simp add: membership_inv_def ahead_witnessed)

lemma membership_handle_node_join: "membership_inv s \<Longrightarrow> membership_inv (handle_node_join P n s)"
  by (simp add: membership_inv_def inv_handle_node_join ahead_handle_node_join)

lemma membership_handle_node_leave: "membership_inv s \<Longrightarrow> membership_inv (handle_node_leave now n s)"
  by (simp add: membership_inv_def inv_handle_node_leave ahead_handle_node_leave)

lemma membership_handle_node_update:
  "membership_inv s \<Longrightarrow> membership_inv (handle_node_update P v1 n s)"
  by (simp add: membership_inv_def inv_handle_node_update ahead_handle_node_update)

lemma membership_join_intent:
  "membership_inv s \<Longrightarrow> jm_ltime msg < - 1 \<Longrightarrow> membership_inv (snd (handle_node_join_intent now msg s))"
  by (simp add: membership_inv_def inv_handle_node_join_intent ahead_handle_node_join_intent)

lemma membership_leave_intent:
  "membership_inv s \<Longrightarrow> lm_ltime msg < - 1 \<Longrightarrow> membership_inv (snd (handle_node_leave_intent now msg s))"
  by (simp add: membership_inv_def inv_handle_node_leave_intent ahead_handle_node_leave_intent)

lemma membership_outputs [simp]:
  "membership_inv (broadcast b nt s) = membership_inv s"
  "membership_inv (send_event e s) = membership_inv s"
  "membership_inv (spawn_task t s) = membership_inv s"
  "membership_inv (ml_send a b s) = membership_inv s"
  by (simp_all add: membership_inv_def clock_ahead_def)

lemma membership_broadcast_join:
  assumes "membership_inv s" "ltime < - 1"
  shows "membership_inv (snd (broadcast_join P now ltime s))"
  using membership_join_intent [OF membership_witness [OF assms],
      of "\<lparr>jm_ltime = ltime, jm_id = local_id s\<rparr>" now] assms(2)
  by (auto simp: broadcast_join_def Let_def split: sum.split)

lemma membership_force_leave:
  assumes "membership_inv s" "sf_clock s < - 1"
  shows "membership_inv (snd (force_leave P now sent nid prune s))"
  using membership_leave_intent [OF assms(1),
      of "\<lparr>lm_ltime = sf_clock s, lm_id = nid, lm_prune = prune\<rparr>" now] assms(2)
  by (auto simp: force_leave_def Let_def clock_time_def split: sum.split)

lemma membership_serf_new:
  assumes "serf_new P mx opts node snap = Inr s" "saved_time (map_option fst snap) < - 1"
  shows "membership_inv s"
proof -
  have "0 < restore_clock (saved_time (map_option fst snap))"
    using order_less_le_trans [OF _ clock_witness_ge [OF assms(2), of 1], of 0]
    by (simp add: restore_clock_def clock_increment_def lamport_clock_new_def)
  moreover have "sf_members s = members_default"
    "sf_clock s = restore_clock (saved_time (map_option fst snap))"
    using assms(1) by (auto simp: serf_new_def Let_def simp del: split_paired_Ex split: if_split_asm)
  ultimately show ?thesis
    by (simp add: membership_inv_def members_inv_def members_default_def
        old_list_ok_def states_ok_def clock_ahead_def ahead_def)
qed

end
