(* ===== verification/Intents.thy ===== *)
theory Intents
  imports Membership_Inv
begin

text \<open>
  How gossiped intents behave as a protocol: a node passes an intent on only
  when it is newer than everything it has accepted for that member, so gossip
  about a member dies out; and the order in which intents and the notification
  of memberlist arrive does not change what a node ends up believing.
\<close>

section \<open>Delivering intents\<close>

datatype 'i intent = Join_intent "'i join_message" | Leave_intent "'i leave_message"

fun intent_id :: "'i intent \<Rightarrow> 'i" where
  "intent_id (Join_intent m) = jm_id m"
| "intent_id (Leave_intent m) = lm_id m"

fun intent_ltime :: "'i intent \<Rightarrow> lamport_time" where
  "intent_ltime (Join_intent m) = jm_ltime m"
| "intent_ltime (Leave_intent m) = lm_ltime m"

fun intent_prunes :: "'i intent \<Rightarrow> bool" where
  "intent_prunes (Join_intent m) = False"
| "intent_prunes (Leave_intent m) = lm_prune m"

fun deliver :: "nat \<Rightarrow> 'i intent \<Rightarrow> ('i, 'a) serf \<Rightarrow> bool \<times> ('i, 'a) serf" where
  "deliver now (Join_intent m) s = handle_node_join_intent now m s"
| "deliver now (Leave_intent m) s = handle_node_leave_intent now m s"

text \<open>The newest time accepted for a member, whether it is known or buffered.\<close>

definition seen_ltime :: "'i \<Rightarrow> ('i, 'a) members \<Rightarrow> lamport_time option" where
  "seen_ltime i mb =
     (case map_of (states mb) i of
        Some ms \<Rightarrow> Some (ms_status_time ms)
      | None \<Rightarrow> map_option ni_ltime (map_of (recent_intents mb) i))"

definition newer :: "lamport_time \<Rightarrow> lamport_time option \<Rightarrow> bool" where
  "newer l t = (case t of None \<Rightarrow> True | Some t' \<Rightarrow> t' < l)"

datatype ('i, 'a) gossip =
    G_Intent "'i intent"
  | G_Join "('i, 'a) node_state"
  | G_Leave "('i, 'a) node_state"
  | G_Update "('i, 'a) node_state"

fun gossip_step ::
  "('i, 'a) proto \<Rightarrow> u8 \<Rightarrow> nat \<Rightarrow> ('i, 'a) gossip \<Rightarrow> ('i, 'a) serf \<Rightarrow> 'i intent list \<times> ('i, 'a) serf" where
  "gossip_step P v1 now (G_Intent m) s =
     (let (b, s) = deliver now m s in (if b then [m] else [], s))"
| "gossip_step P v1 now (G_Join n) s = ([], handle_node_join P n s)"
| "gossip_step P v1 now (G_Leave n) s = ([], handle_node_leave now n s)"
| "gossip_step P v1 now (G_Update n) s = ([], handle_node_update P v1 n s)"

text \<open>The intents a node passes on in the course of a sequence of deliveries.\<close>

fun gossip_run ::
  "('i, 'a) proto \<Rightarrow> u8 \<Rightarrow> (nat \<times> ('i, 'a) gossip) list \<Rightarrow> ('i, 'a) serf
   \<Rightarrow> 'i intent list \<times> ('i, 'a) serf" where
  "gossip_run P v1 [] s = ([], s)"
| "gossip_run P v1 ((now, g) # gs) s =
     (let (out, s) = gossip_step P v1 now g s;
          (outs, s) = gossip_run P v1 gs s
      in (out @ outs, s))"

section \<open>Gossip dies out\<close>

text \<open>The buffer only holds join and leave intents.\<close>

definition intent_ty_ok :: "node_intent \<Rightarrow> bool" where
  "intent_ty_ok ni \<longleftrightarrow> ni_ty ni = MT_Join \<or> ni_ty ni = MT_Leave"

definition intents_typed :: "('i, node_intent) hash_map \<Rightarrow> bool" where
  "intents_typed ints \<longleftrightarrow> (\<forall>i ni. map_of ints i = Some ni \<longrightarrow> intent_ty_ok ni)"

lemma upsert_seen:
  assumes "upsert_intent ints i t l now = (b, ints')"
  shows "b = newer l (map_option ni_ltime (map_of ints i))"
    and "map_option ni_ltime (map_of ints' j) =
      (if b \<and> j = i then Some l else map_option ni_ltime (map_of ints j))"
  using assms by (auto simp: upsert_intent_def newer_def update_conv' split: option.splits if_splits)

lemma upsert_typed:
  assumes "upsert_intent ints i t l now = (b, ints')" "t = MT_Join \<or> t = MT_Leave" "intents_typed ints"
  shows "intents_typed ints'"
proof -
  have "intent_ty_ok (ni\<lparr>ni_ty := t, ni_ltime := l, ni_wall_time := now\<rparr>)"
    "intent_ty_ok \<lparr>ni_ty = t, ni_wall_time = now, ni_ltime = l\<rparr>" for ni
    using assms(2) by (auto simp: intent_ty_ok_def)
  then show ?thesis
    using assms(1,3) by (auto simp: intents_typed_def upsert_intent_def update_conv' split: option.splits if_splits)
qed

lemma seen_ltime_simps [simp]:
  "seen_ltime i (put_state j ms mb) = (if i = j then Some (ms_status_time ms) else seen_ltime i mb)"
  "seen_ltime i (mb\<lparr>left_members := xs\<rparr>) = seen_ltime i mb"
  "seen_ltime i (mb\<lparr>failed_members := ys\<rparr>) = seen_ltime i mb"
  "seen_ltime i (drop_old_lists j mb) = seen_ltime i mb"
  by (simp_all add: seen_ltime_def drop_old_lists_def split: option.split)

lemma seen_ltime_known: "map_of (states mb) i = Some ms \<Longrightarrow> seen_ltime i mb = Some (ms_status_time ms)"
  by (simp add: seen_ltime_def)

lemma seen_ltime_upsert:
  assumes "upsert_intent (recent_intents mb) j t l now = (b, ints)" "map_of (states mb) j = None"
  shows "b = newer l (seen_ltime j mb)"
    and "seen_ltime i (mb\<lparr>recent_intents := ints\<rparr>) = (if b \<and> i = j then Some l else seen_ltime i mb)"
  using upsert_seen [OF assms(1)] assms(2) by (auto simp: seen_ltime_def split: option.split)

definition raises_seen :: "'i \<Rightarrow> lamport_time \<Rightarrow> bool \<Rightarrow> ('i, 'a) serf \<Rightarrow> ('i, 'a) serf \<Rightarrow> bool" where
  "raises_seen j l b s t \<longleftrightarrow>
     (b \<longrightarrow> newer l (seen_ltime j (sf_members s))) \<and>
     (\<forall>i. seen_ltime i (sf_members t) = seen_ltime i (sf_members s) \<or>
        i = j \<and> newer l (seen_ltime j (sf_members s)) \<and> seen_ltime i (sf_members t) = Some l) \<and>
     (b \<longrightarrow> seen_ltime j (sf_members t) = Some l) \<and>
     (intents_typed (recent_intents (sf_members s)) \<longrightarrow> intents_typed (recent_intents (sf_members t)))"

lemma raises_seen_upsert:
  assumes "upsert_intent (recent_intents (sf_members s)) j ty l now = (b, ints)"
    "map_of (states (sf_members s)) j = None" "ty = MT_Join \<or> ty = MT_Leave"
  shows "raises_seen j l b s (s\<lparr>sf_clock := c, sf_members := (sf_members s)\<lparr>recent_intents := ints\<rparr>\<rparr>)"
  using seen_ltime_upsert [OF assms(1,2)] upsert_typed [OF assms(1,3)] by (auto simp: raises_seen_def)

lemma raises_seen_join:
  "raises_seen (jm_id m) (jm_ltime m) (fst (handle_node_join_intent now m s)) s
     (snd (handle_node_join_intent now m s))"
proof (cases "map_of (states (sf_members s)) (jm_id m)")
  case None
  then show ?thesis
    by (auto simp: handle_node_join_intent_def Let_def split: prod.split intro!: raises_seen_upsert)
next
  case (Some ms)
  then show ?thesis
    using seen_ltime_known [OF Some]
    by (auto simp: handle_node_join_intent_def Let_def raises_seen_def newer_def)
qed

lemma raises_seen_leave_transition:
  assumes "\<not> lm_prune m" "newer (lm_ltime m) (seen_ltime (lm_id m) (sf_members s))"
    "ms_status_time ms = lm_ltime m"
    "sf_members t = put_state (lm_id m) ms (sf_members s)"
  shows "raises_seen (lm_id m) (lm_ltime m) (fst (leave_transition m ms t)) s (snd (leave_transition m ms t))"
  using assms by (cases "ms_status ms")
    (auto simp: leave_transition_def Let_def maybe_prune_def raises_seen_def)

lemma raises_seen_leave:
  assumes "\<not> lm_prune m"
  shows "raises_seen (lm_id m) (lm_ltime m) (fst (handle_node_leave_intent now m s)) s
     (snd (handle_node_leave_intent now m s))"
proof (cases "map_of (states (sf_members s)) (lm_id m)")
  case None
  then show ?thesis
    by (auto simp: handle_node_leave_intent_def Let_def split: prod.split intro!: raises_seen_upsert)
next
  case (Some ms)
  then show ?thesis
    using seen_ltime_known [OF Some] assms
    by (auto simp: handle_node_leave_intent_def Let_def newer_def intro!: raises_seen_leave_transition)
       (auto simp: raises_seen_def)
qed

lemma seen_handle_node_join:
  assumes "intents_typed (recent_intents (sf_members s))"
  shows "newer l (seen_ltime i (sf_members (handle_node_join P n s))) \<Longrightarrow> newer l (seen_ltime i (sf_members s))"
    and "recent_intents (sf_members (handle_node_join P n s)) = recent_intents (sf_members s)"
proof (atomize (full), cases "map_of (states (sf_members s)) (ns_id n)")
  case None
  have "seen_ltime (ns_id n) (sf_members s) = None \<or>
    seen_ltime (ns_id n) (sf_members s) =
      Some (ms_status_time (new_member_state opts (recent_intents (sf_members s)) (ns_node n) tgs))" for opts tgs
    using assms None
    by (auto simp: seen_ltime_def new_member_state_def recent_intent_def intents_typed_def intent_ty_ok_def
        Let_def split: option.split)
  then show "(newer l (seen_ltime i (sf_members (handle_node_join P n s))) \<longrightarrow> newer l (seen_ltime i (sf_members s))) \<and>
    recent_intents (sf_members (handle_node_join P n s)) = recent_intents (sf_members s)"
    using None by (auto simp: handle_node_join_def Let_def newer_def split: sum.split option.splits if_splits)
next
  case (Some ms)
  then show "(newer l (seen_ltime i (sf_members (handle_node_join P n s))) \<longrightarrow> newer l (seen_ltime i (sf_members s))) \<and>
    recent_intents (sf_members (handle_node_join P n s)) = recent_intents (sf_members s)"
    using seen_ltime_known [OF Some]
    by (auto simp: handle_node_join_def Let_def rejoined_state_def drop_old_lists_def newer_def
        split: sum.split if_splits)
qed


lemma seen_handle_node_leave:
  "seen_ltime i (sf_members (handle_node_leave now n s)) = seen_ltime i (sf_members s)"
  "recent_intents (sf_members (handle_node_leave now n s)) = recent_intents (sf_members s)"
  by (auto simp: handle_node_leave_def Let_def seen_ltime_known split: option.split member_status.split)

lemma seen_handle_node_update:
  "seen_ltime i (sf_members (handle_node_update P v1 n s)) = seen_ltime i (sf_members s)"
  "recent_intents (sf_members (handle_node_update P v1 n s)) = recent_intents (sf_members s)"
  by (auto simp: handle_node_update_def Let_def seen_ltime_known split: option.split sum.split)

fun gossip_prunes :: "('i, 'a) gossip \<Rightarrow> bool" where
  "gossip_prunes (G_Intent m) = intent_prunes m"
| "gossip_prunes _ = False"

lemma raises_seen_deliver:
  "\<not> intent_prunes m \<Longrightarrow>
   raises_seen (intent_id m) (intent_ltime m) (fst (deliver now m s)) s (snd (deliver now m s))"
  by (cases m) (simp_all add: raises_seen_join raises_seen_leave)

lemma newer_trans: "newer l (Some l') \<Longrightarrow> newer l' t \<Longrightarrow> newer l t"
  by (auto simp: newer_def split: option.splits)

lemma raises_seen_mono:
  "raises_seen j l' b s t \<Longrightarrow> newer l (seen_ltime i (sf_members t)) \<Longrightarrow> newer l (seen_ltime i (sf_members s))"
  unfolding raises_seen_def by (metis newer_trans)

lemma gossip_step_seen:
  assumes "gossip_step P v1 now g s = (out, t)" "\<not> gossip_prunes g"
    and typed: "intents_typed (recent_intents (sf_members s))"
  shows "intents_typed (recent_intents (sf_members t))"
    and "newer l (seen_ltime i (sf_members t)) \<Longrightarrow> newer l (seen_ltime i (sf_members s))"
    and "out = [] \<or> (\<exists>m. out = [m] \<and> newer (intent_ltime m) (seen_ltime (intent_id m) (sf_members s)) \<and>
           seen_ltime (intent_id m) (sf_members t) = Some (intent_ltime m))"
proof (atomize (full), cases g)
  case (G_Intent m)
  then have *: "raises_seen (intent_id m) (intent_ltime m) (fst (deliver now m s)) s t"
    "out = (if fst (deliver now m s) then [m] else [])"
    using raises_seen_deliver [of m now s] assms(1,2) by (auto split: prod.splits)
  show "intents_typed (recent_intents (sf_members t)) \<and>
    (newer l (seen_ltime i (sf_members t)) \<longrightarrow> newer l (seen_ltime i (sf_members s))) \<and>
    (out = [] \<or> (\<exists>m. out = [m] \<and> newer (intent_ltime m) (seen_ltime (intent_id m) (sf_members s)) \<and>
      seen_ltime (intent_id m) (sf_members t) = Some (intent_ltime m)))"
    using * raises_seen_mono [OF *(1)] typed unfolding raises_seen_def by simp
qed (use assms seen_handle_node_join [OF typed] in
      \<open>auto simp: seen_handle_node_leave seen_handle_node_update\<close>)

lemma gossip_run_seen:
  assumes "\<forall>(now, g) \<in> set gs. \<not> gossip_prunes g" "intents_typed (recent_intents (sf_members s))"
  shows "sorted_wrt (<) (map intent_ltime (filter (\<lambda>m. intent_id m = i) (fst (gossip_run P v1 gs s)))) \<and>
    (\<forall>m \<in> set (fst (gossip_run P v1 gs s)). intent_id m = i \<longrightarrow>
       newer (intent_ltime m) (seen_ltime i (sf_members s)))"
  using assms
proof (induction gs arbitrary: s)
  case (Cons ng gs)
  obtain now g where ng: "ng = (now, g)" by fastforce
  obtain out t where st: "gossip_step P v1 now g s = (out, t)" by fastforce
  have np: "\<not> gossip_prunes g" using Cons.prems ng by simp
  note step = gossip_step_seen [OF st np Cons.prems(2)]
  have IH: "sorted_wrt (<) (map intent_ltime (filter (\<lambda>m. intent_id m = i) (fst (gossip_run P v1 gs t))))"
    "\<forall>m \<in> set (fst (gossip_run P v1 gs t)). intent_id m = i \<longrightarrow>
       newer (intent_ltime m) (seen_ltime i (sf_members t))"
    using Cons.IH [of t] Cons.prems step(1) by auto
  have run: "fst (gossip_run P v1 (ng # gs) s) = out @ fst (gossip_run P v1 gs t)"
    using st ng by (simp split: prod.split)
  consider "out = []" | m where "out = [m]" "newer (intent_ltime m) (seen_ltime (intent_id m) (sf_members s))"
      "seen_ltime (intent_id m) (sf_members t) = Some (intent_ltime m)"
    using step(3) by blast
  then show ?case
  proof cases
    case 1
    then show ?thesis
      unfolding run using IH step(2) by auto
  next
    case 2
    have "intent_id m = i \<Longrightarrow> \<forall>m' \<in> set (fst (gossip_run P v1 gs t)). intent_id m' = i \<longrightarrow>
        intent_ltime m < intent_ltime m'"
      using IH(2) 2(3) by (auto simp: newer_def)
    then show ?thesis
      unfolding run using IH step(2) 2 by auto
  qed
qed simp


section \<open>Arrival order does not matter\<close>

text \<open>
  What a node believes of a member that is up: alive or leaving, and since
  when. An intent acts on it like a write to a last-writer-wins register.
\<close>

fun intent_status :: "'i intent \<Rightarrow> member_status" where
  "intent_status (Join_intent m) = Alive"
| "intent_status (Leave_intent m) = Leaving"

definition lww :: "'i intent \<Rightarrow> member_status \<times> lamport_time \<Rightarrow> member_status \<times> lamport_time" where
  "lww m v = (if snd v < intent_ltime m then (intent_status m, intent_ltime m) else v)"

definition member_view :: "'i \<Rightarrow> ('i, 'a) serf \<Rightarrow> (member_status \<times> lamport_time) option" where
  "member_view i s =
     map_option (\<lambda>ms. (ms_status ms, ms_status_time ms)) (map_of (states (sf_members s)) i)"

definition buffered_view :: "'i \<Rightarrow> ('i, 'a) serf \<Rightarrow> member_status \<times> lamport_time" where
  "buffered_view i s =
     (case map_of (recent_intents (sf_members s)) i of
        None \<Rightarrow> (Alive, 0)
      | Some ni \<Rightarrow> (if ni_ty ni = MT_Leave then Leaving else Alive, ni_ltime ni))"

definition no_refute :: "'i \<Rightarrow> ('i, 'a) serf \<Rightarrow> bool" where
  "no_refute i s \<longleftrightarrow> i \<noteq> local_id s \<or> sf_state s \<noteq> SerfAlive"

fun deliver_all :: "(nat \<times> 'i intent) list \<Rightarrow> ('i, 'a) serf \<Rightarrow> ('i, 'a) serf" where
  "deliver_all [] s = s"
| "deliver_all ((now, m) # ms) s = deliver_all ms (snd (deliver now m s))"

lemma lww_commute:
  "(intent_ltime a = intent_ltime b \<Longrightarrow> intent_status a = intent_status b) \<Longrightarrow> lww a (lww b v) = lww b (lww a v)"
  by (auto simp: lww_def)

lemma fold_lww_perm:
  assumes "mset xs = mset ys"
    and "\<And>a b. a \<in> set xs \<Longrightarrow> b \<in> set xs \<Longrightarrow> intent_ltime a = intent_ltime b \<Longrightarrow> intent_status a = intent_status b"
  shows "fold lww xs v = fold lww ys v"
proof -
  have "fold lww xs = fold lww ys"
    by (rule fold_multiset_equiv) (use assms in \<open>auto simp: fun_eq_iff intro: lww_commute\<close>)
  then show ?thesis by simp
qed

lemma serf_ops_more [simp]:
  "sf_state (send_event e s) = sf_state s" "sf_local (send_event e s) = sf_local s"
  "sf_state (send_member_event ty m s) = sf_state s" "sf_local (send_member_event ty m s) = sf_local s"
  "sf_state (spawn_task t s) = sf_state s" "sf_local (spawn_task t s) = sf_local s"
  "sf_state (upd_members f s) = sf_state s"
  by (simp_all add: serf_ops)

lemma deliver_frame:
  assumes "\<not> intent_prunes m"
  shows "sf_local (snd (deliver now m s)) = sf_local s" "sf_state (snd (deliver now m s)) = sf_state s"
  using assms
  by (cases m; auto simp: handle_node_join_intent_def handle_node_leave_intent_def leave_transition_def
    maybe_prune_def Let_def split: option.split prod.split member_status.split)+

lemma deliver_known:
  assumes "member_view i s = Some (st, t)" "st = Alive \<or> st = Leaving"
    "intent_id m = i" "\<not> intent_prunes m" "no_refute i s"
  shows "member_view i (snd (deliver now m s)) = Some (lww m (st, t))"
  using assms
  by (cases m) (auto simp: member_view_def handle_node_join_intent_def handle_node_leave_intent_def
    leave_transition_def maybe_prune_def no_refute_def lww_def Let_def)


definition intents_of :: "'i \<Rightarrow> (nat \<times> 'i intent) list \<Rightarrow> bool" where
  "intents_of i ms \<longleftrightarrow>
     list_all (\<lambda>m. intent_id m = i \<and> \<not> intent_prunes m \<and> 0 < intent_ltime m) (map snd ms)"

lemma lww_live: "fst v = Alive \<or> fst v = Leaving \<Longrightarrow> fst (lww m v) = Alive \<or> fst (lww m v) = Leaving"
  by (cases m) (auto simp: lww_def)

lemma deliver_all_known:
  assumes "member_view i s = Some v" "fst v = Alive \<or> fst v = Leaving" "intents_of i ms" "no_refute i s"
  shows "member_view i (deliver_all ms s) = Some (fold lww (map snd ms) v)"
  using assms
proof (induction ms arbitrary: s v)
  case (Cons nm ms)
  obtain now m where nm: "nm = (now, m)" by fastforce
  have "member_view i (snd (deliver now m s)) = Some (lww m v)"
    using deliver_known [of i s "fst v" "snd v" m now] Cons.prems nm by (simp add: intents_of_def)
  moreover have "no_refute i (snd (deliver now m s))"
    using Cons.prems nm by (simp add: no_refute_def deliver_frame intents_of_def)
  ultimately show ?case
    using Cons.IH [of "snd (deliver now m s)" "lww m v"] Cons.prems lww_live [of v m] nm
    by (simp add: intents_of_def)
qed simp

definition unknown_typed :: "'i \<Rightarrow> ('i, 'a) serf \<Rightarrow> bool" where
  "unknown_typed i s \<longleftrightarrow>
     map_of (states (sf_members s)) i = None \<and> intents_typed (recent_intents (sf_members s))"

lemma deliver_unknown:
  assumes "unknown_typed i s" "intent_id m = i" "0 < intent_ltime m" "\<not> intent_prunes m"
  shows "unknown_typed i (snd (deliver now m s))"
    and "buffered_view i (snd (deliver now m s)) = lww m (buffered_view i s)"
proof -
  have "map_of (states (sf_members (snd (deliver now m s)))) i = None"
    using assms by (cases m) (auto simp: unknown_typed_def handle_node_join_intent_def
      handle_node_leave_intent_def Let_def split: prod.split)
  then show "unknown_typed i (snd (deliver now m s))"
    using raises_seen_deliver [OF assms(4), of now s] assms(1) by (simp add: unknown_typed_def raises_seen_def)
  show "buffered_view i (snd (deliver now m s)) = lww m (buffered_view i s)"
    using assms by (cases m) (auto simp: unknown_typed_def handle_node_join_intent_def
      handle_node_leave_intent_def Let_def buffered_view_def lww_def upsert_intent_def update_conv'
      split: prod.split option.splits)
qed

lemma deliver_all_unknown:
  assumes "unknown_typed i s" "intents_of i ms"
  shows "unknown_typed i (deliver_all ms s)"
    and "buffered_view i (deliver_all ms s) = fold lww (map snd ms) (buffered_view i s)"
    and "no_refute i (deliver_all ms s) = no_refute i s"
proof (atomize (full), use assms in \<open>induction ms arbitrary: s\<close>)
  case (Cons nm ms)
  obtain now m where nm: "nm = (now, m)" by fastforce
  have m: "intent_id m = i" "0 < intent_ltime m" "\<not> intent_prunes m" "intents_of i ms"
    using Cons.prems nm by (simp_all add: intents_of_def)
  show ?case
    using Cons.IH [OF deliver_unknown(1) [OF Cons.prems(1) m(1-3), of now] m(4)]
      deliver_unknown(2) [OF Cons.prems(1) m(1-3), of now] deliver_frame [OF m(3), of now s] nm
    by (simp add: no_refute_def)
qed simp

lemma join_view:
  assumes "unknown_typed (ns_id n) s" "join_tags P (ns_meta n) = Inr tgs"
  shows "member_view (ns_id n) (handle_node_join P n s) = Some (buffered_view (ns_id n) s)"
    and "no_refute i (handle_node_join P n s) = no_refute i s"
  using assms
  by (auto simp: unknown_typed_def member_view_def handle_node_join_def Let_def new_member_state_def
      recent_intent_def buffered_view_def intents_typed_def intent_ty_ok_def no_refute_def
      split: option.splits)

lemma deliver_around_join:
  assumes "unknown_typed (ns_id n) s" "join_tags P (ns_meta n) = Inr tgs" "no_refute (ns_id n) s"
    "intents_of (ns_id n) before" "intents_of (ns_id n) later"
  shows "member_view (ns_id n) (deliver_all later (handle_node_join P n (deliver_all before s)))
    = Some (fold lww (map snd (before @ later)) (buffered_view (ns_id n) s))"
proof -
  note u = deliver_all_unknown [OF assms(1,4)]
  have "fst (buffered_view (ns_id n) (deliver_all before s)) \<in> {Alive, Leaving}"
    by (auto simp: buffered_view_def split: option.split)
  then show ?thesis
    using deliver_all_known [OF join_view(1) [OF u(1) assms(2)] _ assms(5)] assms(3) u(2,3)
      join_view(2) [OF u(1) assms(2), of "ns_id n"]
    by simp
qed

end
