(* ===== verification/Serf_Sample.thy ===== *)
theory Serf_Sample
  imports Wire_Sample Intents
begin

text \<open>
  A small cluster on which the closed examples of the development run: node 1
  is the local node, nodes 2 and 3 have joined, and identifiers and addresses
  are bytes.
\<close>

definition sample_options :: options where
  "sample_options = \<lparr>op_tags = [], op_protocol_version = PV1, op_delegate_version = DV1,
     op_ml_protocol_version = 1, op_ml_delegate_version = 1,
     op_event_buffer_size = 4, op_query_buffer_size = 4, op_max_user_event_size = 512,
     op_query_size_limit = 1024, op_query_response_size_limit = 1024, op_query_timeout_mult = 16,
     op_gossip_interval = 200, op_reconnect_timeout = 10, op_tombstone_timeout = 10,
     op_recent_intent_timeout = 10, op_min_queue_depth = 0, op_max_queue_depth = 4096,
     op_enable_id_conflict_resolution = False, op_disable_coordinates = True\<rparr>"

definition sample_node :: "u8 \<Rightarrow> (u8, u8) node" where
  "sample_node i = \<lparr>node_id = i, node_addr = i\<rparr>"

definition sample_ns :: "u8 \<Rightarrow> (u8, u8) node_state" where
  "sample_ns i = \<lparr>ns_node = sample_node i, ns_meta = []\<rparr>"

definition sample_new :: "(u8, u8) serf" where
  "sample_new = projr (serf_new sample_proto 512 sample_options (sample_node 1) None)"

definition sample_serf :: "(u8, u8) serf" where
  "sample_serf = fold (\<lambda>i. handle_node_join sample_proto (sample_ns i)) [1, 2, 3] sample_new"

text \<open>Node 2 has failed at time 5.\<close>

definition sample_failed :: "(u8, u8) serf" where
  "sample_failed = handle_node_leave 5 (sample_ns 2) sample_serf"

lemma sample_new_eq:
  "serf_new sample_proto 512 sample_options (sample_node 1) None = Inr sample_new"
  by (simp add: sample_new_def serf_new_def Let_def sample_options_def user_event_size_limit_def)

lemma sample_serf_inv: "membership_inv sample_serf"
  using membership_serf_new [OF sample_new_eq]
  by (simp add: sample_serf_def membership_handle_node_join saved_time_def word_gt_0)

lemma sample_failed_inv: "membership_inv sample_failed"
  by (simp add: sample_failed_def membership_handle_node_leave sample_serf_inv)

lemmas sample_defs = sample_options_def sample_node_def sample_ns_def sample_new_def serf_new_def
  user_event_size_limit_def members_default_def restore_clock_def saved_time_def min_time_of_def
  lamport_clock_new_def clock_increment_def clock_time_def clock_witness_def

definition sample_member_of :: "u8 \<Rightarrow> member_status \<Rightarrow> (u8, u8) member" where
  "sample_member_of i st = \<lparr>m_node = sample_node i, m_tags = [], m_status = st,
     m_ml_protocol_version = 1, m_ml_delegate_version = 1,
     m_protocol_version = PV1, m_delegate_version = DV1\<rparr>"

definition sample_state_of :: "u8 \<Rightarrow> member_status \<Rightarrow> nat option \<Rightarrow> (u8, u8) member_state" where
  "sample_state_of i st t =
     \<lparr>ms_member = sample_member_of i st, ms_status_time = 0, ms_leave_time = t\<rparr>"

lemma sample_serf_members:
  "sf_members sample_serf =
     \<lparr>states = map (\<lambda>i. (i, sample_state_of i Alive None)) [1, 2, 3],
      recent_intents = [], left_members = [], failed_members = []\<rparr>"
  "sf_clock sample_serf = 1" "sf_local sample_serf = sample_node 1" "sf_state sample_serf = SerfAlive"
  "sf_opts sample_serf = sample_options"
  by (simp_all add: sample_serf_def sample_defs handle_node_join_def join_tags_def Let_def serf_ops
      new_member_state_def recent_intent_def sample_state_of_def sample_member_of_def)

lemma sample_failed_members:
  "sf_members sample_failed =
     \<lparr>states = [(1, sample_state_of 1 Alive None), (2, sample_state_of 2 Failed (Some 5)),
                (3, sample_state_of 3 Alive None)],
      recent_intents = [], left_members = [], failed_members = [sample_state_of 2 Failed (Some 5)]\<rparr>"
  "sf_clock sample_failed = 1" "sf_local sample_failed = sample_node 1" "sf_state sample_failed = SerfAlive"
  "sf_opts sample_failed = sample_options"
  by (simp_all add: sample_failed_def sample_serf_members handle_node_leave_def Let_def serf_ops sample_ns_def
      sample_node_def sample_state_of_def sample_member_of_def)

end
