(* ===== verification/Membership_Facts.thy ===== *)
theory Membership_Facts
  imports Intents
begin

text \<open>
  Facts about single operations of the membership component, stated with
  their full effect: the counts the reconnector subtracts, a forced leave of a
  failed member, the refutation of a leave intent, and one tick of the reaper.
\<close>

section \<open>Counting, forced leaves and refutations\<close>


lemma old_list_length:
  assumes "old_list_ok xs st m"
  shows "length xs = card {i. \<exists>ms. m i = Some ms \<and> ms_status ms = st}"
proof -
  have "length xs = card (ms_id ` set xs)"
    using assms distinct_card [of "map ms_id xs"] by (simp add: old_list_ok_def)
  moreover have "ms_id ` set xs = {i. \<exists>ms. m i = Some ms \<and> ms_status ms = st}"
    using assms unfolding old_list_ok_def by blast
  ultimately show ?thesis by simp
qed

lemma reconnect_counts:
  assumes "members_inv mb"
  shows "length (failed_members mb) + length (left_members mb) \<le> length (states mb)"
proof -
  let ?m = "map_of (states mb)"
  let ?F = "{i. \<exists>ms. ?m i = Some ms \<and> ms_status ms = Failed}"
  let ?L = "{i. \<exists>ms. ?m i = Some ms \<and> ms_status ms = Left}"
  have fin: "finite (dom ?m)" by (rule finite_dom_map_of)
  have sub: "?F \<subseteq> dom ?m" "?L \<subseteq> dom ?m" and disj: "?F \<inter> ?L = {}"
    by (auto simp del: map_of_eq_Some_iff)
  have "card ?F + card ?L = card (?F \<union> ?L)"
    by (rule card_Un_disjoint [symmetric]) (use sub fin disj finite_subset in blast)+
  also have "\<dots> \<le> card (dom ?m)"
    by (rule card_mono [OF fin]) (use sub in blast)
  also have "\<dots> = card (fst ` set (states mb))"
    by (simp add: dom_map_of_conv_image_fst)
  also have "\<dots> \<le> length (states mb)"
    by (metis card_length length_map list.set_map)
  finally have "card ?F + card ?L \<le> length (states mb)" .
  moreover have "length (failed_members mb) = card ?F" "length (left_members mb) = card ?L"
    by (rule old_list_length, use assms in \<open>simp add: members_inv_def\<close>)+
  ultimately show ?thesis by simp
qed

lemma reconnect_no_overflow: "members_inv mb \<Longrightarrow> reconnect_num_alive mb \<noteq> None"
  using reconnect_counts [of mb] by (auto simp: reconnect_num_alive_def checked_sub_def)

lemma handle_prune_effect:
  "states (sf_members (handle_prune m s)) = AList.delete (ms_id m) (states (sf_members s))"
  "failed_members (sf_members (handle_prune m s)) = failed_members (sf_members s)"
  "ms_status m = Leaving \<or> ms_status m = Left \<Longrightarrow>
   left_members (sf_members (handle_prune m s)) = remove_old_member (left_members (sf_members s)) (ms_id m)"
  by (auto simp: handle_prune_def Let_def)

lemma force_leave_members:
  "sf_members (snd (force_leave P now sent i prune s)) =
   sf_members (snd (handle_node_leave_intent now \<lparr>lm_ltime = sf_clock s, lm_id = i, lm_prune = prune\<rparr> s))"
  by (auto simp: force_leave_def Let_def clock_time_def split: sum.split)


text \<open>A leave intent that is accepted for a failed member, with its effect spelled out.\<close>

lemma leave_intent_failed:
  assumes "map_of (states (sf_members s)) (lm_id m) = Some ms" "ms_status ms = Failed"
    "ms_status_time ms < lm_ltime m" "no_refute (lm_id m) s"
  defines "ms' \<equiv> set_status Left (ms\<lparr>ms_status_time := lm_ltime m\<rparr>)"
  defines "mb' \<equiv> (put_state (lm_id m) ms' (sf_members s))
     \<lparr>failed_members := filter (\<lambda>x. ms_id x \<noteq> ms_id ms) (failed_members (sf_members s)),
      left_members := left_members (sf_members s) @ [ms']\<rparr>"
  shows "sf_members (snd (handle_node_leave_intent now m s)) =
    (if lm_prune m
     then mb'\<lparr>left_members := remove_old_member (left_members mb') (ms_id ms),
              states := AList.delete (ms_id ms) (states mb')\<rparr>
     else mb')"
  using assms(1-4)
  by (auto simp: handle_node_leave_intent_def Let_def no_refute_def leave_transition_def maybe_prune_def
      handle_prune_def mb'_def ms'_def)

lemma force_leave_failed:
  assumes "membership_inv s" "map_of (states (sf_members s)) i = Some ms" "ms_status ms = Failed"
    "no_refute i s" and mb_def: "mb = sf_members (snd (force_leave P now sent i prune s))"
  shows "i \<notin> ms_id ` set (failed_members mb)"
    and "map_of (states mb) i =
      (if prune then None else Some (set_status Left (ms\<lparr>ms_status_time := sf_clock s\<rparr>)))"
    and "i \<in> ms_id ` set (left_members mb) \<longleftrightarrow> \<not> prune"
    and "j \<noteq> i \<Longrightarrow> map_of (states mb) j = map_of (states (sf_members s)) j"
proof -
  have inv: "members_inv (sf_members s)" and "ahead (sf_clock s) (sf_members s)"
    using assms(1) by (simp_all add: membership_inv_def clock_ahead_def)
  then have t: "ms_status_time ms < sf_clock s"
    using assms(2) by (blast intro: ahead_lookup)
  have i: "ms_id ms = i"
    by (rule inv_lookup(1) [OF inv assms(2)])
  let ?m = "\<lparr>lm_ltime = sf_clock s, lm_id = i, lm_prune = prune\<rparr>"
  have "mb = sf_members (snd (handle_node_leave_intent now ?m s))"
    unfolding mb_def by (rule force_leave_members)
  then have eff: "mb = (let ms' = set_status Left (ms\<lparr>ms_status_time := sf_clock s\<rparr>);
      mb' = (put_state i ms' (sf_members s))
        \<lparr>failed_members := filter (\<lambda>x. ms_id x \<noteq> i) (failed_members (sf_members s)),
         left_members := left_members (sf_members s) @ [ms']\<rparr>
      in if prune
         then mb'\<lparr>left_members := remove_old_member (left_members mb') i,
                  states := AList.delete i (states mb')\<rparr>
         else mb')"
    using leave_intent_failed [of s ?m ms now] assms(2-4) t i by (simp add: Let_def)
  show "i \<notin> ms_id ` set (failed_members mb)"
    by (auto simp: eff Let_def)
  show "map_of (states mb) i =
      (if prune then None else Some (set_status Left (ms\<lparr>ms_status_time := sf_clock s\<rparr>)))"
    by (simp add: eff Let_def delete_conv')
  show "i \<in> ms_id ` set (left_members mb) \<longleftrightarrow> \<not> prune"
    using i by (auto simp: eff Let_def remove_old_member_def)
  show "j \<noteq> i \<Longrightarrow> map_of (states mb) j = map_of (states (sf_members s)) j"
    by (simp add: eff Let_def delete_conv')
qed


lemma leave_intent_refuted:
  assumes "map_of (states (sf_members s)) (local_id s) = Some ms" "lm_id m = local_id s"
    "sf_state s = SerfAlive" "ms_status_time ms < lm_ltime m"
  defines "c \<equiv> clock_witness (lm_ltime m) (sf_clock s)"
  shows "handle_node_leave_intent now m s = (False, spawn_task (Task_BroadcastJoin c) (s\<lparr>sf_clock := c\<rparr>))"
  using assms by (simp add: handle_node_leave_intent_def Let_def clock_time_def)

lemma broadcast_join_view:
  "member_view i (snd (broadcast_join P now l s)) =
   member_view i (snd (deliver now (Join_intent \<lparr>jm_ltime = l, jm_id = local_id s\<rparr>) s))"
proof -
  have "sf_members (snd (handle_node_join_intent now m (s\<lparr>sf_clock := c\<rparr>))) =
      sf_members (snd (handle_node_join_intent now m s))" for m c
    by (auto simp: handle_node_join_intent_def Let_def upd_members_def split: option.split prod.split)
  then show ?thesis
    by (auto simp: broadcast_join_def Let_def member_view_def split: sum.split)
qed

lemma broadcast_join_refutes:
  assumes "member_view (local_id s) s = Some v" "fst v = Alive \<or> fst v = Leaving" "snd v < l"
  shows "member_view (local_id s) (snd (broadcast_join P now l s)) = Some (Alive, l)"
proof -
  obtain ms where "map_of (states (sf_members s)) (local_id s) = Some ms" "v = (ms_status ms, ms_status_time ms)"
    using assms(1) by (auto simp: member_view_def)
  then show ?thesis
    unfolding broadcast_join_view using assms(2,3)
    by (auto simp: member_view_def handle_node_join_intent_def Let_def)
qed

lemma refutation_wins:
  assumes "member_view i p = Some v" "fst v = Alive \<or> fst v = Leaving" "no_refute i p"
    "lm_id m = i" "\<not> lm_prune m" "0 < lm_ltime m" "lm_ltime m < c" "snd v < c"
  shows "member_view i (deliver_all [(n1, Leave_intent m), (n2, Join_intent \<lparr>jm_ltime = c, jm_id = i\<rparr>)] p)
      = Some (Alive, c)"
    and "member_view i (deliver_all [(n1, Join_intent \<lparr>jm_ltime = c, jm_id = i\<rparr>), (n2, Leave_intent m)] p)
      = Some (Alive, c)"
proof -
  have c: "0 < c" using assms(6,7) by (rule order_less_trans)
  then show "member_view i (deliver_all [(n1, Leave_intent m), (n2, Join_intent \<lparr>jm_ltime = c, jm_id = i\<rparr>)] p)
      = Some (Alive, c)"
    "member_view i (deliver_all [(n1, Join_intent \<lparr>jm_ltime = c, jm_id = i\<rparr>), (n2, Leave_intent m)] p)
      = Some (Alive, c)"
    by (subst deliver_all_known [OF assms(1,2) _ assms(3)];
        use assms(4-8) c in \<open>auto simp: intents_of_def lww_def\<close>)+
qed

section \<open>The reaper, as a whole\<close>

definition reap_ids ::
  "(('i, 'a) member_state \<Rightarrow> bool) \<Rightarrow> ('i, 'a) member_state list \<Rightarrow> 'i set" where
  "reap_ids due xs = ms_id ` {m \<in> set xs. due m}"

lemma reaped_states:
  assumes "reaped due l s t"
  shows "map_of (states (sf_members t)) i =
    (if i \<in> reap_ids due (get_old l (sf_members s)) then None else map_of (states (sf_members s)) i)"
proof -
  obtain rs where rs: "mset rs = filter_mset due (mset (get_old l (sf_members s)))"
    "map_of (states (sf_members t)) = map_of (states (sf_members s)) |` (- (ms_id ` set rs))"
    using assms unfolding reaped_def by blast
  have "set rs = {m \<in> set (get_old l (sf_members s)). due m}"
    using arg_cong [OF rs(1), of set_mset] by auto
  then show ?thesis
    using rs(2) by (simp add: reap_ids_def restrict_map_def)
qed

lemma reaper_tick_spec:
  fixes s :: "('i, 'a) serf" and rd now
  defines "fdue \<equiv> reap_due rd (op_reconnect_timeout (sf_opts s)) now"
    and "ldue \<equiv> reap_due rd (op_tombstone_timeout (sf_opts s)) now"
  shows "mset (failed_members (sf_members (reaper_tick rd now s))) =
      filter_mset (\<lambda>m. \<not> fdue m) (mset (failed_members (sf_members s)))"
    and "mset (left_members (sf_members (reaper_tick rd now s))) =
      filter_mset (\<lambda>m. \<not> ldue m) (mset (left_members (sf_members s)))"
    and "map_of (states (sf_members (reaper_tick rd now s))) i =
      (if i \<in> reap_ids fdue (failed_members (sf_members s)) \<union> reap_ids ldue (left_members (sf_members s))
       then None else map_of (states (sf_members s)) i)"
    and "\<exists>fs ls. mset fs = filter_mset fdue (mset (failed_members (sf_members s))) \<and>
      mset ls = filter_mset ldue (mset (left_members (sf_members s))) \<and>
      sf_event_tx (reaper_tick rd now s) = sf_event_tx s @ map reap_event (fs @ ls)"
proof -
  define u where "u = reap_failed rd now s"
  define t where "t = reap_left rd now u"
  have u: "reaped fdue Failed_list s u"
    unfolding u_def reap_failed_def fdue_def by (rule reap_loop_exact) simp
  have op: "sf_opts u = sf_opts s" and lu: "left_members (sf_members u) = left_members (sf_members s)"
    using u unfolding reaped_def by (auto dest: spec [of _ Left_list])
  have t: "reaped ldue Left_list u t"
    unfolding t_def reap_left_def ldue_def op by (rule reap_loop_exact) simp
  have ft: "failed_members (sf_members t) = failed_members (sf_members u)"
    using t unfolding reaped_def by (auto dest: spec [of _ Failed_list])
  have tick: "reaper_tick rd now s = upd_members (\<lambda>mb. mb\<lparr>recent_intents :=
      reap_intents (recent_intents mb) now (op_recent_intent_timeout (sf_opts s))\<rparr>) t"
    by (simp add: reaper_tick_def t_def u_def)
  show "mset (failed_members (sf_members (reaper_tick rd now s))) =
      filter_mset (\<lambda>m. \<not> fdue m) (mset (failed_members (sf_members s)))"
    using u ft unfolding reaped_def tick by simp
  show "mset (left_members (sf_members (reaper_tick rd now s))) =
      filter_mset (\<lambda>m. \<not> ldue m) (mset (left_members (sf_members s)))"
    using t lu unfolding reaped_def tick by simp
  show "map_of (states (sf_members (reaper_tick rd now s))) i =
      (if i \<in> reap_ids fdue (failed_members (sf_members s)) \<union> reap_ids ldue (left_members (sf_members s))
       then None else map_of (states (sf_members s)) i)"
    using reaped_states [OF u, of i] reaped_states [OF t, of i] lu unfolding tick by simp
  obtain fs where fs: "mset fs = filter_mset fdue (mset (failed_members (sf_members s)))"
    "sf_event_tx u = sf_event_tx s @ map reap_event fs"
    using u unfolding reaped_def by auto
  obtain ls where "mset ls = filter_mset ldue (mset (left_members (sf_members s)))"
    "sf_event_tx t = sf_event_tx u @ map reap_event ls"
    using t lu unfolding reaped_def by auto
  then show "\<exists>fs ls. mset fs = filter_mset fdue (mset (failed_members (sf_members s))) \<and>
      mset ls = filter_mset ldue (mset (left_members (sf_members s))) \<and>
      sf_event_tx (reaper_tick rd now s) = sf_event_tx s @ map reap_event (fs @ ls)"
    using fs unfolding tick by (intro exI [of _ fs] exI [of _ ls]) simp
qed

end
