(* ===== verification/Dedup.thy ===== *)
theory Dedup
  imports Lamport_Clock
begin

text \<open>
  The contract of a component that drops what it has already handled, and the
  arithmetic of the rings the code remembers recent messages in. User events,
  queries and the responses of a running query all follow the contract.
\<close>

section \<open>Handling something at most once\<close>

text \<open>The inputs a component accepts in a sequence of inputs.\<close>

fun accepted :: "('m \<Rightarrow> 's \<Rightarrow> bool \<times> 's) \<Rightarrow> 'm list \<Rightarrow> 's \<Rightarrow> 'm list \<times> 's" where
  "accepted acc [] s = ([], s)"
| "accepted acc (m # ms) s =
     (let (b, s) = acc m s; (outs, s) = accepted acc ms s
      in (if b then m # outs else outs, s))"

lemma accepted_Cons:
  "fst (accepted acc (m # ms) s) =
     (if fst (acc m s) then m # fst (accepted acc ms (snd (acc m s))) else fst (accepted acc ms (snd (acc m s))))"
  "snd (accepted acc (m # ms) s) = snd (accepted acc ms (snd (acc m s)))"
  by (simp_all add: Let_def split_beta)

lemma accepted_all:
  assumes "\<And>m s. fst (acc m s) \<Longrightarrow> p m"
  shows "\<forall>m \<in> set (fst (accepted acc ms s)). m \<in> set ms \<and> p m"
  using assms by (induction ms arbitrary: s) (auto simp: accepted_Cons simp del: accepted.simps(2))

lemma accepted_simulation:
  assumes "R s a" "list_all ok ms"
    and step: "\<And>s a m. R s a \<Longrightarrow> ok m \<Longrightarrow>
      fst (acc m s) = fst (spec m a) \<and> R (snd (acc m s)) (snd (spec m a))"
  shows "fst (accepted acc ms s) = fst (accepted spec ms a)"
  using assms(1,2)
proof (induction ms arbitrary: s a)
  case (Cons m ms)
  obtain b t c u where m: "acc m s = (b, t)" "spec m a = (c, u)" by fastforce
  have "b = c" "R t u" using step [of s a m] Cons.prems m by simp_all
  with Cons.IH [of t u] Cons.prems m show ?case by (auto split: prod.split)
qed simp

locale dedup =
  fixes inv :: "'s \<Rightarrow> bool"
    and ok :: "'m \<Rightarrow> bool"
    and acc :: "'m \<Rightarrow> 's \<Rightarrow> bool \<times> 's"
    and key :: "'m \<Rightarrow> 'k"
    and seen :: "'k \<Rightarrow> 's \<Rightarrow> bool"
  assumes inv_acc: "inv s \<Longrightarrow> ok m \<Longrightarrow> inv (snd (acc m s))"
    and acc_fresh: "inv s \<Longrightarrow> ok m \<Longrightarrow> fst (acc m s) \<Longrightarrow> \<not> seen (key m) s"
    and acc_seen: "inv s \<Longrightarrow> ok m \<Longrightarrow> fst (acc m s) \<Longrightarrow> seen (key m) (snd (acc m s))"
    and seen_kept: "inv s \<Longrightarrow> ok m \<Longrightarrow> seen k s \<Longrightarrow> seen k (snd (acc m s))"
begin

lemma accepted_fresh:
  "inv s \<Longrightarrow> list_all ok ms \<Longrightarrow>
   distinct (map key (fst (accepted acc ms s))) \<and>
   (\<forall>m \<in> set (fst (accepted acc ms s)). \<not> seen (key m) s) \<and> inv (snd (accepted acc ms s))"
proof (induction ms arbitrary: s)
  case (Cons m ms)
  obtain b t where m: "acc m s = (b, t)" by fastforce
  have t: "inv t" "\<And>k. seen k s \<Longrightarrow> seen k t"
    using inv_acc [of s m] seen_kept [of s m] Cons.prems m by auto
  have new: "b \<Longrightarrow> \<not> seen (key m) s \<and> seen (key m) t"
    using acc_fresh [of s m] acc_seen [of s m] Cons.prems m by auto
  show ?case
    using Cons.IH [OF t(1)] Cons.prems new m by (auto split: prod.split dest: t(2))
qed simp

lemma at_most_once:
  "inv s \<Longrightarrow> list_all ok ms \<Longrightarrow> distinct (map key (fst (accepted acc ms s)))"
  using accepted_fresh by blast

lemma inv_accepted: "inv s \<Longrightarrow> list_all ok ms \<Longrightarrow> inv (snd (accepted acc ms s))"
  using accepted_fresh by blast

end

section \<open>Rings indexed by Lamport time\<close>

text \<open>
  The age test of \<open>handle_user_event\<close> and \<open>handle_query\<close>: a message is too old
  when it lies more than the length of the ring behind the clock.
\<close>

definition too_old :: "nat \<Rightarrow> u64 \<Rightarrow> u64 \<Rightarrow> bool" where
  "too_old n cur t \<longleftrightarrow> of_nat n < cur \<and> t < cur - of_nat n"

definition ring_index :: "nat \<Rightarrow> u64 \<Rightarrow> nat" where
  "ring_index n t = unat (t mod of_nat n)"

lemma unat_ring: "n < 2 ^ 64 \<Longrightarrow> unat (of_nat n :: u64) = n"
  by (simp add: unat_of_nat)

lemma ring_index_unat: "n < 2 ^ 64 \<Longrightarrow> ring_index n t = unat t mod n"
  by (simp add: ring_index_def unat_mod_distrib unat_ring)

lemma ring_index_less: "0 < n \<Longrightarrow> n < 2 ^ 64 \<Longrightarrow> ring_index n t < n"
  by (simp add: ring_index_unat)

lemma too_old_unat:
  assumes "n < 2 ^ 64"
  shows "too_old n cur t \<longleftrightarrow> n < unat cur \<and> unat t < unat cur - n"
proof (cases "n < unat cur")
  case True
  then have "(of_nat n :: u64) \<le> cur"
    using unat_ring [OF assms] by (simp add: word_le_nat_alt)
  then show ?thesis
    using True unat_ring [OF assms] by (simp add: too_old_def word_less_nat_alt unat_sub)
next
  case False
  then show ?thesis
    using unat_ring [OF assms] by (simp add: too_old_def word_less_nat_alt)
qed

lemma ring_length_pos: "n < 2 ^ 64 \<Longrightarrow> (of_nat n :: u64) = 0 \<longleftrightarrow> n = 0"
  using unat_ring [of n] by (auto simp: unat_eq_zero [symmetric])

text \<open>A ring without slots takes nothing.\<close>

lemma empty_ring_old:
  assumes "t < - 1"
  shows "too_old 0 (clock_witness t c) t"
  using clock_witness_gt [OF assms, of c] by (simp add: too_old_def order_le_less_trans)

text \<open>
  Two times in one slot, both behind the clock: only the newer one can pass
  the age test. A slot never goes back to an older time.
\<close>

lemma ring_newer:
  assumes "n < 2 ^ 64" "u < cur" "\<not> too_old n cur t" "ring_index n t = ring_index n u"
  shows "u \<le> t"
proof (rule ccontr)
  assume "\<not> u \<le> t"
  then have lt: "unat t < unat u" by (simp add: word_less_nat_alt not_le)
  have "unat t mod n = unat u mod n"
    using assms(1,4) by (simp add: ring_index_unat)
  then have "n dvd unat u - unat t"
    using lt by (metis less_imp_le mod_eq_dvd_iff_nat)
  then have "n \<le> unat u - unat t"
    using lt by (simp add: dvd_imp_le)
  moreover have "unat u < unat cur"
    using assms(2) by (simp add: word_less_nat_alt)
  ultimately show False
    using assms(1,3) lt by (auto simp: too_old_unat)
qed

end
