(* ===== verification/User_Events.thy ===== *)
theory User_Events
  imports Serf_State Dedup
begin

text \<open>
  User events: \<open>handle_user_event\<close> of \<open>serf/base.rs\<close>, with its ring of recently
  seen events, and the operation \<open>user_event\<close> (here \<open>user_event_op\<close>) of \<open>serf/api.rs\<close> that creates
  them. A handler that panics has no state; \<open>Inl\<close> is the panic.
\<close>

section \<open>The handler\<close>

definition user_event_of :: "user_event_message \<Rightarrow> user_event" where
  "user_event_of msg = \<lparr>ev_name = ue_name msg, ev_payload = ue_payload msg\<rparr>"

definition set_event_slot ::
  "nat \<Rightarrow> user_events \<Rightarrow> ('i, 'a) serf \<Rightarrow> ('i, 'a) serf" where
  "set_event_slot idx evs s =
     s\<lparr>sf_event_core := (sf_event_core s)
        \<lparr>ec_buffer := (ec_buffer (sf_event_core s))[idx := Some evs]\<rparr>\<rparr>"

definition handle_user_event ::
  "user_event_message \<Rightarrow> ('i, 'a) serf \<Rightarrow> panic + bool \<times> ('i, 'a) serf" where
  "handle_user_event msg s0 =
     (let ltime = ue_ltime msg;
          s = s0\<lparr>sf_event_clock := clock_witness ltime (sf_event_clock s0)\<rparr>;
          el = sf_event_core s
      in if ltime < ec_min_time el then Inr (False, s)
         else
           (let blen = length (ec_buffer el);
                cur_time = clock_time (sf_event_clock s)
            in if too_old blen cur_time ltime then Inr (False, s)
               else if (of_nat blen :: u64) = 0 then Inl Division_by_zero
               else
                 (let idx = ring_index blen ltime;
                      ue = user_event_of msg
                  in if \<not> idx < blen then Inl Index_out_of_bounds
                     else case ec_buffer el ! idx of
                       Some seen \<Rightarrow>
                         if ue \<in> set (evs_events seen) then Inr (False, s)
                         else Inr (True, send_event (Ev_User msg)
                                (set_event_slot idx (seen\<lparr>evs_events := evs_events seen @ [ue]\<rparr>) s))
                     | None \<Rightarrow>
                         Inr (True, send_event (Ev_User msg)
                                (set_event_slot idx \<lparr>evs_ltime = ltime, evs_events = [ue]\<rparr> s)))))"

section \<open>Creating an event\<close>

definition user_event_op ::
  "('i, 'a) proto \<Rightarrow> string \<Rightarrow> bytes \<Rightarrow> bool \<Rightarrow> ('i, 'a) serf
   \<Rightarrow> panic + (serf_error + unit) \<times> ('i, 'a) serf" where
  "user_event_op P name payload coalesce s =
     (let size = length name + length payload;
          limit = op_max_user_event_size (sf_opts s)
      in if limit < size then Inr (Inl (User_event_limit_too_large limit), s)
         else if user_event_size_limit < size
           then Inr (Inl (User_event_too_large user_event_size_limit), s)
         else
           (let msg = \<lparr>ue_ltime = clock_time (sf_event_clock s), ue_name = name,
                       ue_payload = payload, ue_cc = coalesce\<rparr>;
                len = encoded_message_len P (encoded_len_user_event_message P msg)
            in if limit < len then Inr (Inl (Raw_user_event_too_large len), s)
               else if user_event_size_limit < len then Inr (Inl (Raw_user_event_too_large len), s)
               else case message_to_bytes P (Msg_UserEvent msg) of
                 Inl e \<Rightarrow> Inr (Inl (Encode_failed e), s)
               | Inr raw \<Rightarrow>
                   map_res (\<lambda>(_, s). (Inr (), queue_event_broadcast raw s))
                     (handle_user_event msg
                       (s\<lparr>sf_event_clock := snd (clock_increment (sf_event_clock s))\<rparr>))))"

section \<open>The handler returns\<close>

definition ring_bounded :: "('i, 'a) serf \<Rightarrow> bool" where
  "ring_bounded s \<longleftrightarrow> length (ec_buffer (sf_event_core s)) < 2 ^ 64"

lemma handle_user_event_returns:
  assumes "ring_bounded s" "ue_ltime msg < - 1"
  shows "\<exists>r. handle_user_event msg s = Inr r"
proof (cases "length (ec_buffer (sf_event_core s)) = 0")
  case True
  then show ?thesis
    using empty_ring_old [OF assms(2)] by (auto simp: handle_user_event_def Let_def clock_time_def)
next
  case False
  then show ?thesis
    using assms ring_index_less [of "length (ec_buffer (sf_event_core s))" "ue_ltime msg"]
    by (auto simp: handle_user_event_def Let_def ring_bounded_def ring_length_pos split: option.split)
qed

lemma handle_user_event_frame:
  "handle_user_event msg s = Inr (b, s') \<Longrightarrow>
   s' = s\<lparr>sf_event_core := sf_event_core s', sf_event_clock := sf_event_clock s', sf_event_tx := sf_event_tx s'\<rparr>"
  by (auto simp: handle_user_event_def set_event_slot_def send_event_def Let_def split: if_splits option.splits)

lemma handle_user_event_queues:
  "handle_user_event msg s = Inr (b, s') \<Longrightarrow> sf_event_broadcasts s' = sf_event_broadcasts s"
  by (auto simp: handle_user_event_def set_event_slot_def send_event_def Let_def split: if_splits option.splits)

text \<open>What the handler does to the ring, in terms of its slots.\<close>

definition slot_events :: "('i, 'a) serf \<Rightarrow> nat \<Rightarrow> user_event set" where
  "slot_events s idx =
     (if idx < length (ec_buffer (sf_event_core s))
      then (case ec_buffer (sf_event_core s) ! idx of None \<Rightarrow> {} | Some evs \<Rightarrow> set (evs_events evs))
      else {})"

abbreviation ring_length :: "('i, 'a) serf \<Rightarrow> nat" where
  "ring_length s \<equiv> length (ec_buffer (sf_event_core s))"

lemma slot_events_set_slot:
  "idx < ring_length s \<Longrightarrow>
   slot_events (send_event e (set_event_slot idx evs s)) j =
     (if j = idx then set (evs_events evs) else slot_events s j)"
  by (simp add: slot_events_def send_event_def set_event_slot_def)

lemma ring_set_slot [simp]:
  "ring_length (send_event e (set_event_slot idx evs s)) = ring_length s"
  "ec_min_time (sf_event_core (send_event e (set_event_slot idx evs s))) = ec_min_time (sf_event_core s)"
  "sf_event_clock (send_event e (set_event_slot idx evs s)) = sf_event_clock s"
  "sf_event_tx (send_event e (set_event_slot idx evs s)) = sf_event_tx s @ [e]"
  by (simp_all add: send_event_def set_event_slot_def)

text \<open>The outcome of the handler: it accepts exactly the events that pass the
  two age tests and are not yet recorded in their slot.\<close>

definition event_fresh :: "user_event_message \<Rightarrow> ('i, 'a) serf \<Rightarrow> bool" where
  "event_fresh msg s \<longleftrightarrow>
     ec_min_time (sf_event_core s) \<le> ue_ltime msg \<and>
     \<not> too_old (ring_length s) (clock_witness (ue_ltime msg) (sf_event_clock s)) (ue_ltime msg) \<and>
     user_event_of msg \<notin> slot_events s (ring_index (ring_length s) (ue_ltime msg))"

lemma handle_user_event_effect:
  assumes "handle_user_event msg s = Inr (b, t)" "ring_bounded s"
  shows "b \<longleftrightarrow> event_fresh msg s"
    and "ring_length t = ring_length s"
    and "ec_min_time (sf_event_core t) = ec_min_time (sf_event_core s)"
    and "sf_event_clock t = clock_witness (ue_ltime msg) (sf_event_clock s)"
    and "sf_event_tx t = sf_event_tx s @ (if b then [Ev_User msg] else [])"
    and "slot_events t j = (if b \<and> j = ring_index (ring_length s) (ue_ltime msg)
           then insert (user_event_of msg) (slot_events s j) else slot_events s j)"
proof -
  let ?s = "s\<lparr>sf_event_clock := clock_witness (ue_ltime msg) (sf_event_clock s)\<rparr>"
  have same: "slot_events ?s i = slot_events s i" for i
    by (simp add: slot_events_def)
  show "b \<longleftrightarrow> event_fresh msg s" "ring_length t = ring_length s"
    "ec_min_time (sf_event_core t) = ec_min_time (sf_event_core s)"
    "sf_event_clock t = clock_witness (ue_ltime msg) (sf_event_clock s)"
    "sf_event_tx t = sf_event_tx s @ (if b then [Ev_User msg] else [])"
    "slot_events t j = (if b \<and> j = ring_index (ring_length s) (ue_ltime msg)
       then insert (user_event_of msg) (slot_events s j) else slot_events s j)"
    using assms
    by (auto simp: handle_user_event_def Let_def event_fresh_def clock_time_def slot_events_set_slot same
        slot_events_def [of s] split: if_splits option.splits)
qed


section \<open>Delivered at most once\<close>

definition accept_event :: "user_event_message \<Rightarrow> ('i, 'a) serf \<Rightarrow> bool \<times> ('i, 'a) serf" where
  "accept_event m s = (case handle_user_event m s of Inr r \<Rightarrow> r | Inl _ \<Rightarrow> (False, s))"

lemma accept_event_effect:
  assumes "ring_bounded s" "ue_ltime msg < - 1" "accept_event msg s = (b, t)"
  shows "handle_user_event msg s = Inr (b, t)"
  using handle_user_event_returns [OF assms(1,2)] assms(3) by (auto simp: accept_event_def)

definition ring_inv :: "nat \<Rightarrow> ('i, 'a) serf \<Rightarrow> bool" where
  "ring_inv n s \<longleftrightarrow> ring_length s = n \<and> n < 2 ^ 64"

lemma accept_event_slots:
  assumes "ring_inv n s" "ue_ltime m < - 1"
  shows "ring_inv n (snd (accept_event m s))"
    and "fst (accept_event m s) = event_fresh m s"
    and "sf_event_tx (snd (accept_event m s)) =
      sf_event_tx s @ (if fst (accept_event m s) then [Ev_User m] else [])"
    and "slot_events (snd (accept_event m s)) j =
      (if fst (accept_event m s) \<and> j = ring_index n (ue_ltime m)
       then insert (user_event_of m) (slot_events s j) else slot_events s j)"
    and "ec_min_time (sf_event_core (snd (accept_event m s))) = ec_min_time (sf_event_core s)"
proof -
  obtain b t where r: "accept_event m s = (b, t)" by fastforce
  have rb: "ring_bounded s" "ring_length s = n"
    using assms(1) by (simp_all add: ring_inv_def ring_bounded_def)
  note eff = handle_user_event_effect [OF accept_event_effect [OF rb(1) assms(2) r] rb(1), unfolded rb(2)]
  show "ring_inv n (snd (accept_event m s))" "fst (accept_event m s) = event_fresh m s"
    "sf_event_tx (snd (accept_event m s)) =
      sf_event_tx s @ (if fst (accept_event m s) then [Ev_User m] else [])"
    "slot_events (snd (accept_event m s)) j =
      (if fst (accept_event m s) \<and> j = ring_index n (ue_ltime m)
       then insert (user_event_of m) (slot_events s j) else slot_events s j)"
    "ec_min_time (sf_event_core (snd (accept_event m s))) = ec_min_time (sf_event_core s)"
    using eff assms(1) by (simp_all add: r ring_inv_def)
qed

interpretation event_ring: dedup "ring_inv n" "\<lambda>m. ue_ltime m < - 1"
  accept_event "\<lambda>m. (ring_index n (ue_ltime m), user_event_of m)" "\<lambda>(j, e) s. e \<in> slot_events s j" for n
proof (unfold_locales, goal_cases)
  case (2 s m)
  then show ?case by (auto simp: accept_event_slots event_fresh_def ring_inv_def)
qed (auto simp: accept_event_slots)

lemma accepted_event_tx:
  "ring_inv n s \<Longrightarrow> list_all (\<lambda>m. ue_ltime m < - 1) ms \<Longrightarrow>
   sf_event_tx (snd (accepted accept_event ms s)) =
     sf_event_tx s @ map Ev_User (fst (accepted accept_event ms s)) \<and>
   (\<forall>m \<in> set (fst (accepted accept_event ms s)). ec_min_time (sf_event_core s) \<le> ue_ltime m)"
proof (induction ms arbitrary: s)
  case (Cons m ms)
  obtain b t where r: "accept_event m s = (b, t)" by fastforce
  have m: "ue_ltime m < - 1" and ms: "list_all (\<lambda>m. ue_ltime m < - 1) ms"
    using Cons.prems(2) by simp_all
  note eff = accept_event_slots [OF Cons.prems(1) m, unfolded r, simplified]
  show ?case
    using Cons.IH [OF eff(1) ms] eff(2,3,5) r by (auto simp: event_fresh_def split: prod.split)
qed simp

lemma distinct_map_finer: "distinct (map (\<lambda>x. f (g x)) xs) \<Longrightarrow> distinct (map g xs)"
  using distinct_map [of f "map g xs"] by (simp add: comp_def)

lemma events_distinct:
  assumes "ring_bounded s" "list_all (\<lambda>m. ue_ltime m < - 1) ms"
  shows "distinct (map (\<lambda>m. (ue_ltime m, user_event_of m)) (fst (accepted accept_event ms s)))"
proof -
  let ?n = "ring_length s"
  have "ring_inv ?n s" using assms(1) by (simp add: ring_inv_def ring_bounded_def)
  from event_ring.at_most_once [OF this assms(2)]
  have "distinct (map (\<lambda>m. (\<lambda>(l, e). (ring_index ?n l, e)) (ue_ltime m, user_event_of m))
      (fst (accepted accept_event ms s)))"
    by simp
  then show ?thesis by (rule distinct_map_finer)
qed

lemma accepted_ring_pos:
  "ring_inv n s \<Longrightarrow> list_all (\<lambda>m. ue_ltime m < - 1) ms \<Longrightarrow> m \<in> set (fst (accepted accept_event ms s)) \<Longrightarrow> 0 < n"
proof (induction ms arbitrary: s)
  case (Cons m' ms)
  obtain b t where r: "accept_event m' s = (b, t)" by fastforce
  have m': "ue_ltime m' < - 1" and ms: "list_all (\<lambda>m. ue_ltime m < - 1) ms"
    using Cons.prems(2) by simp_all
  note eff = accept_event_slots [OF Cons.prems(1) m', unfolded r, simplified]
  show ?case
    using Cons.IH [OF eff(1) ms] Cons.prems(1,3) eff(2) empty_ring_old [OF m'] r
    by (auto simp: event_fresh_def ring_inv_def split: prod.splits if_splits)
qed simp

text \<open>
  The slots are never cleared: whatever their times, at most one event with a
  given name and payload is ever accepted per slot.
\<close>

lemma events_per_payload:
  assumes "ring_bounded s" "list_all (\<lambda>m. ue_ltime m < - 1) ms"
  shows "length (filter (\<lambda>m. user_event_of m = e) (fst (accepted accept_event ms s))) \<le> ring_length s"
proof -
  let ?n = "ring_length s" and ?k = "\<lambda>m. ring_index (ring_length s) (ue_ltime m)"
  let ?xs = "filter (\<lambda>m. user_event_of m = e) (fst (accepted accept_event ms s))"
  have inv: "ring_inv ?n s" using assms(1) by (simp add: ring_inv_def ring_bounded_def)
  have "distinct (map (\<lambda>m. (?k m, user_event_of m)) ?xs)"
    using event_ring.at_most_once [OF inv assms(2)] by (rule distinct_map_filter)
  then have "distinct (map ?k ?xs)"
    by (auto simp: distinct_map inj_on_def)
  then have "length ?xs = card (?k ` set ?xs)"
    by (metis distinct_card length_map list.set_map)
  also have "\<dots> \<le> card {..<?n}"
    using accepted_ring_pos [OF inv assms(2)] inv
    by (intro card_mono) (auto simp: ring_inv_def intro!: ring_index_less)
  finally show ?thesis by simp
qed

end
