(* ===== verification/Queries.thy ===== *)
theory Queries
  imports Membership Dedup
begin

text \<open>
  Queries: the handling of received queries in \<open>serf/base.rs\<close> (deduplication,
  filtering, acknowledging, relaying), the collection of responses in
  \<open>serf/query.rs\<close>, answering a query in \<open>event.rs\<close>, and starting one.

  Randomness is an argument: \<open>rnd i\<close> is the number drawn in round \<open>i\<close> of the
  shuffle. A received query comes with its filters still encoded; the
  conversion of borrowed identifiers to owned ones is part of decoding them.
\<close>

section \<open>Filters\<close>

datatype 'i filters =
    Owned "'i filter_q list"
  | Borrowed "(decode_error + filter_ref) list"

definition tag_filter_match :: "('i, 'a) proto \<Rightarrow> tags \<Rightarrow> tag_filter \<Rightarrow> bool" where
  "tag_filter_match P tgs tag =
     (if tgs \<noteq> [] then
        (case map_of tgs (tf_tag tag) of
           Some expr \<Rightarrow> (case tf_expr tag of Some re \<Rightarrow> regex_match P re expr | None \<Rightarrow> True)
         | None \<Rightarrow> False)
      else False)"

fun should_process_owned :: "('i, 'a) proto \<Rightarrow> 'i \<Rightarrow> tags \<Rightarrow> 'i filter_q list \<Rightarrow> bool" where
  "should_process_owned P loc tgs [] = True"
| "should_process_owned P loc tgs (Filter_Id nodes # fs) =
     (if loc \<in> set nodes then should_process_owned P loc tgs fs else False)"
| "should_process_owned P loc tgs (Filter_Tag tag # fs) =
     (if tag_filter_match P tgs tag then should_process_owned P loc tgs fs else False)"

text \<open>The borrowed form decodes one filter at a time and stops at the first
  filter that rejects, and within an id filter at the first match.\<close>

fun find_id :: "'i \<Rightarrow> (decode_error + 'i) list \<Rightarrow> decode_error + bool" where
  "find_id loc [] = Inr False"
| "find_id loc (Inl e # ids) = Inl e"
| "find_id loc (Inr i # ids) = (if i = loc then Inr True else find_id loc ids)"

definition tag_filter_match_ref ::
  "('i, 'a) proto \<Rightarrow> tags \<Rightarrow> tag_filter \<Rightarrow> decode_error + bool" where
  "tag_filter_match_ref P tgs tag =
     (if tgs \<noteq> [] then
        (case map_of tgs (tf_tag tag) of
           Some expr \<Rightarrow>
             (case tf_expr tag of
                Some re \<Rightarrow> if regex_new P re then Inr (regex_match P re expr) else Inl Decode_custom
              | None \<Rightarrow> Inr True)
         | None \<Rightarrow> Inr False)
      else Inr False)"

definition id_items :: "('i, 'a) proto \<Rightarrow> bytes option \<Rightarrow> (decode_error + 'i) list" where
  "id_items P w = (case w of None \<Rightarrow> [] | Some b \<Rightarrow> rep_id_iter P 1 b)"

fun should_process_borrowed ::
  "('i, 'a) proto \<Rightarrow> 'i \<Rightarrow> tags \<Rightarrow> (decode_error + filter_ref) list \<Rightarrow> decode_error + bool" where
  "should_process_borrowed P loc tgs [] = Inr True"
| "should_process_borrowed P loc tgs (Inl e # fs) = Inl e"
| "should_process_borrowed P loc tgs (Inr (FilterRef_Id w) # fs) =
     bind_res (find_id loc (id_items P w)) (\<lambda>found.
       if found then should_process_borrowed P loc tgs fs else Inr False)"
| "should_process_borrowed P loc tgs (Inr (FilterRef_Tag tag) # fs) =
     bind_res (tag_filter_match_ref P tgs tag) (\<lambda>ok.
       if ok then should_process_borrowed P loc tgs fs else Inr False)"

definition should_process_query ::
  "('i, 'a) proto \<Rightarrow> ('i, 'a) serf \<Rightarrow> 'i filters \<Rightarrow> decode_error + bool" where
  "should_process_query P s filters =
     (case filters of
        Borrowed fs \<Rightarrow> should_process_borrowed P (local_id s) (op_tags (sf_opts s)) fs
      | Owned fs \<Rightarrow> Inr (should_process_owned P (local_id s) (op_tags (sf_opts s)) fs))"

text \<open>The encoded filters of a received query.\<close>

definition filter_items :: "('i, 'a) proto \<Rightarrow> bytes option \<Rightarrow> (decode_error + filter_ref) list" where
  "filter_items P w =
     (case rep_items (rep_ld P 4) w of
        Inl e \<Rightarrow> [Inl e]
      | Inr bs \<Rightarrow> map (\<lambda>b. map_res snd (decode_filter_ref P b)) bs)"

section \<open>Relaying\<close>

definition swap :: "nat \<Rightarrow> nat \<Rightarrow> 'x list \<Rightarrow> 'x list" where
  "swap i j xs = xs[i := xs ! j, j := xs ! i]"

function shuffle :: "(nat \<Rightarrow> u32) \<Rightarrow> nat \<Rightarrow> nat \<Rightarrow> nat \<Rightarrow> nat \<Rightarrow> 'x list \<Rightarrow> 'x list" where
  "shuffle rnd k n rounds i xs =
     (if i < rounds \<and> i < n then
        (let j = unat (rnd i) mod (n - i) + i;
             xs = swap i j xs
         in if i + 1 \<ge> k \<and> i + 1 \<ge> rounds then xs else shuffle rnd k n rounds (i + 1) xs)
      else xs)"
  by pat_completeness auto
termination
  by (relation "measure (\<lambda>(_, _, n, _, i, _). n - i)") auto

declare shuffle.simps [simp del]

definition random_members ::
  "(nat \<Rightarrow> u32) \<Rightarrow> nat \<Rightarrow> ('i, 'a) member list \<Rightarrow> ('i, 'a) member list" where
  "random_members rnd k members =
     (let n = length members
      in if n = 0 then [] else take k (shuffle rnd k n (3 * n) 0 members))"

definition relay_candidates :: "('i, 'a) serf \<Rightarrow> ('i, 'a) member list" where
  "relay_candidates s =
     map (\<lambda>(i, m). ms_member m)
       (filter (\<lambda>(i, m). ms_status m = Alive \<and> i \<noteq> local_id s) (states (sf_members s)))"

text \<open>Failed sends are collected and dropped.\<close>

definition relay_response ::
  "('i, 'a) proto \<Rightarrow> (nat \<Rightarrow> u32) \<Rightarrow> u8 \<Rightarrow> ('i, 'a) node \<Rightarrow> ('i, 'a) query_response_message
   \<Rightarrow> ('i, 'a) serf \<Rightarrow> (serf_error + unit) \<times> ('i, 'a) serf" where
  "relay_response P rnd relay_factor node resp s =
     (if relay_factor = 0 then (Inr (), s)
      else if length (states (sf_members s)) < unat relay_factor + 1 then (Inr (), s)
      else
        (let members = relay_candidates s;
             limit = op_query_response_size_limit (sf_opts s)
         in if members = [] then (Inr (), s)
            else if limit < encoded_relay_message_len P (encoded_len_query_response P resp) node
              then (Inl (Relayed_response_too_large limit), s)
            else case relay_to_bytes P (Msg_QueryResponse resp) node of
              Inl e \<Rightarrow> (Inl (Encode_failed e), s)
            | Inr raw \<Rightarrow>
                (Inr (), fold (\<lambda>m. ml_send (node_addr (m_node m)) raw)
                           (random_members rnd (unat relay_factor) members) s)))"

section \<open>Received queries\<close>

record ('i, 'a) received_query =
  rq_msg :: "('i, 'a) query_message"
  rq_filters :: "'i filters"

text \<open>The first half of \<open>handle_query\<close>: witness the time, apply the two age
  tests, and record the id in its slot of the ring unless it is there.\<close>

definition set_query_slot :: "nat \<Rightarrow> queries \<Rightarrow> ('i, 'a) serf \<Rightarrow> ('i, 'a) serf" where
  "set_query_slot idx q s =
     s\<lparr>sf_query_core := (sf_query_core s)
        \<lparr>qco_buffer := (qco_buffer (sf_query_core s))[idx := Some q]\<rparr>\<rparr>"

definition record_query ::
  "lamport_time \<Rightarrow> u32 \<Rightarrow> ('i, 'a) serf \<Rightarrow> panic + bool \<times> ('i, 'a) serf" where
  "record_query ltime qid s0 =
     (let s = s0\<lparr>sf_query_clock := clock_witness ltime (sf_query_clock s0)\<rparr>;
          query = sf_query_core s
      in if ltime < qco_min_time query then Inr (False, s)
         else
           (let cur_time = clock_time (sf_query_clock s);
                q_time = length (qco_buffer query)
            in if too_old q_time cur_time ltime then Inr (False, s)
               else if (of_nat q_time :: u64) = 0 then Inl Division_by_zero
               else
                 (let idx = ring_index q_time ltime;
                      fresh = \<lparr>qs_ltime = ltime, qs_query_ids = [qid]\<rparr>
                  in if \<not> idx < q_time then Inl Index_out_of_bounds
                     else case qco_buffer query ! idx of
                       Some seen \<Rightarrow>
                         if qs_ltime seen = ltime
                         then (if qid \<in> set (qs_query_ids seen) then Inr (False, s)
                               else Inr (True, set_query_slot idx
                                      (seen\<lparr>qs_query_ids := qs_query_ids seen @ [qid]\<rparr>) s))
                         else Inr (True, set_query_slot idx fresh s)
                     | None \<Rightarrow> Inr (True, set_query_slot idx fresh s))))"

definition make_query_event :: "nat \<Rightarrow> ('i, 'a) query_message \<Rightarrow> ('i, 'a) query_event" where
  "make_query_event now q =
     \<lparr>qe_ltime = qm_ltime q, qe_name = qm_name q, qe_payload = qm_payload q,
      qe_ctx = \<lparr>qc_query_timeout = qm_timeout q, qc_span = Some now\<rparr>,
      qe_id = qm_id q, qe_from = qm_from q, qe_relay_factor = qm_relay_factor q\<rparr>"

text \<open>The acknowledgement: sent to the originator, then relayed to it.\<close>

definition send_query_ack ::
  "('i, 'a) proto \<Rightarrow> (nat \<Rightarrow> u32) \<Rightarrow> ('i, 'a) query_message \<Rightarrow> ('i, 'a) serf \<Rightarrow> ('i, 'a) serf" where
  "send_query_ack P rnd q s =
     (let ack = \<lparr>qr_ltime = qm_ltime q, qr_id = qm_id q, qr_from = sf_local s,
                 qr_flags = query_flag_ack, qr_payload = []\<rparr>
      in case message_to_bytes P (Msg_QueryResponse ack) of
           Inl e \<Rightarrow> s
         | Inr raw \<Rightarrow>
             snd (relay_response P rnd (qm_relay_factor q) (qm_from q) ack
                    (ml_send (node_addr (qm_from q)) raw s)))"

definition handle_query ::
  "('i, 'a) proto \<Rightarrow> nat \<Rightarrow> (nat \<Rightarrow> u32) \<Rightarrow> ('i, 'a) received_query \<Rightarrow> 'i internal_query_event option
   \<Rightarrow> ('i, 'a) serf \<Rightarrow> panic + (decode_error + bool) \<times> ('i, 'a) serf" where
  "handle_query P now rnd rq ty s0 =
     (let q = rq_msg rq
      in bind_res (record_query (qm_ltime q) (qm_id q) s0) (\<lambda>(new, s).
           Inr (if \<not> new then (Inr False, s)
                else
                  (let rebroadcast = \<not> query_no_broadcast q
                   in case should_process_query P s (rq_filters rq) of
                        Inl e \<Rightarrow> (Inl e, s)
                      | Inr False \<Rightarrow> (Inr rebroadcast, s)
                      | Inr True \<Rightarrow>
                          (let s = (if query_ack q then send_query_ack P rnd q s else s);
                               ev = make_query_event now q
                           in (Inr rebroadcast,
                               send_event (case ty of Some t \<Rightarrow> Ev_InternalQuery t ev
                                           | None \<Rightarrow> Ev_Query ev) s))))))"


section \<open>Answering a query\<close>

definition check_response_size :: "nat \<Rightarrow> ('i, 'a) serf \<Rightarrow> serf_error + unit" where
  "check_response_size sz s =
     (let limit = op_query_response_size_limit (sf_opts s)
      in if limit < sz then Inl (Query_response_too_large limit sz) else Inr ())"

text \<open>
  The context is shared by the clones of an event, so it is threaded through.
  \<open>sent\<close> tells whether memberlist accepted the packet to the originator.
\<close>

definition respond_with_message_and_response ::
  "('i, 'a) proto \<Rightarrow> (nat \<Rightarrow> u32) \<Rightarrow> nat \<Rightarrow> bool \<Rightarrow> 'a \<Rightarrow> u8 \<Rightarrow> bytes \<Rightarrow> ('i, 'a) query_response_message
   \<Rightarrow> query_context \<Rightarrow> ('i, 'a) serf \<Rightarrow> (serf_error + unit) \<times> query_context \<times> ('i, 'a) serf" where
  "respond_with_message_and_response P rnd now sent respond_to relay_factor raw resp ctx s =
     (case check_response_size (length raw) s of
        Inl e \<Rightarrow> (Inl e, ctx, s)
      | Inr _ \<Rightarrow>
          (case qc_span ctx of
             Some t0 \<Rightarrow>
               if qc_query_timeout ctx < now - t0 then (Inl Query_timeout, ctx, s)
               else if \<not> sent then (Inl Memberlist_error, ctx, s)
               else
                 (case relay_response P rnd relay_factor (qr_from resp) resp (ml_send respond_to raw s) of
                    (Inl e, s) \<Rightarrow> (Inl e, ctx, s)
                  | (Inr _, s) \<Rightarrow> (Inr (), ctx\<lparr>qc_span := None\<rparr>, s))
           | None \<Rightarrow> (Inl Query_already_responsed, ctx, s)))"

definition respond ::
  "('i, 'a) proto \<Rightarrow> (nat \<Rightarrow> u32) \<Rightarrow> nat \<Rightarrow> bool \<Rightarrow> ('i, 'a) query_event \<Rightarrow> bytes
   \<Rightarrow> query_context \<Rightarrow> ('i, 'a) serf \<Rightarrow> (serf_error + unit) \<times> query_context \<times> ('i, 'a) serf" where
  "respond P rnd now sent ev msg ctx s =
     (let resp = \<lparr>qr_ltime = qe_ltime ev, qr_id = qe_id ev, qr_from = sf_local s,
                  qr_flags = 0, qr_payload = msg\<rparr>
      in case message_to_bytes P (Msg_QueryResponse resp) of
           Inl e \<Rightarrow> (Inl (Encode_failed e), ctx, s)
         | Inr buf \<Rightarrow>
             respond_with_message_and_response P rnd now sent (node_addr (qe_from ev))
               (qe_relay_factor ev) buf resp ctx s)"

section \<open>Collecting responses\<close>

text \<open>Sending on a bounded channel without waiting: it is refused when the
  channel is full; on a closed channel the send completes with an error, which
  the code takes as done.\<close>

definition try_send :: "'x \<Rightarrow> 'x chan \<Rightarrow> 'x chan option" where
  "try_send x ch =
     (if ch_closed ch then Some ch
      else if length (ch_queue ch) < ch_cap ch then Some (ch\<lparr>ch_queue := ch_queue ch @ [x]\<rparr>)
      else None)"

definition bounded :: "nat \<Rightarrow> panic + 'x chan" where
  "bounded n = (if n = 0 then Inl Zero_capacity
     else Inr \<lparr>ch_cap = n, ch_queue = [], ch_closed = False\<rparr>)"

definition query_response_new ::
  "u32 \<Rightarrow> lamport_time \<Rightarrow> nat \<Rightarrow> nat \<Rightarrow> bool \<Rightarrow> panic + ('i, 'a) query_response" where
  "query_response_new qid ltime num_nodes deadline ack =
     bind_res (if ack then map_res Some (bounded num_nodes) else Inr None) (\<lambda>ack_ch.
     map_res (\<lambda>resp_ch. \<lparr>qp_deadline = deadline, qp_id = qid, qp_ltime = ltime, qp_closed = False,
         qp_acks = [], qp_responses = [], qp_ack_ch = ack_ch, qp_resp_ch = resp_ch\<rparr>)
       (bounded num_nodes))"

definition query_response_from_query ::
  "nat \<Rightarrow> ('i, 'a) query_message \<Rightarrow> nat \<Rightarrow> panic + ('i, 'a) query_response" where
  "query_response_from_query now q num_nodes =
     query_response_new (qm_id q) (qm_ltime q) num_nodes (now + qm_timeout q) (query_ack q)"

definition finished :: "nat \<Rightarrow> ('i, 'a) query_response \<Rightarrow> bool" where
  "finished now c \<longleftrightarrow> qp_closed c \<or> qp_deadline c < now"

definition close_chan :: "'x chan \<Rightarrow> 'x chan" where
  "close_chan ch = ch\<lparr>ch_closed := True\<rparr>"

definition close_response :: "('i, 'a) query_response \<Rightarrow> ('i, 'a) query_response" where
  "close_response c =
     (if qp_closed c then c
      else c\<lparr>qp_closed := True, qp_ack_ch := map_option close_chan (qp_ack_ch c),
             qp_resp_ch := close_chan (qp_resp_ch c)\<rparr>)"

definition send_response ::
  "('i, 'a) node_response \<Rightarrow> ('i, 'a) query_response
   \<Rightarrow> (serf_error + unit) \<times> ('i, 'a) query_response" where
  "send_response nr c =
     (if nr_from nr \<in> set (qp_responses c) then (Inr (), c)
      else if qp_closed c then (Inr (), c)
      else case try_send nr (qp_resp_ch c) of
        Some ch \<Rightarrow> (Inr (), c\<lparr>qp_resp_ch := ch, qp_responses := nr_from nr # qp_responses c\<rparr>)
      | None \<Rightarrow> (Inl Query_response_delivery_failed, c))"

definition send_ack ::
  "('i, 'a) query_response_message \<Rightarrow> ('i, 'a) query_response
   \<Rightarrow> (serf_error + unit) \<times> ('i, 'a) query_response" where
  "send_ack nr c =
     (if qr_from nr \<in> set (qp_acks c) then (Inr (), c)
      else if qp_closed c then (Inr (), c)
      else case qp_ack_ch c of
        Some tx \<Rightarrow>
          (case try_send (qr_from nr) tx of
             Some ch \<Rightarrow> (Inr (), c\<lparr>qp_ack_ch := Some ch, qp_acks := qr_from nr # qp_acks c\<rparr>)
           | None \<Rightarrow> (Inl Query_response_delivery_failed, c))
      | None \<Rightarrow> (Inr (), c))"

definition collect_response ::
  "nat \<Rightarrow> ('i, 'a) query_response_message \<Rightarrow> ('i, 'a) query_response \<Rightarrow> ('i, 'a) query_response" where
  "collect_response now resp c =
     (if qp_closed c \<or> qp_deadline c < now then c
      else if query_response_ack resp then
        (if qr_from resp \<in> set (qp_acks c) then c else snd (send_ack resp c))
      else
        (if qr_from resp \<in> set (qp_responses c) then c
         else snd (send_response \<lparr>nr_from = qr_from resp, nr_payload = qr_payload resp\<rparr> c)))"

text \<open>\<open>handle_query_response\<close> of \<open>serf/base.rs\<close>: the collector is found by the
  Lamport time of the response, and its id must match.\<close>

definition handle_query_response ::
  "nat \<Rightarrow> ('i, 'a) query_response_message \<Rightarrow> ('i, 'a) serf \<Rightarrow> ('i, 'a) serf" where
  "handle_query_response now resp s =
     (let core = sf_query_core s
      in case map_of (qco_responses core) (qr_ltime resp) of
           None \<Rightarrow> s
         | Some query \<Rightarrow>
             if qp_id query \<noteq> qr_id resp then s
             else s\<lparr>sf_query_core := core\<lparr>qco_responses :=
                    AList.update (qr_ltime resp) (collect_response now resp query) (qco_responses core)\<rparr>\<rparr>)"

section \<open>Starting a query\<close>

record 'i query_param =
  qpar_filters :: "'i filter_q list"
  qpar_request_ack :: bool
  qpar_relay_factor :: u8
  qpar_timeout :: nat

text \<open>\<open>log10(n).ceil()\<close>, for positive \<open>n\<close>.\<close>

function ceil_log10 :: "nat \<Rightarrow> nat" where
  "ceil_log10 n = (if n \<le> 1 then 0 else Suc (ceil_log10 ((n + 9) div 10)))"
  by pat_completeness auto
termination
  by (relation "measure (\<lambda>n. n)") auto

declare ceil_log10.simps [simp del]

definition default_query_timeout :: "nat \<Rightarrow> options \<Rightarrow> nat" where
  "default_query_timeout online opts =
     op_gossip_interval opts * (op_query_timeout_mult opts mod 2 ^ 32) * ceil_log10 (online + 1)"

definition default_query_param :: "nat \<Rightarrow> options \<Rightarrow> 'i query_param" where
  "default_query_param online opts =
     \<lparr>qpar_filters = [], qpar_request_ack = False, qpar_relay_factor = 0,
      qpar_timeout = default_query_timeout online opts\<rparr>"

definition resolve_params :: "nat \<Rightarrow> options \<Rightarrow> 'i query_param option \<Rightarrow> 'i query_param" where
  "resolve_params online opts params =
     (case params of
        Some p \<Rightarrow> if qpar_timeout p \<noteq> 0 then p
                  else p\<lparr>qpar_timeout := default_query_timeout online opts\<rparr>
      | None \<Rightarrow> default_query_param online opts)"

definition register_query_response ::
  "nat \<Rightarrow> ('i, 'a) query_response \<Rightarrow> ('i, 'a) serf \<Rightarrow> ('i, 'a) serf" where
  "register_query_response timeout resp s =
     spawn_task (Task_CloseQuery timeout (qp_ltime resp))
       (s\<lparr>sf_query_core := (sf_query_core s)\<lparr>qco_responses :=
            AList.update (qp_ltime resp) resp (qco_responses (sf_query_core s))\<rparr>\<rparr>)"

text \<open>The timer of a query: it is deregistered and closed. The closed collector
  is what the client still holds.\<close>

definition close_registered ::
  "lamport_time \<Rightarrow> ('i, 'a) serf \<Rightarrow> ('i, 'a) query_response option \<times> ('i, 'a) serf" where
  "close_registered ltime s =
     (map_option close_response (map_of (qco_responses (sf_query_core s)) ltime),
      s\<lparr>sf_query_core := (sf_query_core s)\<lparr>qco_responses :=
           AList.delete ltime (qco_responses (sf_query_core s))\<rparr>\<rparr>)"

text \<open>\<open>online\<close> is memberlist's count of online members, \<open>qid\<close> the random id.\<close>

definition query_in ::
  "('i, 'a) proto \<Rightarrow> nat \<Rightarrow> (nat \<Rightarrow> u32) \<Rightarrow> nat \<Rightarrow> u32 \<Rightarrow> string \<Rightarrow> bytes \<Rightarrow> 'i query_param option
   \<Rightarrow> 'i internal_query_event option \<Rightarrow> ('i, 'a) serf
   \<Rightarrow> panic + (serf_error + ('i, 'a) query_response) \<times> ('i, 'a) serf" where
  "query_in P now rnd online qid name payload params ty s =
     (let params = resolve_params online (sf_opts s) params;
          q = \<lparr>qm_ltime = clock_time (sf_query_clock s), qm_id = qid, qm_from = sf_local s,
               qm_filters = qpar_filters params,
               qm_flags = (if qpar_request_ack params then query_flag_ack else 0),
               qm_relay_factor = qpar_relay_factor params, qm_timeout = qpar_timeout params,
               qm_name = name, qm_payload = payload\<rparr>;
          len = encoded_message_len P (encoded_len_query P q)
      in if op_query_size_limit (sf_opts s) < len then Inr (Inl (Query_too_large len), s)
         else case message_to_bytes P (Msg_Query q) of
           Inl e \<Rightarrow> Inr (Inl (Encode_failed e), s)
         | Inr raw \<Rightarrow>
             bind_res (query_response_from_query now q online) (\<lambda>resp.
             bind_res (handle_query P now rnd \<lparr>rq_msg = q, rq_filters = Owned (qm_filters q)\<rparr> ty
                        (register_query_response (qpar_timeout params) resp s)) (\<lambda>(r, s).
             case r of
               Inl e \<Rightarrow> Inr (Inl (Decode_failed e), s)
             | Inr _ \<Rightarrow> Inr (Inr resp, queue_query_broadcast raw s))))"

end
