(* ===== verification/Query_Ring.thy ===== *)
theory Query_Ring
  imports Queries "HOL-Library.Sublist"
begin

text \<open>
  The ring of recent queries and what it promises: a query is handled at most
  once, and the decisions of the ring are those of a node that remembers every
  query it has ever handled.
\<close>

section \<open>What the handlers leave alone\<close>

lemma fold_ml_send:
  "fold (\<lambda>m. ml_send (f m) raw) ms s = s\<lparr>sf_sent := sf_sent s @ map (\<lambda>m. (f m, raw)) ms\<rparr>"
  by (induction ms arbitrary: s) (simp_all add: ml_send_def)

lemma relay_response_frame: "\<exists>xs. snd (relay_response P rnd rf node resp s) = s\<lparr>sf_sent := sf_sent s @ xs\<rparr>"
proof -
  have "\<exists>xs. s = s\<lparr>sf_sent := sf_sent s @ xs\<rparr>"
    by (intro exI [of _ "[]"]) simp
  then show ?thesis
    by (auto simp: relay_response_def Let_def fold_ml_send split: sum.split)
qed

lemma send_query_ack_frame: "\<exists>xs. send_query_ack P rnd q s = s\<lparr>sf_sent := sf_sent s @ xs\<rparr>"
proof -
  have none: "\<exists>xs. s = s\<lparr>sf_sent := sf_sent s @ xs\<rparr>"
    by (intro exI [of _ "[]"]) simp
  have "\<exists>xs. snd (relay_response P rnd rf n r (ml_send a b s)) = s\<lparr>sf_sent := sf_sent s @ xs\<rparr>" for rf n r a b
    using relay_response_frame [of P rnd rf n r "ml_send a b s"] by (auto simp: ml_send_def)
  then show ?thesis
    using none by (auto simp: send_query_ack_def Let_def split: sum.split)
qed

section \<open>The slots of the ring\<close>

abbreviation qring_length :: "('i, 'a) serf \<Rightarrow> nat" where
  "qring_length s \<equiv> length (qco_buffer (sf_query_core s))"

definition qslot :: "('i, 'a) serf \<Rightarrow> nat \<Rightarrow> queries option" where
  "qslot s j = (if j < qring_length s then qco_buffer (sf_query_core s) ! j else None)"

definition in_slot :: "lamport_time \<Rightarrow> u32 \<Rightarrow> queries option \<Rightarrow> bool" where
  "in_slot t i q \<longleftrightarrow> (case q of None \<Rightarrow> False | Some seen \<Rightarrow> qs_ltime seen = t \<and> i \<in> set (qs_query_ids seen))"

definition slot_after :: "lamport_time \<Rightarrow> u32 \<Rightarrow> queries option \<Rightarrow> queries" where
  "slot_after t i q =
     (case q of
        Some seen \<Rightarrow> if qs_ltime seen = t then seen\<lparr>qs_query_ids := qs_query_ids seen @ [i]\<rparr>
                     else \<lparr>qs_ltime = t, qs_query_ids = [i]\<rparr>
      | None \<Rightarrow> \<lparr>qs_ltime = t, qs_query_ids = [i]\<rparr>)"

definition query_young :: "lamport_time \<Rightarrow> ('i, 'a) serf \<Rightarrow> bool" where
  "query_young t s \<longleftrightarrow>
     qco_min_time (sf_query_core s) \<le> t \<and>
     \<not> too_old (qring_length s) (clock_witness t (sf_query_clock s)) t"

lemma record_query_effect:
  assumes "record_query t i s = Inr (b, s')" "qring_length s < 2 ^ 64"
  defines "j \<equiv> ring_index (qring_length s) t"
  shows "b \<longleftrightarrow> query_young t s \<and> \<not> in_slot t i (qslot s j)"
    and "qring_length s' = qring_length s"
    and "qco_min_time (sf_query_core s') = qco_min_time (sf_query_core s)"
    and "sf_query_clock s' = clock_witness t (sf_query_clock s)"
    and "qslot s' k = (if b \<and> k = j then Some (slot_after t i (qslot s j)) else qslot s k)"
    and "b \<Longrightarrow> j < qring_length s"
    and "sf_event_tx s' = sf_event_tx s" "qco_responses (sf_query_core s') = qco_responses (sf_query_core s)"
  using assms(1,2) unfolding j_def
  by (auto simp: record_query_def Let_def query_young_def clock_time_def set_query_slot_def in_slot_def
      slot_after_def qslot_def split: if_splits option.splits)

lemma record_query_returns:
  assumes "qring_length s < 2 ^ 64" "t < - 1"
  shows "\<exists>r. record_query t i s = Inr r"
proof (cases "qring_length s = 0")
  case True
  then show ?thesis
    using empty_ring_old [OF assms(2)] by (auto simp: record_query_def Let_def clock_time_def)
next
  case False
  then show ?thesis
    using assms ring_index_less [of "qring_length s" t]
    by (auto simp: record_query_def Let_def ring_length_pos split: option.split)
qed


section \<open>A query is handled at most once\<close>

text \<open>
  What reaches the ring: a query, from the network or started here, and the
  query clock of another node in a push/pull exchange.
\<close>

datatype ('i, 'a) query_input =
    Receive nat "nat \<Rightarrow> u32" "('i, 'a) received_query" "'i internal_query_event option"
  | Witness_query_time lamport_time

fun input_key :: "('i, 'a) query_input \<Rightarrow> (lamport_time \<times> u32) option" where
  "input_key (Receive now rnd rq ty) = Some (qm_ltime (rq_msg rq), qm_id (rq_msg rq))"
| "input_key (Witness_query_time t) = None"

fun input_time :: "('i, 'a) query_input \<Rightarrow> lamport_time" where
  "input_time (Receive now rnd rq ty) = qm_ltime (rq_msg rq)"
| "input_time (Witness_query_time t) = t"

definition recorded :: "lamport_time \<Rightarrow> u32 \<Rightarrow> ('i, 'a) serf \<Rightarrow> bool" where
  "recorded t i s = (case record_query t i s of Inr (b, _) \<Rightarrow> b | Inl _ \<Rightarrow> False)"

fun accept_query ::
  "('i, 'a) proto \<Rightarrow> ('i, 'a) query_input \<Rightarrow> ('i, 'a) serf \<Rightarrow> bool \<times> ('i, 'a) serf" where
  "accept_query P (Receive now rnd rq ty) s =
     (recorded (qm_ltime (rq_msg rq)) (qm_id (rq_msg rq)) s,
      case handle_query P now rnd rq ty s of Inr (_, s') \<Rightarrow> s' | Inl _ \<Rightarrow> s)"
| "accept_query P (Witness_query_time t) s =
     (False, s\<lparr>sf_query_clock := clock_witness t (sf_query_clock s)\<rparr>)"

definition qring_inv :: "nat \<Rightarrow> ('i, 'a) serf \<Rightarrow> bool" where
  "qring_inv n s \<longleftrightarrow> qring_length s = n \<and> n < 2 ^ 64 \<and>
     (\<forall>j q. qslot s j = Some q \<longrightarrow> ring_index n (qs_ltime q) = j \<and> qs_ltime q < sf_query_clock s)"

text \<open>A query that the ring will not record again: its slot holds it, or a later time.\<close>

definition query_blocked :: "nat \<Rightarrow> (lamport_time \<times> u32) option \<Rightarrow> ('i, 'a) serf \<Rightarrow> bool" where
  "query_blocked n k s \<longleftrightarrow>
     (case k of
        None \<Rightarrow> False
      | Some (t, i) \<Rightarrow> in_slot t i (qslot s (ring_index n t)) \<or>
          (\<exists>q. qslot s (ring_index n t) = Some q \<and> t < qs_ltime q))"

lemma qslot_cong: "sf_query_core s' = sf_query_core s \<Longrightarrow> qslot s' = qslot s"
  by (simp add: qslot_def fun_eq_iff)

lemma handle_query_core:
  assumes "handle_query P now rnd rq ty s = Inr (r, s')"
  obtains b u where "record_query (qm_ltime (rq_msg rq)) (qm_id (rq_msg rq)) s = Inr (b, u)"
    "sf_query_core s' = sf_query_core u" "sf_query_clock s' = sf_query_clock u"
proof -
  obtain b u where u: "record_query (qm_ltime (rq_msg rq)) (qm_id (rq_msg rq)) s = Inr (b, u)"
    using assms by (cases "record_query (qm_ltime (rq_msg rq)) (qm_id (rq_msg rq)) s")
      (auto simp: handle_query_def Let_def)
  obtain xs where "send_query_ack P rnd (rq_msg rq) u = u\<lparr>sf_sent := sf_sent u @ xs\<rparr>"
    using send_query_ack_frame by blast
  then have "sf_query_core s' = sf_query_core u \<and> sf_query_clock s' = sf_query_clock u"
    using assms u by (auto simp: handle_query_def Let_def send_event_def split: if_splits sum.splits bool.splits)
  then show ?thesis using that u by blast
qed

lemma record_query_frame:
  "record_query t i s = Inr (b, s') \<Longrightarrow>
   s' = s\<lparr>sf_query_core := sf_query_core s', sf_query_clock := sf_query_clock s'\<rparr>"
  by (auto simp: record_query_def set_query_slot_def Let_def split: if_splits option.splits)

lemma handle_query_frame:
  assumes "handle_query P now rnd rq ty s = Inr (r, s')"
  shows "s' = s\<lparr>sf_query_core := sf_query_core s', sf_query_clock := sf_query_clock s',
    sf_event_tx := sf_event_tx s', sf_sent := sf_sent s'\<rparr>"
proof -
  obtain b u where u: "record_query (qm_ltime (rq_msg rq)) (qm_id (rq_msg rq)) s = Inr (b, u)"
    using handle_query_core [OF assms] by blast
  obtain xs where "send_query_ack P rnd (rq_msg rq) u = u\<lparr>sf_sent := sf_sent u @ xs\<rparr>"
    using send_query_ack_frame by blast
  then have "s' = u\<lparr>sf_event_tx := sf_event_tx s', sf_sent := sf_sent s'\<rparr>"
    using assms u by (auto simp: handle_query_def Let_def send_event_def split: if_splits sum.splits bool.splits)
  then show ?thesis
    using record_query_frame [OF u] by (cases s; cases u; cases s') simp
qed

lemma handle_query_returns:
  assumes "qring_length s < 2 ^ 64" "qm_ltime (rq_msg rq) < - 1"
  shows "\<exists>r s'. handle_query P now rnd rq ty s = Inr (r, s')"
  using record_query_returns [OF assms, of "qm_id (rq_msg rq)"]
  by (auto simp: handle_query_def Let_def split_beta)

lemma accept_query_effect:
  fixes P :: "('i, 'a) proto"
  assumes inv: "qring_inv n s" and t: "input_time m < - 1"
  defines "s' \<equiv> snd (accept_query P m s)" and "b \<equiv> fst (accept_query P m s)"
  shows "qring_length s' = n" "qco_min_time (sf_query_core s') = qco_min_time (sf_query_core s)"
    and "sf_query_clock s' = clock_witness (input_time m) (sf_query_clock s)"
    and "b \<longleftrightarrow> (\<exists>i. input_key m = Some (input_time m, i) \<and> query_young (input_time m) s \<and>
           \<not> in_slot (input_time m) i (qslot s (ring_index n (input_time m))))"
    and "qslot s' k = (if b \<and> k = ring_index n (input_time m)
           then Some (slot_after (input_time m) (snd (the (input_key m))) (qslot s k)) else qslot s k)"
proof -
  have n: "qring_length s = n" "n < 2 ^ 64"
    using inv by (simp_all add: qring_inv_def)
  have "qring_length s' = n \<and> qco_min_time (sf_query_core s') = qco_min_time (sf_query_core s) \<and>
    sf_query_clock s' = clock_witness (input_time m) (sf_query_clock s) \<and>
    (b \<longleftrightarrow> (\<exists>i. input_key m = Some (input_time m, i) \<and> query_young (input_time m) s \<and>
           \<not> in_slot (input_time m) i (qslot s (ring_index n (input_time m))))) \<and>
    qslot s' k = (if b \<and> k = ring_index n (input_time m)
           then Some (slot_after (input_time m) (snd (the (input_key m))) (qslot s k)) else qslot s k)"
  proof (cases m)
    case (Receive now rnd rq ty)
    obtain r v where hq: "handle_query P now rnd rq ty s = Inr (r, v)"
      using handle_query_returns [of s rq P now rnd ty] n t Receive by auto
    obtain b' u where rec: "record_query (qm_ltime (rq_msg rq)) (qm_id (rq_msg rq)) s = Inr (b', u)"
      and u: "sf_query_core v = sf_query_core u" "sf_query_clock v = sf_query_clock u"
      using handle_query_core [OF hq] by blast
    have s': "s' = v" "b = b'"
      using hq rec by (simp_all add: s'_def b_def Receive recorded_def)
    show ?thesis
      using record_query_effect [OF rec] n u qslot_cong [OF u(1)] s' by (simp add: Receive)
  qed (simp add: s'_def b_def n qslot_def)
  then show "qring_length s' = n" "qco_min_time (sf_query_core s') = qco_min_time (sf_query_core s)"
    "sf_query_clock s' = clock_witness (input_time m) (sf_query_clock s)"
    "b \<longleftrightarrow> (\<exists>i. input_key m = Some (input_time m, i) \<and> query_young (input_time m) s \<and>
           \<not> in_slot (input_time m) i (qslot s (ring_index n (input_time m))))"
    "qslot s' k = (if b \<and> k = ring_index n (input_time m)
           then Some (slot_after (input_time m) (snd (the (input_key m))) (qslot s k)) else qslot s k)"
    by blast+
qed

lemma slot_after_ltime [simp]: "qs_ltime (slot_after t i q) = t"
  by (simp add: slot_after_def split: option.split)

text \<open>A query young enough never meets a later time in its slot.\<close>

lemma young_slot:
  assumes "qring_inv n s" "query_young t s" "t < - 1" "qslot s (ring_index n t) = Some q"
  shows "qs_ltime q \<le> t"
proof -
  have "qs_ltime q < clock_witness t (sf_query_clock s)"
    using assms(1,4) clock_witness_ge [OF assms(3), of "sf_query_clock s"]
    by (auto simp: qring_inv_def intro: less_le_trans)
  then show ?thesis
    using assms ring_newer [of n "qs_ltime q" "clock_witness t (sf_query_clock s)" t]
    by (auto simp: qring_inv_def query_young_def)
qed

lemma accept_query_inv:
  assumes inv: "qring_inv n s" and t: "input_time m < - 1"
  shows "qring_inv n (snd (accept_query P m s))"
proof -
  note eff = accept_query_effect [OF inv t, of P]
  have "ring_index n (qs_ltime q) = j \<and> qs_ltime q < clock_witness (input_time m) (sf_query_clock s)"
    if q: "qslot (snd (accept_query P m s)) j = Some q" for j q
  proof (cases "fst (accept_query P m s) \<and> j = ring_index n (input_time m)")
    case True
    then show ?thesis using q eff(5) [of j] clock_witness_gt [OF t] by auto
  next
    case False
    then have "qslot s j = Some q" using q eff(5) [of j] by auto
    then show ?thesis
      using inv clock_witness_ge [OF t, of "sf_query_clock s"] by (auto simp: qring_inv_def intro: less_le_trans)
  qed
  then show ?thesis
    using inv eff(1,3) by (simp add: qring_inv_def)
qed

lemma accept_query_blocked:
  assumes inv: "qring_inv n s" and t: "input_time m < - 1" and k: "query_blocked n k s"
  shows "query_blocked n k (snd (accept_query P m s))"
proof -
  note eff = accept_query_effect [OF inv t, of P]
  obtain u i where ui: "k = Some (u, i)"
    using k by (auto simp: query_blocked_def split: option.splits)
  show ?thesis
  proof (cases "fst (accept_query P m s) \<and> ring_index n u = ring_index n (input_time m)")
    case True
    obtain q where q: "qslot s (ring_index n u) = Some q" "u \<le> qs_ltime q"
      and ids: "u < qs_ltime q \<or> i \<in> set (qs_query_ids q)"
      using k ui by (auto simp: query_blocked_def in_slot_def split: option.splits)
    have "qs_ltime q \<le> input_time m"
      using young_slot [OF inv _ t] q(1) True eff(4) by auto
    then show ?thesis
      using True q ids eff(5) [of "ring_index n u"] ui
      by (auto simp: query_blocked_def in_slot_def slot_after_def not_less order.order_iff_strict)
  next
    case False
    then show ?thesis using k ui eff(5) [of "ring_index n u"] by (auto simp: query_blocked_def)
  qed
qed

interpretation query_ring: dedup "qring_inv n" "\<lambda>m. input_time m < - 1" "accept_query P" input_key "query_blocked n"
  for n P
proof (unfold_locales, goal_cases)
  case (2 s m)
  then show ?case
    using accept_query_effect(4) [OF 2(1,2), of P] young_slot [OF 2(1) _ 2(2)]
    by (fastforce simp: query_blocked_def)
next
  case (3 s m)
  then show ?case
    using accept_query_effect(4) [OF 3(1,2), of P]
      accept_query_effect(5) [OF 3(1,2), of P "ring_index n (input_time m)"]
    by (auto simp: query_blocked_def in_slot_def slot_after_def split: option.split)
qed (auto intro: accept_query_inv accept_query_blocked)

section \<open>The ring decides as an unbounded memory would\<close>

text \<open>
  The specification: a clock and the set of all queries recorded so far. A
  query is taken when it is not below the minimum, not too old for the clock,
  and not in the set.
\<close>

fun spec_accept ::
  "nat \<Rightarrow> lamport_time \<Rightarrow> ('i, 'a) query_input \<Rightarrow> lamport_time \<times> (lamport_time \<times> u32) set
   \<Rightarrow> bool \<times> lamport_time \<times> (lamport_time \<times> u32) set" where
  "spec_accept n mt (Receive now rnd rq ty) (c, H) =
     (let t = qm_ltime (rq_msg rq); i = qm_id (rq_msg rq); c = clock_witness t c;
          b = (mt \<le> t \<and> \<not> too_old n c t \<and> (t, i) \<notin> H)
      in (b, c, if b then insert (t, i) H else H))"
| "spec_accept n mt (Witness_query_time t) (c, H) = (False, clock_witness t c, H)"

definition ring_refines ::
  "nat \<Rightarrow> lamport_time \<Rightarrow> ('i, 'a) serf \<Rightarrow> lamport_time \<times> (lamport_time \<times> u32) set \<Rightarrow> bool" where
  "ring_refines n mt s a \<longleftrightarrow>
     qring_inv n s \<and> qco_min_time (sf_query_core s) = mt \<and> fst a = sf_query_clock s \<and>
     (\<forall>t i j. in_slot t i (qslot s j) \<longrightarrow> (t, i) \<in> snd a) \<and>
     (\<forall>k \<in> snd a. query_blocked n (Some k) s)"

lemma refines_decision:
  assumes "ring_refines n mt s a" "query_young t s" "t < - 1"
  shows "in_slot t i (qslot s (ring_index n t)) \<longleftrightarrow> (t, i) \<in> snd a"
  using assms young_slot [of n s t] unfolding ring_refines_def
  by (fastforce simp: query_blocked_def)

lemma in_slot_after: "in_slot t i (Some (slot_after u j q)) \<longleftrightarrow> t = u \<and> (i = j \<or> in_slot u i q)"
  by (auto simp: in_slot_def slot_after_def split: option.splits)

lemma spec_accept_alt:
  fixes P :: "('i, 'a) proto"
  assumes r: "ring_refines n mt s (c, H)" and t: "input_time m < - 1"
  defines "b \<equiv> fst (accept_query P m s)"
  shows "spec_accept n mt m (c, H) =
    (b, clock_witness (input_time m) c, if b then insert (the (input_key m)) H else H)"
proof -
  have inv: "qring_inv n s" and c: "c = sf_query_clock s" and mn: "qco_min_time (sf_query_core s) = mt"
    and n: "qring_length s = n"
    using r by (simp_all add: ring_refines_def qring_inv_def)
  note b = accept_query_effect(4) [OF inv t, of P, folded b_def]
  show ?thesis
  proof (cases m)
    case (Receive now rnd rq ty)
    then have "qm_ltime (rq_msg rq) < - 1" using t by simp
    from refines_decision [OF r _ this] show ?thesis
      using b by (auto simp: Receive Let_def query_young_def c mn n)
  next
    case (Witness_query_time u)
    then show ?thesis using b by simp
  qed
qed

lemma refines_step:
  assumes r: "ring_refines n mt s a" and t: "input_time m < - 1"
  shows "fst (accept_query P m s) = fst (spec_accept n mt m a) \<and>
    ring_refines n mt (snd (accept_query P m s)) (snd (spec_accept n mt m a))"
proof -
  obtain c H where a: "a = (c, H)" by fastforce
  have inv: "qring_inv n s" using r by (simp add: ring_refines_def)
  let ?b = "fst (accept_query P m s)" and ?s = "snd (accept_query P m s)"
  let ?H = "if ?b then insert (the (input_key m)) H else H"
  note eff = accept_query_effect [OF inv t, of P] and alt = spec_accept_alt [OF r [unfolded a] t, of P]
  have key: "?b \<Longrightarrow> \<exists>i. input_key m = Some (input_time m, i)" using eff(4) by blast
  have slots: "in_slot u i (qslot ?s j) \<Longrightarrow> (u, i) \<in> ?H" for u i j
    using eff(5) [of j] key r unfolding a ring_refines_def
    by (fastforce simp: in_slot_after split: if_splits)
  have blocked: "query_blocked n (Some k) ?s" if "k \<in> ?H" for k
  proof (cases "?b \<and> Some k = input_key m")
    case True
    then show ?thesis using query_ring.acc_seen [OF inv t, of P] by simp
  next
    case False
    then have "k \<in> H" using that key by (auto split: if_splits)
    then show ?thesis
      using r accept_query_blocked [OF inv t] unfolding a ring_refines_def by auto
  qed
  show ?thesis
    unfolding a alt using r slots blocked accept_query_inv [OF inv t, of P] eff(2,3)
    by (simp add: ring_refines_def a)
qed

lemma query_ring_simulates:
  assumes "ring_refines n mt s a" "list_all (\<lambda>m. input_time m < - 1) ms"
  shows "fst (accepted (accept_query P) ms s) = fst (accepted (spec_accept n mt) ms a)"
  using accepted_simulation [where R = "ring_refines n mt", OF assms] refines_step by blast

section \<open>What subscribers see\<close>

fun event_key :: "('i, 'a) crate_event \<Rightarrow> (lamport_time \<times> u32) option" where
  "event_key (Ev_Query ev) = Some (qe_ltime ev, qe_id ev)"
| "event_key (Ev_InternalQuery ty ev) = Some (qe_ltime ev, qe_id ev)"
| "event_key _ = None"

lemma handle_query_tx:
  assumes "handle_query P now rnd rq ty s = Inr (r, s')" "qring_length s < 2 ^ 64"
  shows "\<exists>es. sf_event_tx s' = sf_event_tx s @ es \<and>
    (es = [] \<or> recorded (qm_ltime (rq_msg rq)) (qm_id (rq_msg rq)) s \<and>
       map event_key es = [Some (qm_ltime (rq_msg rq), qm_id (rq_msg rq))])"
proof -
  obtain b u where u: "record_query (qm_ltime (rq_msg rq)) (qm_id (rq_msg rq)) s = Inr (b, u)"
    using assms(1) by (cases "record_query (qm_ltime (rq_msg rq)) (qm_id (rq_msg rq)) s")
      (auto simp: handle_query_def Let_def)
  have tx: "sf_event_tx u = sf_event_tx s"
    using record_query_effect(7) [OF u assms(2)] .
  obtain xs where "send_query_ack P rnd (rq_msg rq) u = u\<lparr>sf_sent := sf_sent u @ xs\<rparr>"
    using send_query_ack_frame by blast
  then show ?thesis
    using assms(1) u tx
    by (auto simp: handle_query_def Let_def send_event_def make_query_event_def recorded_def
        split: if_splits sum.splits bool.splits option.splits)
qed

lemma accept_query_tx:
  assumes "qring_inv n s" "input_time m < - 1"
  shows "\<exists>es. sf_event_tx (snd (accept_query P m s)) = sf_event_tx s @ es \<and>
    (es = [] \<or> fst (accept_query P m s) \<and> map event_key es = [input_key m])"
proof (cases m)
  case (Receive now rnd rq ty)
  have n: "qring_length s < 2 ^ 64" using assms(1) by (simp add: qring_inv_def)
  then obtain r v where "handle_query P now rnd rq ty s = Inr (r, v)"
    using handle_query_returns [of s rq P now rnd ty] assms(2) Receive by auto
  from handle_query_tx [OF this n] this show ?thesis by (simp add: Receive)
qed simp

lemma accepted_query_tx:
  assumes "qring_inv n s" "list_all (\<lambda>m. input_time m < - 1) ms"
  shows "\<exists>es. sf_event_tx (snd (accepted (accept_query P) ms s)) = sf_event_tx s @ es \<and>
    subseq (map event_key es) (map input_key (fst (accepted (accept_query P) ms s)))"
  using assms
proof (induction ms arbitrary: s)
  case (Cons m ms)
  obtain b t where m: "accept_query P m s = (b, t)" by fastforce
  have inv: "qring_inv n t" using accept_query_inv [of n s m P] Cons.prems m by simp
  obtain es where es: "sf_event_tx t = sf_event_tx s @ es" "es = [] \<or> b \<and> map event_key es = [input_key m]"
    using accept_query_tx [of n s m P] Cons.prems m by auto
  obtain fs where fs: "sf_event_tx (snd (accepted (accept_query P) ms t)) = sf_event_tx t @ fs"
    "subseq (map event_key fs) (map input_key (fst (accepted (accept_query P) ms t)))"
    using Cons.IH [OF inv] Cons.prems by auto
  show ?case
    by (rule exI [of _ "es @ fs"]) (use m es fs in \<open>auto split: prod.splits\<close>)
qed simp

end
