(* ===== verification/Query_Facts.thy ===== *)
theory Query_Facts
  imports Query_Ring Membership_Inv "HOL-Library.Multiset"
begin

text \<open>
  Filters, relaying, the collection of responses, and the starting and
  answering of queries.
\<close>

section \<open>The two forms of filters\<close>

lemma find_id_mapM: "mapM_res (\<lambda>x. x) ids = Inr ns \<Longrightarrow> find_id loc ids = Inr (loc \<in> set ns)"
  by (induction loc ids arbitrary: ns rule: find_id.induct) (auto split: sum.splits)

lemma id_items_find:
  assumes "iter_ok P" "rep_items (rep_id P 1) w = Inr ns"
  shows "find_id loc (id_items P w) = Inr (loc \<in> set ns)"
  using assms by (cases w) (auto simp: id_items_def iter_ok_def intro: find_id_mapM)

lemma tag_filter_match_ref:
  "tag_filter_from_ref P tag = Inr t \<Longrightarrow> tag_filter_match_ref P tgs tag = Inr (tag_filter_match P tgs t)"
  by (auto simp: tag_filter_from_ref_def tag_filter_match_ref_def tag_filter_match_def
      split: option.splits if_splits)

lemma borrowed_filters:
  assumes "iter_ok P"
  shows "mapM_res (\<lambda>b. bind_res (decode_filter_ref P b) (\<lambda>(n, f). filter_from_ref P f)) bs = Inr fs \<Longrightarrow>
    should_process_borrowed P loc tgs (map (\<lambda>b. map_res snd (decode_filter_ref P b)) bs) =
      Inr (should_process_owned P loc tgs fs)"
proof (induction bs arbitrary: fs)
  case (Cons b bs)
  from Cons.prems obtain n f g gs where f: "decode_filter_ref P b = Inr (n, f)" "filter_from_ref P f = Inr g"
    and gs: "fs = g # gs"
    "mapM_res (\<lambda>b. bind_res (decode_filter_ref P b) (\<lambda>(n, f). filter_from_ref P f)) bs = Inr gs"
    by (cases "decode_filter_ref P b") (auto split: sum.splits)
  show ?case
  proof (cases f)
    case (FilterRef_Id w)
    then obtain ns where "rep_items (rep_id P 1) w = Inr ns" "g = Filter_Id ns"
      using f(2) by (cases "rep_items (rep_id P 1) w") auto
    then show ?thesis
      using f gs Cons.IH [OF gs(2)] id_items_find [OF assms] FilterRef_Id by simp
  next
    case (FilterRef_Tag tag)
    then obtain t where "tag_filter_from_ref P tag = Inr t" "g = Filter_Tag t"
      using f(2) by (cases "tag_filter_from_ref P tag") auto
    then show ?thesis
      using f gs Cons.IH [OF gs(2)] tag_filter_match_ref FilterRef_Tag by fastforce
  qed
qed simp

lemma should_process_agree:
  assumes "iter_ok P" "decode_filters P w = Inr fs"
  shows "should_process_query P s (Borrowed (filter_items P w)) = should_process_query P s (Owned fs)"
  using assms(2) borrowed_filters [OF assms(1)]
  by (cases "rep_items (rep_ld P 4) w")
    (auto simp: should_process_query_def decode_filters_def filter_items_def)

section \<open>Relaying\<close>

lemma mset_swap: "i < length xs \<Longrightarrow> j < length xs \<Longrightarrow> mset (swap i j xs) = mset xs"
  by (simp add: swap_def mset_swap)

lemma shuffle_perm: "length xs = n \<Longrightarrow> mset (shuffle rnd k n rounds i xs) = mset xs"
proof (induction rnd k n rounds i xs rule: shuffle.induct)
  case (1 rnd k n rounds i xs)
  show ?case
  proof (cases "i < rounds \<and> i < n")
    case True
    let ?j = "unat (rnd i) mod (n - i) + i"
    have "unat (rnd i) mod (n - i) < n - i" using True by simp
    then have j: "?j < n" by linarith
    then have "mset (swap i ?j xs) = mset xs" "length (swap i ?j xs) = n"
      using 1(2) True by (simp_all add: mset_swap) (simp add: swap_def)
    then show ?thesis
      using 1(1) [OF True refl refl] by (subst shuffle.simps) (simp add: Let_def)
  next
    case False
    then show ?thesis by (subst shuffle.simps) (simp only: if_False)
  qed
qed

lemma random_members_mset:
  "mset (random_members rnd k ms) \<subseteq># mset ms" "length (random_members rnd k ms) = min k (length ms)"
proof -
  let ?sh = "shuffle rnd k (length ms) (3 * length ms) 0 ms"
  have perm: "mset ?sh = mset ms" by (simp add: shuffle_perm)
  then have "length ?sh = length ms" using mset_eq_length by blast
  then show "length (random_members rnd k ms) = min k (length ms)"
    by (simp add: random_members_def Let_def min.commute)
  have split: "mset (take k ?sh) + mset (drop k ?sh) = mset ms"
    using perm by (simp flip: mset_append)
  show "mset (random_members rnd k ms) \<subseteq># mset ms"
    using mset_subset_eq_add_left [of "mset (take k ?sh)" "mset (drop k ?sh)", unfolded split]
    by (cases "ms = []") (simp_all add: random_members_def Let_def)
qed

lemma random_members_distinct: "distinct ms \<Longrightarrow> distinct (random_members rnd k ms)"
  using random_members_mset(1) [of rnd k ms]
  by (metis distinct_append mset_append mset_eq_imp_distinct_iff ex_mset subset_mset.less_eqE)

lemma random_members_set: "set (random_members rnd k ms) \<subseteq> set ms"
  using random_members_mset(1) [of rnd k ms] set_mset_mono by fastforce


text \<open>To whom a relay may be sent.\<close>

definition relay_target :: "('i, 'a) serf \<Rightarrow> ('i, 'a) member \<Rightarrow> bool" where
  "relay_target s m \<longleftrightarrow>
     (\<exists>ms. map_of (states (sf_members s)) (node_id (m_node m)) = Some ms \<and> ms_member ms = m \<and>
        ms_status ms = Alive) \<and> node_id (m_node m) \<noteq> local_id s"

lemma relay_candidates_targets:
  assumes "members_inv (sf_members s)"
  shows "distinct (map (\<lambda>m. node_id (m_node m)) (relay_candidates s))"
    and "m \<in> set (relay_candidates s) \<Longrightarrow> relay_target s m"
proof -
  let ?st = "states (sf_members s)"
  have d: "distinct (map fst ?st)" and ok: "states_ok (map_of ?st)"
    using assms by (simp_all add: members_inv_def)
  have key: "node_id (m_node (ms_member ms)) = i" if "(i, ms) \<in> set ?st" for i ms
    using that ok map_of_is_SomeI [OF d that] by (auto simp: states_ok_def)
  have "map (\<lambda>m. node_id (m_node m)) (relay_candidates s) =
      map fst (filter (\<lambda>(i, m). ms_status m = Alive \<and> i \<noteq> local_id s) ?st)"
    using key by (auto simp: relay_candidates_def split_beta)
  then show "distinct (map (\<lambda>m. node_id (m_node m)) (relay_candidates s))"
    using d by (simp add: distinct_map_filter)
  show "relay_target s m" if "m \<in> set (relay_candidates s)"
    using that key map_of_is_SomeI [OF d] by (fastforce simp: relay_candidates_def relay_target_def)
qed

lemma relay_response_sends:
  assumes inv: "members_inv (sf_members s)" and r: "relay_response P rnd rf node resp s = (r, s')"
  shows "\<exists>ms raw. s' = s\<lparr>sf_sent := sf_sent s @ map (\<lambda>m. (node_addr (m_node m), raw)) ms\<rparr> \<and>
    length ms \<le> unat rf \<and> distinct (map (\<lambda>m. node_id (m_node m)) ms) \<and> list_all (relay_target s) ms \<and>
    (ms \<noteq> [] \<longrightarrow> relay_to_bytes P (Msg_QueryResponse resp) node = Inr raw) \<and>
    (r = Inr () \<and> rf \<noteq> 0 \<and> unat rf < length (states (sf_members s)) \<longrightarrow>
       length ms = min (unat rf) (length (relay_candidates s)))"
proof (cases "s' = s")
  case True
  then show ?thesis
    using r random_members_mset(2) [of rnd "unat rf" "relay_candidates s"] by (intro exI [of _ "[]"])
      (auto simp: relay_response_def Let_def fold_ml_send ml_send_def
        split: if_splits sum.splits dest!: arg_cong [where f = sf_sent])
next
  case False
  then obtain raw where raw: "relay_to_bytes P (Msg_QueryResponse resp) node = Inr raw"
    and s': "s' = s\<lparr>sf_sent := sf_sent s @ map (\<lambda>m. (node_addr (m_node m), raw))
      (random_members rnd (unat rf) (relay_candidates s))\<rparr>"
    using r by (auto simp: relay_response_def Let_def fold_ml_send split: if_splits sum.splits)
  let ?ms = "random_members rnd (unat rf) (relay_candidates s)"
  have "distinct (map (\<lambda>m. node_id (m_node m)) ?ms)"
    using relay_candidates_targets(1) [OF inv] random_members_set [of rnd "unat rf" "relay_candidates s"]
      random_members_distinct [of "relay_candidates s" rnd "unat rf"]
    by (auto simp: distinct_map intro: inj_on_subset)
  moreover have "list_all (relay_target s) ?ms"
    using relay_candidates_targets(2) [OF inv] random_members_set by (fastforce simp: list_all_iff)
  ultimately show ?thesis
    using s' raw by (intro exI [of _ ?ms] exI [of _ raw]) (simp add: random_members_mset(2))
qed

section \<open>Answering\<close>

text \<open>
  A relayed message names the node that it is to be delivered to. When a query
  is answered, that node is the sender of the response: the responding node
  itself, and not the node that asked.
\<close>

lemma respond_sends:
  assumes inv: "members_inv (sf_members s)" and r: "respond P rnd now sent ev msg ctx s = (Inr (), ctx', s')"
  defines "resp \<equiv> \<lparr>qr_ltime = qe_ltime ev, qr_id = qe_id ev, qr_from = sf_local s, qr_flags = 0, qr_payload = msg\<rparr>"
  shows "qc_span ctx \<noteq> None \<and> ctx' = ctx\<lparr>qc_span := None\<rparr> \<and>
    (\<exists>raw ms relayed. message_to_bytes P (Msg_QueryResponse resp) = Inr raw \<and>
      length raw \<le> op_query_response_size_limit (sf_opts s) \<and>
      s' = s\<lparr>sf_sent := sf_sent s @ (node_addr (qe_from ev), raw) #
        map (\<lambda>m. (node_addr (m_node m), relayed)) ms\<rparr> \<and>
      (ms \<noteq> [] \<longrightarrow> relay_to_bytes P (Msg_QueryResponse resp) (sf_local s) = Inr relayed) \<and>
      length ms \<le> unat (qe_relay_factor ev) \<and> list_all (relay_target s) ms)"
proof -
  obtain raw where raw: "message_to_bytes P (Msg_QueryResponse resp) = Inr raw"
    and r2: "respond_with_message_and_response P rnd now sent (node_addr (qe_from ev)) (qe_relay_factor ev)
      raw resp ctx s = (Inr (), ctx', s')"
    using r by (auto simp: respond_def Let_def resp_def split: sum.splits)
  let ?s = "ml_send (node_addr (qe_from ev)) raw s"
  from r2 have len: "length raw \<le> op_query_response_size_limit (sf_opts s)"
    and ctx: "qc_span ctx \<noteq> None" "ctx' = ctx\<lparr>qc_span := None\<rparr>"
    and rel: "relay_response P rnd (qe_relay_factor ev) (sf_local s) resp ?s = (Inr (), s')"
    by (auto simp: respond_with_message_and_response_def check_response_size_def resp_def Let_def
        split: if_splits option.splits sum.splits prod.splits)
  have "members_inv (sf_members ?s)" using inv by (simp add: ml_send_def)
  from relay_response_sends [OF this rel] obtain ms relayed
    where s': "s' = ?s\<lparr>sf_sent := sf_sent ?s @ map (\<lambda>m. (node_addr (m_node m), relayed)) ms\<rparr>"
      and ms: "length ms \<le> unat (qe_relay_factor ev)" "list_all (relay_target ?s) ms"
      "ms \<noteq> [] \<longrightarrow> relay_to_bytes P (Msg_QueryResponse resp) (sf_local s) = Inr relayed"
    by blast
  have "relay_target ?s = relay_target s" by (simp add: relay_target_def ml_send_def fun_eq_iff)
  with s' ms show ?thesis
    using len ctx raw by (intro conjI exI [of _ raw] exI [of _ ms] exI [of _ relayed]) (simp_all add: ml_send_def)
qed

lemma respond_once:
  "qc_span ctx = None \<Longrightarrow> \<exists>e. respond P rnd now sent ev msg ctx s = (Inl e, ctx, s)"
  by (auto simp: respond_def respond_with_message_and_response_def check_response_size_def Let_def
      split: sum.split)

section \<open>The collector of a running query\<close>

text \<open>
  What happens to a collector: a response or acknowledgement arrives at a time,
  the client takes one off a channel, the timer of the query fires.
\<close>

datatype ('i, 'a) collector_input =
    Arrive nat "('i, 'a) query_response_message"
  | Take_ack
  | Take_response
  | Timer_close

definition take_chan :: "'x chan \<Rightarrow> 'x chan" where
  "take_chan ch = ch\<lparr>ch_queue := tl (ch_queue ch)\<rparr>"

definition queued :: "('i, 'a) query_response \<Rightarrow> ('i, 'a) node list option \<times> ('i, 'a) node_response list" where
  "queued c = (map_option ch_queue (qp_ack_ch c), ch_queue (qp_resp_ch c))"

fun collector_step ::
  "('i, 'a) collector_input \<Rightarrow> ('i, 'a) query_response \<Rightarrow> bool \<times> ('i, 'a) query_response" where
  "collector_step (Arrive now resp) c =
     (queued (collect_response now resp c) \<noteq> queued c, collect_response now resp c)"
| "collector_step Take_ack c = (False, c\<lparr>qp_ack_ch := map_option take_chan (qp_ack_ch c)\<rparr>)"
| "collector_step Take_response c = (False, c\<lparr>qp_resp_ch := take_chan (qp_resp_ch c)\<rparr>)"
| "collector_step Timer_close c = (False, close_response c)"

fun collector_key :: "('i, 'a) collector_input \<Rightarrow> (bool \<times> ('i, 'a) node) option" where
  "collector_key (Arrive now resp) = Some (query_response_ack resp, qr_from resp)"
| "collector_key _ = None"

fun heard_from :: "(bool \<times> ('i, 'a) node) option \<Rightarrow> ('i, 'a) query_response \<Rightarrow> bool" where
  "heard_from (Some (ack, from_n)) c \<longleftrightarrow> from_n \<in> set (if ack then qp_acks c else qp_responses c)"
| "heard_from None c \<longleftrightarrow> False"

lemmas collector_simps = collect_response_def send_ack_def send_response_def try_send_def Let_def queued_def

lemma collect_lists:
  "qp_acks (collect_response now r c) = qp_acks c \<or>
     query_response_ack r \<and> qp_acks (collect_response now r c) = qr_from r # qp_acks c"
  "qp_responses (collect_response now r c) = qp_responses c \<or>
     \<not> query_response_ack r \<and> qp_responses (collect_response now r c) = qr_from r # qp_responses c"
  by (simp_all add: collector_simps split: option.split)

lemma heard_step:
  "heard_from k c \<Longrightarrow> heard_from k (snd (collector_step m c))"
  "heard_from k (snd (collector_step m c)) \<Longrightarrow> heard_from k c \<or> collector_key m = k"
proof -
  have "heard_from k (close_response c) = heard_from k c"
    by (cases "(k, c)" rule: heard_from.cases) (simp_all add: close_response_def)
  moreover have "heard_from k (snd (collector_step m c)) = heard_from k c" if "m = Take_ack \<or> m = Take_response"
    using that by (cases "(k, c)" rule: heard_from.cases) auto
  moreover have "(heard_from k c \<longrightarrow> heard_from k (collect_response now r c)) \<and>
      (heard_from k (collect_response now r c) \<longrightarrow>
        heard_from k c \<or> k = Some (query_response_ack r, qr_from r))" for now r
    using collect_lists [of now r c] by (cases "(k, c)" rule: heard_from.cases) auto
  ultimately show "heard_from k c \<Longrightarrow> heard_from k (snd (collector_step m c))"
    "heard_from k (snd (collector_step m c)) \<Longrightarrow> heard_from k c \<or> collector_key m = k"
    by (cases m; auto)+
qed

interpretation collector: dedup "\<lambda>_. True" "\<lambda>_. True" collector_step collector_key heard_from
proof (unfold_locales, goal_cases)
  case (2 c m)
  then show ?case
    by (cases m; cases "collector_key m") (auto simp: collector_simps split: if_splits option.splits)
next
  case (3 c m)
  then show ?case
    by (cases m; cases "collector_key m") (auto simp: collector_simps split: if_splits option.splits)
qed (auto intro: heard_step)

text \<open>Nothing is delivered once the collector is closed or its deadline has passed.\<close>

fun late_input :: "nat \<Rightarrow> ('i, 'a) collector_input \<Rightarrow> bool" where
  "late_input deadline (Arrive now resp) \<longleftrightarrow> deadline < now"
| "late_input deadline _ \<longleftrightarrow> True"

lemma collector_finished:
  "qp_closed c \<or> list_all (late_input (qp_deadline c)) ms \<Longrightarrow> fst (accepted collector_step ms c) = []"
proof (induction ms arbitrary: c)
  case (Cons m ms)
  have "\<not> fst (collector_step m c) \<and> qp_deadline (snd (collector_step m c)) = qp_deadline c \<and>
    (qp_closed c \<longrightarrow> qp_closed (snd (collector_step m c)))"
    using Cons.prems by (cases m) (auto simp: collector_simps close_response_def)
  with Cons.IH [of "snd (collector_step m c)"] Cons.prems show ?case by (simp add: accepted_Cons del: accepted.simps) blast
qed simp

section \<open>No response is lost\<close>

definition collector_inv :: "nat \<Rightarrow> ('i, 'a) query_response \<Rightarrow> bool" where
  "collector_inv n c \<longleftrightarrow>
     ch_cap (qp_resp_ch c) = n \<and> length (ch_queue (qp_resp_ch c)) \<le> length (qp_responses c) \<and>
     distinct (qp_responses c) \<and> distinct (qp_acks c) \<and> ch_closed (qp_resp_ch c) = qp_closed c \<and>
     (\<forall>ch. qp_ack_ch c = Some ch \<longrightarrow>
        ch_cap ch = n \<and> length (ch_queue ch) \<le> length (qp_acks c) \<and> ch_closed ch = qp_closed c)"

lemma query_response_new_inv:
  "query_response_new i t n dl ack = Inr c \<Longrightarrow>
     0 < n \<and> collector_inv n c \<and> \<not> qp_closed c \<and> qp_deadline c = dl \<and> qp_acks c = [] \<and> qp_responses c = [] \<and>
     (qp_ack_ch c \<noteq> None \<longleftrightarrow> ack)"
  by (auto simp: query_response_new_def bounded_def collector_inv_def split: if_splits)

lemma collector_step_inv:
  "collector_inv n c \<Longrightarrow> collector_inv n (snd (collector_step m c))"
  by (cases m) (auto simp: collector_inv_def collector_simps close_response_def close_chan_def take_chan_def
      split: option.splits)

text \<open>In time, before the timer fires, and an acknowledgement only where one was asked for.\<close>

fun timely_input :: "nat \<Rightarrow> bool \<Rightarrow> ('i, 'a) node set \<Rightarrow> ('i, 'a) collector_input \<Rightarrow> bool" where
  "timely_input deadline acks N (Arrive now resp) \<longleftrightarrow>
     now \<le> deadline \<and> qr_from resp \<in> N \<and> (query_response_ack resp \<longrightarrow> acks)"
| "timely_input deadline acks N Timer_close \<longleftrightarrow> False"
| "timely_input deadline acks N _ \<longleftrightarrow> True"

definition open_for :: "nat \<Rightarrow> bool \<Rightarrow> ('i, 'a) node set \<Rightarrow> nat \<Rightarrow> ('i, 'a) query_response \<Rightarrow> bool" where
  "open_for deadline acks N n c \<longleftrightarrow>
     collector_inv n c \<and> \<not> qp_closed c \<and> qp_deadline c = deadline \<and> (qp_ack_ch c \<noteq> None \<longleftrightarrow> acks) \<and>
     set (qp_acks c) \<subseteq> N \<and> set (qp_responses c) \<subseteq> N"

lemma distinct_room:
  "distinct xs \<Longrightarrow> set xs \<subseteq> N \<Longrightarrow> x \<in> N \<Longrightarrow> x \<notin> set xs \<Longrightarrow> finite N \<Longrightarrow> card N \<le> n \<Longrightarrow> length xs < n"
  using psubset_card_mono [of N "set xs"] by (simp add: distinct_card psubset_eq) (metis less_le_trans)

lemma open_for_room:
  assumes "open_for dl acks N n c" "finite N" "card N \<le> n" "from_n \<in> N"
  shows "from_n \<notin> set (qp_responses c) \<Longrightarrow> length (ch_queue (qp_resp_ch c)) < ch_cap (qp_resp_ch c)"
    and "from_n \<notin> set (qp_acks c) \<Longrightarrow> qp_ack_ch c = Some ch \<Longrightarrow> length (ch_queue ch) < ch_cap ch"
proof -
  have inv: "collector_inv n c" "set (qp_acks c) \<subseteq> N" "set (qp_responses c) \<subseteq> N"
    using assms(1) by (simp_all add: open_for_def)
  show "length (ch_queue (qp_resp_ch c)) < ch_cap (qp_resp_ch c)" if "from_n \<notin> set (qp_responses c)"
    using inv(1) distinct_room [OF _ inv(3) assms(4) that assms(2,3)] by (auto simp: collector_inv_def)
  show "length (ch_queue ch) < ch_cap ch" if "from_n \<notin> set (qp_acks c)" "qp_ack_ch c = Some ch"
    using inv(1) distinct_room [OF _ inv(2) assms(4) that(1) assms(2,3)] that(2)
    by (auto simp: collector_inv_def)
qed

lemma open_for_step:
  assumes c: "open_for dl acks N n c" and m: "timely_input dl acks N m" and N: "finite N" "card N \<le> n"
  shows "open_for dl acks N n (snd (collector_step m c))"
    and "fst (collector_step m c) \<longleftrightarrow> collector_key m \<noteq> None \<and> \<not> heard_from (collector_key m) c"
proof -
  show "open_for dl acks N n (snd (collector_step m c))"
    using c m collector_step_inv [of n c m]
    by (cases m) (auto simp: open_for_def collector_simps split: option.splits)
  show "fst (collector_step m c) \<longleftrightarrow> collector_key m \<noteq> None \<and> \<not> heard_from (collector_key m) c"
  proof (cases m)
    case (Arrive now resp)
    have r: "now \<le> dl" "qr_from resp \<in> N" "query_response_ack resp \<Longrightarrow> acks"
      using m Arrive by auto
    have opn: "\<not> qp_closed c" "qp_deadline c = dl" "qp_ack_ch c \<noteq> None \<longleftrightarrow> acks"
      "\<not> ch_closed (qp_resp_ch c)" "\<And>ch. qp_ack_ch c = Some ch \<Longrightarrow> \<not> ch_closed ch"
      using c by (auto simp: open_for_def collector_inv_def)
    show ?thesis
      using r opn open_for_room [OF c N r(2)]
      by (cases "query_response_ack resp") (auto simp: Arrive collector_simps split: option.split)
  qed auto
qed

lemma collector_complete:
  assumes "finite N" "card N \<le> n"
  shows "open_for dl acks N n c \<Longrightarrow> list_all (timely_input dl acks N) ms \<Longrightarrow>
    Some k \<in> set (map collector_key ms) \<Longrightarrow> \<not> heard_from (Some k) c \<Longrightarrow>
    Some k \<in> set (map collector_key (fst (accepted collector_step ms c)))"
proof (induction ms arbitrary: c)
  case (Cons m ms)
  note step = open_for_step [OF Cons.prems(1) _ assms, of m]
  have t: "timely_input dl acks N m" "list_all (timely_input dl acks N) ms" using Cons.prems(2) by simp_all
  show ?case
  proof (cases "collector_key m = Some k")
    case True
    then show ?thesis using step(2) [OF t(1)] Cons.prems(4) by (simp add: accepted_Cons del: accepted.simps)
  next
    case False
    have "\<not> heard_from (Some k) (snd (collector_step m c))"
      using False Cons.prems(4) heard_step(2) by blast
    from Cons.IH [OF step(1) [OF t(1)] t(2) _ this] show ?thesis
      using Cons.prems(3) False by (auto simp: accepted_Cons simp del: accepted.simps)
  qed
qed simp

section \<open>Starting a query\<close>

text \<open>
  The running queries are filed under their Lamport times, and these lie behind
  the query clock. A new query takes the time of the clock, so it never
  replaces a running one.
\<close>

definition running_inv :: "('i, 'a) serf \<Rightarrow> bool" where
  "running_inv s \<longleftrightarrow>
     (\<forall>t c. map_of (qco_responses (sf_query_core s)) t = Some c \<longrightarrow> qp_ltime c = t \<and> t < sf_query_clock s)"

lemma handle_query_running:
  assumes "handle_query P now rnd rq ty s = Inr (r, s')" "qring_length s < 2 ^ 64" "qm_ltime (rq_msg rq) < - 1"
  shows "qco_responses (sf_query_core s') = qco_responses (sf_query_core s)"
    and "sf_query_clock s' = clock_witness (qm_ltime (rq_msg rq)) (sf_query_clock s)"
    and "running_inv s \<Longrightarrow> running_inv s'"
proof -
  obtain b u where u: "record_query (qm_ltime (rq_msg rq)) (qm_id (rq_msg rq)) s = Inr (b, u)"
    "sf_query_core s' = sf_query_core u" "sf_query_clock s' = sf_query_clock u"
    using handle_query_core [OF assms(1)] by blast
  note eff = record_query_effect [OF u(1) assms(2)]
  show resp: "qco_responses (sf_query_core s') = qco_responses (sf_query_core s)"
    and clock: "sf_query_clock s' = clock_witness (qm_ltime (rq_msg rq)) (sf_query_clock s)"
    using eff(4,8) u(2,3) by simp_all
  show "running_inv s \<Longrightarrow> running_inv s'"
    unfolding running_inv_def resp clock
    using clock_witness_ge [OF assms(3), of "sf_query_clock s"] by (meson less_le_trans)
qed

lemma collect_response_ltime [simp]: "qp_ltime (collect_response now r c) = qp_ltime c"
  by (simp add: collector_simps split: option.split)

lemma handle_query_response_running: "running_inv s \<Longrightarrow> running_inv (handle_query_response now r s)"
  by (auto simp: running_inv_def handle_query_response_def Let_def update_conv' split: option.split if_splits)

lemma close_registered_running: "running_inv s \<Longrightarrow> running_inv (snd (close_registered t s))"
  by (auto simp: running_inv_def close_registered_def delete_conv' split: if_splits)

lemma handle_query_owned:
  assumes "handle_query P now rnd rq ty s = Inr (r, s')" "rq_filters rq = Owned fs"
  shows "\<exists>b. r = Inr b"
  using assms by (cases "record_query (qm_ltime (rq_msg rq)) (qm_id (rq_msg rq)) s")
    (auto simp: handle_query_def should_process_query_def Let_def split: if_splits bool.splits)

lemma query_in_cases:
  assumes "query_in P now rnd online qid name payload params ty s = Inr (Inr resp, s')"
  obtains q raw b u where "qm_ltime q = sf_query_clock s" "qm_id q = qid" "qm_from q = sf_local s"
    "qm_name q = name" "qm_payload q = payload" "message_to_bytes P (Msg_Query q) = Inr raw"
    "query_response_new qid (sf_query_clock s) online (now + qm_timeout q) (query_ack q) = Inr resp"
    "handle_query P now rnd \<lparr>rq_msg = q, rq_filters = Owned (qm_filters q)\<rparr> ty
       (register_query_response (qpar_timeout (resolve_params online (sf_opts s) params)) resp s) = Inr (Inr b, u)"
    "s' = queue_query_broadcast raw u"
proof -
  let ?p = "resolve_params online (sf_opts s) params"
  define q where "q = \<lparr>qm_ltime = sf_query_clock s, qm_id = qid, qm_from = sf_local s,
    qm_filters = qpar_filters ?p, qm_flags = (if qpar_request_ack ?p then query_flag_ack else 0),
    qm_relay_factor = qpar_relay_factor ?p, qm_timeout = qpar_timeout ?p, qm_name = name, qm_payload = payload\<rparr>"
  have fields: "qm_ltime q = sf_query_clock s" "qm_id q = qid" "qm_from q = sf_local s"
    "qm_name q = name" "qm_payload q = payload" by (simp_all add: q_def)
  obtain raw where raw: "message_to_bytes P (Msg_Query q) = Inr raw"
    and r: "bind_res (query_response_from_query now q online) (\<lambda>resp.
        bind_res (handle_query P now rnd \<lparr>rq_msg = q, rq_filters = Owned (qm_filters q)\<rparr> ty
          (register_query_response (qpar_timeout ?p) resp s)) (\<lambda>(r, s).
        case r of Inl e \<Rightarrow> Inr (Inl (Decode_failed e), s)
        | Inr _ \<Rightarrow> Inr (Inr resp, queue_query_broadcast raw s))) = Inr (Inr resp, s')"
    using assms unfolding query_in_def Let_def clock_time_def q_def [symmetric]
    by (auto split: if_splits sum.splits)
  from r obtain b u where "query_response_from_query now q online = Inr resp"
    "handle_query P now rnd \<lparr>rq_msg = q, rq_filters = Owned (qm_filters q)\<rparr> ty
       (register_query_response (qpar_timeout ?p) resp s) = Inr (Inr b, u)" "s' = queue_query_broadcast raw u"
    by (cases "query_response_from_query now q online"; simp)
      (auto elim!: bind_res.elims split: sum.splits prod.splits)
  then show ?thesis
    using that [OF fields raw] fields by (simp add: query_response_from_query_def)
qed

lemma query_in_effect:
  assumes r: "query_in P now rnd online qid name payload params ty s = Inr (Inr resp, s')"
    and n: "qring_length s < 2 ^ 64" and clock: "sf_query_clock s < - 1" and run: "running_inv s"
  defines "t \<equiv> sf_query_clock s"
  shows "map_of (qco_responses (sf_query_core s)) t = None \<and>
    map_of (qco_responses (sf_query_core s')) = (map_of (qco_responses (sf_query_core s)))(t \<mapsto> resp) \<and>
    qp_ltime resp = t \<and> qp_id resp = qid \<and> collector_inv online resp \<and> \<not> qp_closed resp \<and>
    running_inv s' \<and> t < sf_query_clock s' \<and>
    (\<exists>q raw. qm_ltime q = t \<and> qm_id q = qid \<and> qm_from q = sf_local s \<and> qm_name q = name \<and>
       qm_payload q = payload \<and> message_to_bytes P (Msg_Query q) = Inr raw \<and>
       sf_query_broadcasts s' = sf_query_broadcasts s @ [\<lparr>sb_msg = raw, sb_notify = False\<rparr>])"
proof -
  let ?reg = "register_query_response (qpar_timeout (resolve_params online (sf_opts s) params)) resp s"
  obtain q raw b u where q: "qm_ltime q = t" "qm_id q = qid" "qm_from q = sf_local s" "qm_name q = name"
      "qm_payload q = payload" and raw: "message_to_bytes P (Msg_Query q) = Inr raw"
    and resp: "query_response_new qid t online (now + qm_timeout q) (query_ack q) = Inr resp"
    and hq: "handle_query P now rnd \<lparr>rq_msg = q, rq_filters = Owned (qm_filters q)\<rparr> ty ?reg = Inr (Inr b, u)"
    and s': "s' = queue_query_broadcast raw u"
    using query_in_cases [OF r, folded t_def] by metis
  have lt: "qp_ltime resp = t" "qp_id resp = qid"
    using resp by (auto simp: query_response_new_def bounded_def split: if_splits)
  note run_u = handle_query_running [OF hq]
  have reg: "sf_query_clock ?reg = t" "qring_length ?reg = qring_length s"
    "map_of (qco_responses (sf_query_core ?reg)) = (map_of (qco_responses (sf_query_core s)))(t \<mapsto> resp)"
    by (simp_all add: register_query_response_def spawn_task_def t_def lt update_conv')
  have none: "map_of (qco_responses (sf_query_core s)) t = None"
    using run by (cases "map_of (qco_responses (sf_query_core s)) t") (auto simp: running_inv_def t_def)
  have resp_u: "map_of (qco_responses (sf_query_core u)) = (map_of (qco_responses (sf_query_core s)))(t \<mapsto> resp)"
    and clock_u: "t < sf_query_clock u"
    using run_u n clock reg q(1) clock_witness_gt [of t] by (simp_all add: t_def)
  have "running_inv u"
    using run resp_u clock_u lt unfolding running_inv_def t_def [symmetric]
    by (metis fun_upd_other fun_upd_same option.inject order.strict_trans)
  then have "running_inv s'"
    by (simp add: s' queue_query_broadcast_def running_inv_def)
  moreover have "sf_query_broadcasts u = sf_query_broadcasts s"
    by (subst handle_query_frame [OF hq]) (simp add: register_query_response_def spawn_task_def)
  ultimately show ?thesis
    using none resp_u clock_u lt query_response_new_inv [OF resp] q raw s'
    by (intro conjI exI [of _ q] exI [of _ raw]) (simp_all add: queue_query_broadcast_def)
qed

end
