(* ===== verification/Event_Theorems.thy ===== *)
theory Event_Theorems
  imports User_Events Query_Facts Serf_Sample
begin

text \<open>
  The properties of user events and queries: what is handled at most once, what
  the rings of recent messages promise and what they do not, which nodes are
  relayed to, and what a running query collects.
\<close>

section \<open>The sample node\<close>

lemma sample_serf_rings:
  "sf_event_core sample_serf = \<lparr>ec_min_time = 0, ec_buffer = replicate 4 None\<rparr>"
  "sf_query_core sample_serf = \<lparr>qco_responses = [], qco_min_time = 0, qco_buffer = replicate 4 None\<rparr>"
  "sf_event_clock sample_serf = 1" "sf_query_clock sample_serf = 1"
  "sf_event_broadcasts sample_serf = []" "sf_query_broadcasts sample_serf = []"
  by (simp_all add: sample_serf_def sample_defs handle_node_join_def join_tags_def Let_def serf_ops)

lemma sample_times:
  "(2::u64) < - 1" "(3::u64) < - 1" "(4::u64) < - 1" "(5::u64) < - 1" "(6::u64) < - 1" "(7::u64) < - 1"
  "(1::u64) < - 1"
  by code_simp+

lemma sample_ring_bounded [simp]: "ring_bounded sample_serf"
  by (simp add: ring_bounded_def sample_serf_rings)

lemma sample_qslot [simp]: "qslot sample_serf j = None"
  by (simp add: qslot_def sample_serf_rings)

lemma sample_qring_inv [simp]: "qring_inv 4 sample_serf"
  by (simp add: qring_inv_def) (simp add: sample_serf_rings)

definition sample_event :: "u64 \<Rightarrow> user_event_message" where
  "sample_event t = \<lparr>ue_ltime = t, ue_name = ''deploy'', ue_payload = [7], ue_cc = False\<rparr>"

definition sample_load_query :: "u64 \<Rightarrow> u32 \<Rightarrow> (u8, u8) query_message" where
  "sample_load_query t i = \<lparr>qm_ltime = t, qm_id = i, qm_from = sample_node 2, qm_filters = [],
     qm_flags = 0, qm_relay_factor = 1, qm_timeout = 5, qm_name = ''load'', qm_payload = []\<rparr>"

definition sample_receive :: "u64 \<Rightarrow> u32 \<Rightarrow> (u8, u8) query_input" where
  "sample_receive t i = Receive 0 (\<lambda>_. 0) \<lparr>rq_msg = sample_load_query t i, rq_filters = Owned []\<rparr> None"

definition sample_answer :: "(u8, u8) query_response_message" where
  "sample_answer = \<lparr>qr_ltime = 3, qr_id = 1, qr_from = sample_node 1, qr_flags = 0, qr_payload = [9]\<rparr>"

lemma sample_answer_wf: "wf_message sample_proto (Msg_QueryResponse sample_answer)"
  by (simp add: wf_message_def wf_query_response_def sample_answer_def sample_node_def fits_u32_def
      wire_query_response_def ld_frame_def)

lemma sample_candidates: "length (relay_candidates sample_serf) = 2"
  by (simp add: relay_candidates_def sample_serf_members sample_state_of_def sample_member_of_def sample_node_def)

lemma sample_relay:
  assumes "sf_members s = sf_members sample_serf" "sf_opts s = sample_options" "sf_local s = sample_node 1"
  shows "fst (relay_response sample_proto rnd 1 nd sample_answer s) = Inr ()"
proof -
  have "relay_to_bytes sample_proto (Msg_QueryResponse sample_answer) nd =
      Inr (wire_relay sample_proto (Msg_QueryResponse sample_answer) nd)"
    by (rule relay_to_bytes_wire [OF sample_answer_wf]) (simp add: fits_u32_def)
  moreover have "encoded_relay_message_len sample_proto (encoded_len_query_response sample_proto sample_answer) nd < 100"
    by (simp add: encoded_relay_message_len_def encoded_len_query_response_def ld_len_def sample_answer_def sample_node_def)
  ultimately show ?thesis
    using assms by (simp add: relay_response_def Let_def sample_serf_members sample_options_def)
qed

section \<open>User events\<close>

text \<open>
  C15. A node hands each user event to its subscribers at most once: in any
  sequence of received events, the delivered ones are pairwise different in
  Lamport time, name or payload, and none is below the minimum time. The event
  channel receives nothing else.
\<close>

theorem user_events_at_most_once:
  assumes "ring_bounded s" "list_all (\<lambda>m. ue_ltime m < - 1) ms"
  shows "\<exists>ds. sf_event_tx (snd (accepted accept_event ms s)) = sf_event_tx s @ map Ev_User ds \<and>
    distinct (map (\<lambda>m. (ue_ltime m, user_event_of m)) ds) \<and>
    list_all (\<lambda>m. ec_min_time (sf_event_core s) \<le> ue_ltime m) ds"
proof -
  have "ring_inv (ring_length s) s" using assms(1) by (simp add: ring_inv_def ring_bounded_def)
  from accepted_event_tx [OF this assms(2)] events_distinct [OF assms]
  show ?thesis by (intro exI [of _ "fst (accepted accept_event ms s)"]) (simp add: list_all_iff)
qed

theorem user_events_at_most_once_witness:
  "ring_bounded sample_serf \<and> list_all (\<lambda>m. ue_ltime m < - 1) [sample_event 3, sample_event 3, sample_event 4] \<and>
   (\<exists>ds. sf_event_tx (snd (accepted accept_event [sample_event 3, sample_event 3, sample_event 4] sample_serf)) =
       sf_event_tx sample_serf @ map Ev_User ds \<and>
     distinct (map (\<lambda>m. (ue_ltime m, user_event_of m)) ds) \<and>
     list_all (\<lambda>m. ec_min_time (sf_event_core sample_serf) \<le> ue_ltime m) ds)"
proof -
  have ok: "list_all (\<lambda>m. ue_ltime m < - 1) [sample_event 3, sample_event 3, sample_event 4]"
    by (simp add: sample_event_def sample_times)
  show ?thesis
    using user_events_at_most_once [OF sample_ring_bounded ok] ok by simp
qed

text \<open>
  C16. The ring of user events forgets nothing: a slot is never cleared when a
  later time takes its place. Over the whole life of a node, however many
  events with one name and payload it receives, at whatever times, it delivers
  at most as many of them as the ring has slots, and drops the others.
\<close>

theorem identical_events_stop:
  assumes "ring_bounded s" "list_all (\<lambda>m. ue_ltime m < - 1) ms"
  shows "length (filter (\<lambda>m. user_event_of m = e) (fst (accepted accept_event ms s))) \<le> ring_length s"
  using assms by (rule events_per_payload)

theorem identical_events_stop_witness:
  "ring_bounded sample_serf \<and> list_all (\<lambda>m. ue_ltime m < - 1) (map sample_event [2, 3, 4, 5, 6, 7]) \<and>
   length (filter (\<lambda>m. user_event_of m = user_event_of (sample_event 2))
     (fst (accepted accept_event (map sample_event [2, 3, 4, 5, 6, 7]) sample_serf))) \<le> 4"
proof -
  have ok: "list_all (\<lambda>m. ue_ltime m < - 1) (map sample_event [2, 3, 4, 5, 6, 7])"
    by (simp add: sample_event_def sample_times)
  have "ring_length sample_serf = 4" by (simp add: sample_serf_rings)
  then show ?thesis
    using identical_events_stop [OF sample_ring_bounded ok] ok by simp
qed

text \<open>
  C21. Creating a user event. A refusal leaves the node as it was. On success
  the encoded event, stamped with the time of the event clock, is queued for
  gossip, the clock is past that time, and the node handles the event itself:
  subscribers see it unless it is below the minimum time, too old, or its name
  and payload are already in the slot of the ring.
\<close>

theorem user_event_effect:
  assumes "ring_bounded s" "sf_event_clock s < - 1" "user_event_op P name payload cc s = Inr (r, s')"
  shows "case r of
      Inl e \<Rightarrow> s' = s
    | Inr _ \<Rightarrow>
        (let msg = \<lparr>ue_ltime = sf_event_clock s, ue_name = name, ue_payload = payload, ue_cc = cc\<rparr>
         in length name + length payload \<le> op_max_user_event_size (sf_opts s) \<and>
            (\<exists>raw. message_to_bytes P (Msg_UserEvent msg) = Inr raw \<and>
               sf_event_broadcasts s' = sf_event_broadcasts s @ [\<lparr>sb_msg = raw, sb_notify = False\<rparr>]) \<and>
            sf_event_clock s < sf_event_clock s' \<and>
            sf_event_tx s' = sf_event_tx s @ (if event_fresh msg s then [Ev_User msg] else []))"
proof -
  let ?msg = "\<lparr>ue_ltime = sf_event_clock s, ue_name = name, ue_payload = payload, ue_cc = cc\<rparr>"
  let ?s = "s\<lparr>sf_event_clock := sf_event_clock s + 1\<rparr>"
  have fresh: "event_fresh ?msg ?s = event_fresh ?msg s"
    using assms(2) by (simp add: event_fresh_def slot_events_def clock_witness_def word_less_Suc_max)
  have gt: "sf_event_clock s < clock_witness (sf_event_clock s) (sf_event_clock s + 1)"
    using clock_witness_gt [OF assms(2)] .
  show ?thesis
  proof (cases r)
    case (Inl e)
    then show ?thesis
      using assms(3) by (auto simp: user_event_op_def Let_def split: if_splits sum.splits elim!: map_res.elims)
  next
    case (Inr u)
    then obtain raw b v where raw: "message_to_bytes P (Msg_UserEvent ?msg) = Inr raw"
      and sz: "length name + length payload \<le> op_max_user_event_size (sf_opts s)"
      and v: "handle_user_event ?msg ?s = Inr (b, v)" "s' = queue_event_broadcast raw v"
      using assms(3) by (auto simp: user_event_op_def Let_def clock_time_def clock_increment_def
          split: if_splits sum.splits elim!: map_res.elims)
    have "ring_bounded ?s" using assms(1) by (simp add: ring_bounded_def)
    note eff = handle_user_event_effect [OF v(1) this]
    show ?thesis
      using Inr raw sz v(2) eff gt fresh handle_user_event_queues [OF v(1)]
      by (simp add: Let_def queue_event_broadcast_def)
  qed
qed

lemma sample_respond:
  "\<exists>ctx' s'. respond sample_proto (\<lambda>_. 0) 4 True (make_query_event 0 (sample_load_query 3 1)) [9]
      \<lparr>qc_query_timeout = 5, qc_span = Some 0\<rparr> sample_serf = (Inr (), ctx', s')"
proof -
  let ?raw = "wire_message sample_proto (Msg_QueryResponse sample_answer)"
  have raw: "message_to_bytes sample_proto (Msg_QueryResponse sample_answer) = Inr ?raw"
    by (rule message_to_bytes_wire [OF sample_answer_wf])
  have len: "length ?raw < 100"
    by (simp add: wire_message_def sample_answer_def sample_node_def wire_query_response_def ld_frame_def)
  obtain t where rel: "relay_response sample_proto (\<lambda>_. 0) 1 (sample_node 1) sample_answer
      (ml_send (node_addr (sample_node 2)) ?raw sample_serf) = (Inr (), t)"
    using sample_relay [of "ml_send (node_addr (sample_node 2)) ?raw sample_serf" "\<lambda>_. 0" "sample_node 1"]
    by (auto simp: ml_send_def sample_serf_members dest!: eq_fst_iff [THEN iffD1, OF sym])
  show ?thesis
    using raw len rel
    by (simp add: respond_def Let_def make_query_event_def sample_load_query_def sample_serf_members
        respond_with_message_and_response_def check_response_size_def sample_options_def sample_answer_def)
qed



lemma sample_user_event: "\<exists>s'. user_event_op sample_proto ''deploy'' [7] False sample_serf = Inr (Inr (), s')"
proof -
  let ?m = "sample_event 1"
  have raw: "message_to_bytes sample_proto (Msg_UserEvent ?m) = Inr (wire_message sample_proto (Msg_UserEvent ?m))"
    by (rule message_to_bytes_wire)
      (simp add: wf_message_def wf_user_event_message_def sample_event_def str_ok_def fits_u32_def
        wire_user_event_message_def ld_frame_def str_bytes_def)
  have len: "encoded_message_len sample_proto (encoded_len_user_event_message sample_proto ?m) < 100"
    by (simp add: encoded_message_len_def encoded_len_user_event_message_def ld_len_def sample_event_def)
  have bnd: "ring_bounded (sample_serf\<lparr>sf_event_clock := 2\<rparr>)"
    by (simp add: ring_bounded_def sample_serf_rings)
  have "ue_ltime ?m < - 1" by (simp add: sample_event_def sample_times)
  from handle_user_event_returns [OF bnd this] raw len show ?thesis
    by (auto simp: user_event_op_def Let_def sample_serf_members sample_options_def user_event_size_limit_def
        sample_serf_rings clock_time_def clock_increment_def sample_event_def)
qed

theorem user_event_effect_witness:
  "\<exists>s'. user_event_op sample_proto ''deploy'' [7] False sample_serf = Inr (Inr (), s') \<and>
     sf_event_clock sample_serf < sf_event_clock s' \<and>
     (\<exists>raw. message_to_bytes sample_proto (Msg_UserEvent (sample_event 1)) = Inr raw \<and>
        sf_event_broadcasts s' = [\<lparr>sb_msg = raw, sb_notify = False\<rparr>])"
proof -
  obtain s' where s': "user_event_op sample_proto ''deploy'' [7] False sample_serf = Inr (Inr (), s')"
    using sample_user_event by blast
  have clock: "sf_event_clock sample_serf < - 1" by (simp add: sample_serf_rings sample_times)
  from user_event_effect [OF sample_ring_bounded clock s'] s' show ?thesis
    by (simp add: Let_def sample_serf_rings sample_event_def)
qed

section \<open>Queries\<close>

text \<open>
  C12. The ring of recent queries decides as an unbounded memory would. A node
  whose ring is empty accepts, in any sequence of queries and of query clocks
  learnt from others, exactly the queries that a node accepts which remembers
  every query it has ever handled: those not below the minimum time, not too
  old for the clock, and not seen before.
\<close>

theorem query_ring_refines:
  assumes "qring_inv n s" "\<And>j. qslot s j = None" "list_all (\<lambda>m. input_time m < - 1) ms"
  shows "fst (accepted (accept_query P) ms s) =
    fst (accepted (spec_accept n (qco_min_time (sf_query_core s))) ms (sf_query_clock s, {}))"
  by (rule query_ring_simulates) (use assms in \<open>auto simp: ring_refines_def in_slot_def\<close>)

theorem query_ring_refines_witness:
  "fst (accepted (accept_query sample_proto) [sample_receive 3 1, sample_receive 7 1, sample_receive 3 1] sample_serf) =
   fst (accepted (spec_accept 4 0) [sample_receive 3 1, sample_receive 7 1, sample_receive 3 1] (1, {}))"
  using query_ring_refines [OF sample_qring_inv sample_qslot,
      of "[sample_receive 3 1, sample_receive 7 1, sample_receive 3 1]" sample_proto]
  by (simp add: sample_receive_def sample_load_query_def sample_serf_rings sample_times
      del: accepted.simps)

text \<open>
  C13. Subscribers see each query at most once: over any sequence of received
  queries, the query events put on the event channel are pairwise different in
  Lamport time or id, and each belongs to a query of the sequence.
\<close>

theorem query_events_at_most_once:
  assumes "qring_inv n s" "list_all (\<lambda>m. input_time m < - 1) ms"
  shows "\<exists>es. sf_event_tx (snd (accepted (accept_query P) ms s)) = sf_event_tx s @ es \<and>
    distinct (map event_key es) \<and> set (map event_key es) \<subseteq> set (map input_key ms) - {None}"
proof -
  let ?as = "fst (accepted (accept_query P) ms s)"
  obtain es where es: "sf_event_tx (snd (accepted (accept_query P) ms s)) = sf_event_tx s @ es"
    "subseq (map event_key es) (map input_key ?as)"
    using accepted_query_tx [OF assms] by blast
  have "fst (accept_query P m u) \<Longrightarrow> input_key m \<noteq> None" for m and u :: "('a, 'b) serf"
    by (cases m) simp_all
  then have keys: "\<forall>m \<in> set ?as. m \<in> set ms \<and> input_key m \<noteq> None"
    by (rule accepted_all)
  obtain N where N: "map event_key es = nths (map input_key ?as) N"
    using es(2) by (auto simp: subseq_conv_nths)
  have sub: "set (map event_key es) \<subseteq> set (map input_key ?as)"
    unfolding N by (rule set_nths_subset)
  have "distinct (map event_key es)"
    using query_ring.at_most_once [OF assms, of P] unfolding N by (rule distinct_nthsI)
  moreover have "set (map event_key es) \<subseteq> set (map input_key ms) - {None}"
    using sub keys by fastforce
  ultimately show ?thesis using es(1) by blast
qed

theorem query_events_at_most_once_witness:
  "\<exists>es. sf_event_tx (snd (accepted (accept_query sample_proto) [sample_receive 3 1, sample_receive 3 1] sample_serf))
      = sf_event_tx sample_serf @ es \<and>
    distinct (map event_key es) \<and> set (map event_key es) \<subseteq> {Some (3, 1)}"
proof -
  have "list_all (\<lambda>m. input_time m < - 1) [sample_receive 3 1, sample_receive 3 1]"
    by (simp add: sample_receive_def sample_load_query_def sample_times)
  from query_events_at_most_once [OF sample_qring_inv this, of sample_proto] show ?thesis
    by (auto simp: sample_receive_def sample_load_query_def simp del: accepted.simps)
qed



text \<open>
  C18. Relaying a response. At most as many packets are sent as the relay
  factor says, each to a different member that is alive and is not the local
  node, and each is the response wrapped for the given node. When the relay is
  not refused and the cluster is larger than the relay factor, exactly the
  smaller of the relay factor and the number of such members is sent.
\<close>

theorem relay_targets:
  assumes "members_inv (sf_members s)" "relay_response P rnd rf node resp s = (r, s')"
  shows "\<exists>ms raw. s' = s\<lparr>sf_sent := sf_sent s @ map (\<lambda>m. (node_addr (m_node m), raw)) ms\<rparr> \<and>
    length ms \<le> unat rf \<and> distinct (map (\<lambda>m. node_id (m_node m)) ms) \<and> list_all (relay_target s) ms \<and>
    (ms \<noteq> [] \<longrightarrow> relay_to_bytes P (Msg_QueryResponse resp) node = Inr raw) \<and>
    (r = Inr () \<and> rf \<noteq> 0 \<and> unat rf < length (states (sf_members s)) \<longrightarrow>
       length ms = min (unat rf) (length (relay_candidates s)))"
  using assms by (rule relay_response_sends)

theorem relay_targets_witness:
  "\<exists>ms raw. snd (relay_response sample_proto (\<lambda>_. 0) 1 (sample_node 2) sample_answer sample_serf) =
      sample_serf\<lparr>sf_sent := sf_sent sample_serf @ map (\<lambda>m. (node_addr (m_node m), raw)) ms\<rparr> \<and>
    length ms = 1 \<and> list_all (relay_target sample_serf) ms"
proof -
  have inv: "members_inv (sf_members sample_serf)"
    using sample_serf_inv by (simp add: membership_inv_def)
  show ?thesis
    using relay_targets [OF inv surjective_pairing, of sample_proto "\<lambda>_. 0" 1 "sample_node 2" sample_answer]
      sample_relay [OF refl sample_serf_members(5,3)] sample_candidates sample_serf_members(1)
    by simp metis
qed

text \<open>
  C19. Answering a query. A successful answer sends the response to the node
  that asked and uses up the query, so that a second answer is refused. The
  copies relayed through other members are addressed to the responding node
  itself: the node that asked never gets them.
\<close>

theorem respond_relays_to_itself:
  assumes "members_inv (sf_members s)" "respond P rnd now sent ev msg ctx s = (Inr (), ctx', s')"
  defines "resp \<equiv> \<lparr>qr_ltime = qe_ltime ev, qr_id = qe_id ev, qr_from = sf_local s, qr_flags = 0, qr_payload = msg\<rparr>"
  shows "(\<exists>raw ms relayed. message_to_bytes P (Msg_QueryResponse resp) = Inr raw \<and>
      s' = s\<lparr>sf_sent := sf_sent s @ (node_addr (qe_from ev), raw) #
        map (\<lambda>m. (node_addr (m_node m), relayed)) ms\<rparr> \<and>
      (ms \<noteq> [] \<longrightarrow> relay_to_bytes P (Msg_QueryResponse resp) (sf_local s) = Inr relayed) \<and>
      list_all (relay_target s) ms) \<and>
    (\<exists>e. respond P rnd' now' sent' ev msg' ctx' s' = (Inl e, ctx', s'))"
proof -
  note sends = respond_sends [OF assms(1,2), folded resp_def]
  have "ctx' = ctx\<lparr>qc_span := None\<rparr>" using sends by (elim conjE)
  then have none: "qc_span ctx' = None" by simp
  obtain raw ms relayed where "message_to_bytes P (Msg_QueryResponse resp) = Inr raw"
    "s' = s\<lparr>sf_sent := sf_sent s @ (node_addr (qe_from ev), raw) # map (\<lambda>m. (node_addr (m_node m), relayed)) ms\<rparr>"
    "ms \<noteq> [] \<longrightarrow> relay_to_bytes P (Msg_QueryResponse resp) (sf_local s) = Inr relayed"
    "list_all (relay_target s) ms"
    using sends by (elim conjE exE) (rule that)
  then show ?thesis
    by (intro conjI respond_once none exI [of _ raw] exI [of _ ms] exI [of _ relayed])
qed

theorem respond_relays_to_itself_witness:
  "\<exists>ctx' s'. respond sample_proto (\<lambda>_. 0) 4 True (make_query_event 0 (sample_load_query 3 1)) [9]
      \<lparr>qc_query_timeout = 5, qc_span = Some 0\<rparr> sample_serf = (Inr (), ctx', s') \<and>
    (\<exists>e. respond sample_proto (\<lambda>_. 0) 4 True (make_query_event 0 (sample_load_query 3 1)) [9] ctx' s'
      = (Inl e, ctx', s'))"
proof -
  let ?ev = "make_query_event 0 (sample_load_query 3 1)" and ?ctx = "\<lparr>qc_query_timeout = 5, qc_span = Some 0\<rparr>"
  have inv: "members_inv (sf_members sample_serf)"
    using sample_serf_inv by (simp add: membership_inv_def)
  obtain ctx' s' where r: "respond sample_proto (\<lambda>_. 0) 4 True ?ev [9] ?ctx sample_serf = (Inr (), ctx', s')"
    using sample_respond by blast
  then show ?thesis
    using respond_relays_to_itself [OF inv r] by blast
qed





end
