(* ===== verification/Snapshot.thy ===== *)
theory Snapshot
  imports Queries
begin

text \<open>
  The snapshot of \<open>snapshot.rs\<close>: the log of live nodes and clocks that a node
  keeps on disk, its replay at start, the task that appends to it, and its
  compaction.

  The file system is part of the state: the contents of the snapshot file and
  of the file a compaction writes, and the bytes still in the \<open>BufWriter\<close> of the
  open handle. Whether an I/O call fails is the argument \<open>io\<close>; a failing write
  says after how many bytes. Times are milliseconds, and the reading of the
  shared Lamport clock is an argument.
\<close>

section \<open>Records\<close>

datatype snapshot_record_type =
    RT_Alive | RT_NotAlive | RT_Clock | RT_EventClock | RT_QueryClock | RT_Coordinate | RT_Leave | RT_Comment

definition record_type_of_u8 :: "u8 \<Rightarrow> snapshot_record_type option" where
  "record_type_of_u8 v =
     (if v = 0 then Some RT_Alive
      else if v = 1 then Some RT_NotAlive
      else if v = 2 then Some RT_Clock
      else if v = 3 then Some RT_EventClock
      else if v = 4 then Some RT_QueryClock
      else if v = 5 then Some RT_Coordinate
      else if v = 6 then Some RT_Leave
      else if v = 7 then Some RT_Comment
      else None)"

datatype ('i, 'a) snapshot_record =
    Rec_Alive "('i, 'a) node"
  | Rec_NotAlive "('i, 'a) node"
  | Rec_Clock lamport_time
  | Rec_EventClock lamport_time
  | Rec_QueryClock lamport_time
  | Rec_Coordinate
  | Rec_Leave
  | Rec_Comment

datatype snapshot_error =
    Snap_Open | Snap_OpenNew | Snap_FlushNew | Snap_Flush | Snap_Sync | Snap_Stat | Snap_Remove
  | Snap_Install | Snap_WriteNew | Snap_Write | Snap_SeekStart | Snap_SeekEnd | Snap_Replay
  | Snap_UnknownRecordType u8

text \<open>\<open>to_le_bytes\<close>, and \<open>read_u32\<close> and \<open>read_u64\<close> on what it gives.\<close>

fun le_bytes :: "nat \<Rightarrow> nat \<Rightarrow> bytes" where
  "le_bytes 0 n = []"
| "le_bytes (Suc k) n = of_nat (n mod 256) # le_bytes k (n div 256)"

fun le_nat :: "bytes \<Rightarrow> nat" where
  "le_nat [] = 0"
| "le_nat (b # bs) = unat b + 256 * le_nat bs"

definition max_inlined_bytes :: nat where
  "max_inlined_bytes = 64"

text \<open>
  A node that fits is encoded into a zeroed array of 64 bytes. One that does
  not is encoded into the vector that holds the five bytes of the header: the
  slice it is given is the initialised part of that vector, not its capacity.
\<close>

definition encode_node_record :: "('i, 'a) proto \<Rightarrow> u8 \<Rightarrow> ('i, 'a) node \<Rightarrow> encode_error + bytes" where
  "encode_node_record P status node =
     (let body = enc (nodec P) node;
          encoded_node_len = length body;
          encoded_len = 4 + 1 + encoded_node_len;
          header = status # le_bytes 4 (unat (of_nat encoded_node_len :: u32))
      in if encoded_len \<le> max_inlined_bytes
         then map_res (\<lambda>(buf, _). take encoded_len buf)
                (put_enc body (blit (replicate max_inlined_bytes 0) 0 header, 5))
         else map_res fst (put_enc body (header, 0)))"

definition encode_time_record :: "u8 \<Rightarrow> lamport_time \<Rightarrow> bytes" where
  "encode_time_record status t = status # le_bytes 8 (unat t)"

fun encode_record :: "('i, 'a) proto \<Rightarrow> ('i, 'a) snapshot_record \<Rightarrow> encode_error + bytes" where
  "encode_record P (Rec_Alive n) = encode_node_record P 0 n"
| "encode_record P (Rec_NotAlive n) = encode_node_record P 1 n"
| "encode_record P (Rec_Clock t) = Inr (encode_time_record 2 t)"
| "encode_record P (Rec_EventClock t) = Inr (encode_time_record 3 t)"
| "encode_record P (Rec_QueryClock t) = Inr (encode_time_record 4 t)"
| "encode_record P Rec_Coordinate = Inr [5]"
| "encode_record P Rec_Leave = Inr [6]"
| "encode_record P Rec_Comment = Inr [7]"

section \<open>Replay\<close>

record ('i, 'a) replay_result =
  rr_alive_nodes :: "('i, 'a) node list"
  rr_last_clock :: lamport_time
  rr_last_event_clock :: lamport_time
  rr_last_query_clock :: lamport_time

definition read_exact :: "nat \<Rightarrow> bytes \<Rightarrow> snapshot_error + bytes \<times> bytes" where
  "read_exact n b = (if length b < n then Inl Snap_Replay else Inr (take n b, drop n b))"

definition read_node :: "('i, 'a) proto \<Rightarrow> bytes \<Rightarrow> snapshot_error + ('i, 'a) node \<times> bytes" where
  "read_node P b =
     bind_res (read_exact 4 b) (\<lambda>(len, b).
     bind_res (read_exact (le_nat len) b) (\<lambda>(buf, b).
     case dec (nodec P) buf of Inl e \<Rightarrow> Inl Snap_Replay | Inr (_, node) \<Rightarrow> Inr (node, b)))"

definition read_time :: "bytes \<Rightarrow> snapshot_error + lamport_time \<times> bytes" where
  "read_time b = map_res (\<lambda>(t, b). (of_nat (le_nat t), b)) (read_exact 8 b)"

definition read_record ::
  "('i, 'a) proto \<Rightarrow> u8 \<Rightarrow> bytes \<Rightarrow> snapshot_error + ('i, 'a) snapshot_record \<times> bytes" where
  "read_record P k b =
     (case record_type_of_u8 k of
        None \<Rightarrow> Inl (Snap_UnknownRecordType k)
      | Some RT_Alive \<Rightarrow> map_res (\<lambda>(n, b). (Rec_Alive n, b)) (read_node P b)
      | Some RT_NotAlive \<Rightarrow> map_res (\<lambda>(n, b). (Rec_NotAlive n, b)) (read_node P b)
      | Some RT_Clock \<Rightarrow> map_res (\<lambda>(t, b). (Rec_Clock t, b)) (read_time b)
      | Some RT_EventClock \<Rightarrow> map_res (\<lambda>(t, b). (Rec_EventClock t, b)) (read_time b)
      | Some RT_QueryClock \<Rightarrow> map_res (\<lambda>(t, b). (Rec_QueryClock t, b)) (read_time b)
      | Some RT_Coordinate \<Rightarrow> Inr (Rec_Coordinate, b)
      | Some RT_Leave \<Rightarrow> Inr (Rec_Leave, b)
      | Some RT_Comment \<Rightarrow> Inr (Rec_Comment, b))"

text \<open>A \<open>HashSet\<close> of nodes is a list without repetitions.\<close>

fun apply_record ::
  "bool \<Rightarrow> ('i, 'a) snapshot_record \<Rightarrow> ('i, 'a) replay_result \<Rightarrow> ('i, 'a) replay_result" where
  "apply_record rejoin (Rec_Alive n) r = r\<lparr>rr_alive_nodes := List.insert n (rr_alive_nodes r)\<rparr>"
| "apply_record rejoin (Rec_NotAlive n) r = r\<lparr>rr_alive_nodes := removeAll n (rr_alive_nodes r)\<rparr>"
| "apply_record rejoin (Rec_Clock t) r = r\<lparr>rr_last_clock := t\<rparr>"
| "apply_record rejoin (Rec_EventClock t) r = r\<lparr>rr_last_event_clock := t\<rparr>"
| "apply_record rejoin (Rec_QueryClock t) r = r\<lparr>rr_last_query_clock := t\<rparr>"
| "apply_record rejoin Rec_Coordinate r = r"
| "apply_record rejoin Rec_Leave r =
     (if rejoin then r
      else \<lparr>rr_alive_nodes = [], rr_last_clock = 0, rr_last_event_clock = 0, rr_last_query_clock = 0\<rparr>)"
| "apply_record rejoin Rec_Comment r = r"

lemma read_node_shrinks: "read_node P b = Inr (n, b') \<Longrightarrow> length b' \<le> length b"
  by (auto simp: read_node_def read_exact_def split: if_splits sum.splits)

lemma read_record_shrinks: "read_record P k b = Inr (r, b') \<Longrightarrow> length b' \<le> length b"
  by (auto simp: read_record_def read_time_def read_exact_def
      split: option.splits snapshot_record_type.splits if_splits
      elim!: map_res.elims dest!: read_node_shrinks)

function replay ::
  "('i, 'a) proto \<Rightarrow> bool \<Rightarrow> bytes \<Rightarrow> ('i, 'a) replay_result \<Rightarrow> snapshot_error + ('i, 'a) replay_result" where
  "replay P rejoin [] r = Inr r"
| "replay P rejoin (k # b) r =
     (case read_record P k b of
        Inl e \<Rightarrow> Inl e
      | Inr (rec, b') \<Rightarrow> replay P rejoin b' (apply_record rejoin rec r))"
  by pat_completeness auto
termination
  by (relation "measure (\<lambda>(P, rejoin, b, r). length b)") (auto dest: read_record_shrinks)

definition replay_start :: "('i, 'a) replay_result" where
  "replay_start = \<lparr>rr_alive_nodes = [], rr_last_clock = 0, rr_last_event_clock = 0, rr_last_query_clock = 0\<rparr>"

text \<open>\<open>open_and_replay_snapshot\<close>: a missing file is created empty.\<close>

definition open_and_replay_snapshot ::
  "('i, 'a) proto \<Rightarrow> bool \<Rightarrow> bytes option \<Rightarrow> snapshot_error + ('i, 'a) replay_result \<times> nat" where
  "open_and_replay_snapshot P rejoin_after_leave file =
     (let contents = (case file of None \<Rightarrow> [] | Some b \<Rightarrow> b)
      in map_res (\<lambda>r. (r, length contents)) (replay P rejoin_after_leave contents replay_start))"

section \<open>The file and its writer\<close>

datatype io_point =
    Io_open_new | Io_write_new | Io_flush_new | Io_sync_new | Io_remove | Io_rename | Io_open
  | Io_write | Io_flush

type_synonym io = "io_point \<Rightarrow> nat option"

abbreviation no_fault :: io where
  "no_fault \<equiv> \<lambda>_. None"

record ('i, 'a) snapshot =
  sn_alive_nodes :: "('i, 'a) node list"
  sn_fh :: "bytes option"
  sn_disk :: "bytes option"
  sn_tmp :: "bytes option"
  sn_last_flush :: nat
  sn_last_clock :: lamport_time
  sn_last_event_clock :: lamport_time
  sn_last_query_clock :: lamport_time
  sn_leaving :: bool
  sn_min_compact_size :: nat
  sn_offset :: nat
  sn_rejoin_after_leave :: bool
  sn_last_attempted_compaction :: nat

definition from_replay_result ::
  "nat \<Rightarrow> nat \<Rightarrow> bool \<Rightarrow> bytes option \<Rightarrow> ('i, 'a) replay_result \<times> nat \<Rightarrow> ('i, 'a) snapshot" where
  "from_replay_result now min_compact_size rejoin_after_leave file r =
     \<lparr>sn_alive_nodes = rr_alive_nodes (fst r), sn_fh = Some [],
      sn_disk = Some (case file of None \<Rightarrow> [] | Some b \<Rightarrow> b), sn_tmp = None, sn_last_flush = now,
      sn_last_clock = rr_last_clock (fst r), sn_last_event_clock = rr_last_event_clock (fst r),
      sn_last_query_clock = rr_last_query_clock (fst r), sn_leaving = False,
      sn_min_compact_size = min_compact_size, sn_offset = snd r,
      sn_rejoin_after_leave = rejoin_after_leave, sn_last_attempted_compaction = now\<rparr>"

text \<open>
  A \<open>BufWriter\<close> with its default capacity: data that fits waits in the buffer,
  the buffer is emptied to make room, and data as large as the buffer goes
  straight to the file. The pair is the file and the buffer.
\<close>

definition buf_capacity :: nat where
  "buf_capacity = 8192"

definition flush_buf :: "nat option \<Rightarrow> bytes \<times> bytes \<Rightarrow> bool \<times> bytes \<times> bytes" where
  "flush_buf fault f =
     (case fault of
        None \<Rightarrow> (True, fst f @ snd f, [])
      | Some n \<Rightarrow> (False, fst f @ take n (snd f), drop n (snd f)))"

definition write_all :: "nat option \<Rightarrow> bytes \<Rightarrow> bytes \<times> bytes \<Rightarrow> bool \<times> bytes \<times> bytes" where
  "write_all fault data f =
     (let spare = buf_capacity - length (snd f)
      in if length data < spare then (True, fst f, snd f @ data)
         else
           (let (ok, f) = (if spare < length data then flush_buf fault f else (True, f))
            in if \<not> ok then (False, f)
               else if buf_capacity \<le> length data then
                 (case fault of
                    None \<Rightarrow> (True, fst f @ data, snd f)
                  | Some n \<Rightarrow> (False, fst f @ take n data, snd f))
               else (True, fst f, snd f @ data)))"

definition set_file :: "bytes \<times> bytes \<Rightarrow> ('i, 'a) snapshot \<Rightarrow> ('i, 'a) snapshot" where
  "set_file f s = s\<lparr>sn_disk := Some (fst f), sn_fh := Some (snd f)\<rparr>"

definition snapshot_max_size :: "('i, 'a) snapshot \<Rightarrow> nat" where
  "snapshot_max_size s = max (length (sn_alive_nodes s) * 128 * 2) (sn_min_compact_size s)"

section \<open>Compaction\<close>

definition compact_records :: "('i, 'a) snapshot \<Rightarrow> ('i, 'a) snapshot_record list" where
  "compact_records s =
     map Rec_Alive (sn_alive_nodes s) @
     [Rec_Clock (sn_last_clock s), Rec_EventClock (sn_last_event_clock s), Rec_QueryClock (sn_last_query_clock s)]"

text \<open>The records in order up to the first that does not encode.\<close>

fun write_records ::
  "('i, 'a) proto \<Rightarrow> ('i, 'a) snapshot_record list \<Rightarrow> bytes \<Rightarrow> (encode_error + unit) \<times> bytes" where
  "write_records P [] out = (Inr (), out)"
| "write_records P (r # rs) out =
     (case encode_record P r of Inl e \<Rightarrow> (Inl e, out) | Inr b \<Rightarrow> write_records P rs (out @ b))"

definition compact ::
  "('i, 'a) proto \<Rightarrow> io \<Rightarrow> nat \<Rightarrow> ('i, 'a) snapshot \<Rightarrow> panic + (snapshot_error + unit) \<times> ('i, 'a) snapshot" where
  "compact P io now s =
     (if io Io_open_new \<noteq> None then Inr (Inl Snap_OpenNew, s)
      else
        (case write_records P (compact_records s) [] of
           (Inl e, out) \<Rightarrow> Inr (Inl Snap_WriteNew, s\<lparr>sn_tmp := Some out\<rparr>)
         | (Inr _, img) \<Rightarrow>
             (case (io Io_write_new, io Io_flush_new, io Io_sync_new) of
                (Some n, _, _) \<Rightarrow> Inr (Inl Snap_WriteNew, s\<lparr>sn_tmp := Some (take n img)\<rparr>)
              | (None, Some n, _) \<Rightarrow> Inr (Inl Snap_Flush, s\<lparr>sn_tmp := Some (take n img)\<rparr>)
              | (None, None, Some _) \<Rightarrow> Inr (Inl Snap_Sync, s\<lparr>sn_tmp := Some img\<rparr>)
              | (None, None, None) \<Rightarrow>
                  (case sn_fh s of
                     None \<Rightarrow> Inl Unwrap_none
                   | Some old \<Rightarrow>
                       (let (_, disk, _) = flush_buf (io Io_write) (the (sn_disk s), old);
                            s = s\<lparr>sn_tmp := Some img, sn_fh := None, sn_disk := Some disk\<rparr>
                        in if io Io_remove \<noteq> None then Inr (Inl Snap_Remove, s)
                           else
                             (let s = s\<lparr>sn_disk := None\<rparr>
                              in if io Io_rename \<noteq> None then Inr (Inl Snap_Install, s)
                                 else
                                   (let s = s\<lparr>sn_disk := Some img, sn_tmp := None\<rparr>
                                    in if io Io_open \<noteq> None then Inr (Inl Snap_Open, s)
                                       else Inr (Inr (), s\<lparr>sn_fh := Some [], sn_offset := length img,
                                                          sn_last_flush := now\<rparr>))))))))"

section \<open>Appending\<close>

definition flush_interval :: nat where
  "flush_interval = 500"

definition snapshot_error_recovery_interval :: nat where
  "snapshot_error_recovery_interval = 30000"

definition append_line ::
  "('i, 'a) proto \<Rightarrow> io \<Rightarrow> nat \<Rightarrow> ('i, 'a) snapshot_record \<Rightarrow> ('i, 'a) snapshot
   \<Rightarrow> panic + (snapshot_error + unit) \<times> ('i, 'a) snapshot" where
  "append_line P io now l s =
     (case sn_fh s of
        None \<Rightarrow> Inl Unwrap_none
      | Some buf \<Rightarrow>
          (case encode_record P l of
             Inl e \<Rightarrow> Inr (Inl Snap_Write, s)
           | Inr b \<Rightarrow>
               (let (ok, f) = write_all (io Io_write) b (the (sn_disk s), buf);
                    s = set_file f s
                in if \<not> ok then Inr (Inl Snap_Write, s)
                   else
                     (let (ok, s) =
                        (if flush_interval < now - sn_last_flush s
                         then (let (ok, f) = flush_buf (io Io_flush) f
                               in (ok, set_file f (s\<lparr>sn_last_flush := now\<rparr>)))
                         else (True, s))
                      in if \<not> ok then Inr (Inl Snap_Flush, s)
                         else
                           (let s = s\<lparr>sn_offset := sn_offset s + length b\<rparr>
                            in if snapshot_max_size s < sn_offset s then compact P io now s
                               else Inr (Inr (), s))))))"

definition try_append ::
  "('i, 'a) proto \<Rightarrow> io \<Rightarrow> nat \<Rightarrow> ('i, 'a) snapshot_record \<Rightarrow> ('i, 'a) snapshot \<Rightarrow> panic + ('i, 'a) snapshot" where
  "try_append P io now l s =
     bind_res (append_line P io now l s) (\<lambda>(r, s).
       case r of
         Inr _ \<Rightarrow> Inr s
       | Inl e \<Rightarrow>
           if snapshot_error_recovery_interval < now - sn_last_attempted_compaction s
           then map_res snd (compact P io now (s\<lparr>sn_last_attempted_compaction := now\<rparr>))
           else Inr s)"

section \<open>The task\<close>

definition update_clock ::
  "('i, 'a) proto \<Rightarrow> io \<Rightarrow> nat \<Rightarrow> u64 \<Rightarrow> ('i, 'a) snapshot \<Rightarrow> panic + ('i, 'a) snapshot" where
  "update_clock P io now clock s =
     (let t = clock_time clock;
          last_seen = (if t = 0 then 0 else t - 1)
      in if sn_last_clock s < last_seen
         then try_append P io now (Rec_Clock last_seen) (s\<lparr>sn_last_clock := last_seen\<rparr>)
         else Inr s)"

definition process_user_event ::
  "('i, 'a) proto \<Rightarrow> io \<Rightarrow> nat \<Rightarrow> user_event_message \<Rightarrow> ('i, 'a) snapshot \<Rightarrow> panic + ('i, 'a) snapshot" where
  "process_user_event P io now e s =
     (let ltime = ue_ltime e
      in if ltime \<le> sn_last_event_clock s then Inr s
         else try_append P io now (Rec_EventClock ltime) (s\<lparr>sn_last_event_clock := ltime\<rparr>))"

definition process_query_event ::
  "('i, 'a) proto \<Rightarrow> io \<Rightarrow> nat \<Rightarrow> lamport_time \<Rightarrow> ('i, 'a) snapshot \<Rightarrow> panic + ('i, 'a) snapshot" where
  "process_query_event P io now ltime s =
     (if ltime \<le> sn_last_query_clock s then Inr s
      else try_append P io now (Rec_QueryClock ltime) (s\<lparr>sn_last_query_clock := ltime\<rparr>))"

fun process_joins ::
  "('i, 'a) proto \<Rightarrow> io \<Rightarrow> nat \<Rightarrow> ('i, 'a) node list \<Rightarrow> ('i, 'a) snapshot \<Rightarrow> panic + ('i, 'a) snapshot" where
  "process_joins P io now [] s = Inr s"
| "process_joins P io now (n # ns) s =
     bind_res (try_append P io now (Rec_Alive n) (s\<lparr>sn_alive_nodes := List.insert n (sn_alive_nodes s)\<rparr>))
       (process_joins P io now ns)"

fun process_departures ::
  "('i, 'a) proto \<Rightarrow> io \<Rightarrow> nat \<Rightarrow> ('i, 'a) node list \<Rightarrow> ('i, 'a) snapshot \<Rightarrow> panic + ('i, 'a) snapshot" where
  "process_departures P io now [] s = Inr s"
| "process_departures P io now (n # ns) s =
     bind_res (try_append P io now (Rec_NotAlive n) (s\<lparr>sn_alive_nodes := removeAll n (sn_alive_nodes s)\<rparr>))
       (process_departures P io now ns)"

definition process_member_event ::
  "('i, 'a) proto \<Rightarrow> io \<Rightarrow> nat \<Rightarrow> u64 \<Rightarrow> ('i, 'a) member_event \<Rightarrow> ('i, 'a) snapshot \<Rightarrow> panic + ('i, 'a) snapshot" where
  "process_member_event P io now clock e s =
     (let nodes = map m_node (me_members e)
      in bind_res
           (case me_ty e of
              EvJoin \<Rightarrow> process_joins P io now nodes s
            | EvLeave \<Rightarrow> process_departures P io now nodes s
            | EvFailed \<Rightarrow> process_departures P io now nodes s
            | _ \<Rightarrow> Inr s)
           (update_clock P io now clock))"

text \<open>Flushing may fail; the failure is only logged.\<close>

definition flush_and_sync :: "io \<Rightarrow> ('i, 'a) snapshot \<Rightarrow> ('i, 'a) snapshot" where
  "flush_and_sync io s =
     (case sn_fh s of
        None \<Rightarrow> s
      | Some buf \<Rightarrow> set_file (snd (flush_buf (io Io_flush) (the (sn_disk s), buf))) s)"

definition handle_leave ::
  "('i, 'a) proto \<Rightarrow> io \<Rightarrow> nat \<Rightarrow> ('i, 'a) snapshot \<Rightarrow> panic + ('i, 'a) snapshot" where
  "handle_leave P io now s =
     (let s = s\<lparr>sn_leaving := True\<rparr>;
          s = (if \<not> sn_rejoin_after_leave s then s\<lparr>sn_alive_nodes := []\<rparr> else s)
      in map_res (flush_and_sync io) (try_append P io now Rec_Leave s))"

text \<open>One turn of the loop of \<open>stream\<close>; \<open>False\<close> leaves the loop.\<close>

datatype ('i, 'a) snapshot_input =
    Leave_signal
  | Stream_event "('i, 'a) crate_event"
  | Clock_tick
  | Stream_shutdown

definition stream_flush_event ::
  "('i, 'a) proto \<Rightarrow> io \<Rightarrow> nat \<Rightarrow> u64 \<Rightarrow> ('i, 'a) crate_event \<Rightarrow> ('i, 'a) snapshot
   \<Rightarrow> panic + bool \<times> ('i, 'a) snapshot" where
  "stream_flush_event P io now clock ev s =
     (if sn_leaving s then Inr (False, s)
      else map_res (Pair True)
        (case ev of
           Ev_Member e \<Rightarrow> process_member_event P io now clock e s
         | Ev_User e \<Rightarrow> process_user_event P io now e s
         | Ev_Query e \<Rightarrow> process_query_event P io now (qe_ltime e) s
         | Ev_InternalQuery kind q \<Rightarrow> process_query_event P io now (qe_ltime q) s))"

fun stream_turn ::
  "('i, 'a) proto \<Rightarrow> io \<Rightarrow> nat \<Rightarrow> u64 \<Rightarrow> ('i, 'a) snapshot_input \<Rightarrow> ('i, 'a) snapshot
   \<Rightarrow> panic + bool \<times> ('i, 'a) snapshot" where
  "stream_turn P io now clock Leave_signal s = map_res (Pair True) (handle_leave P io now s)"
| "stream_turn P io now clock (Stream_event ev) s = stream_flush_event P io now clock ev s"
| "stream_turn P io now clock Clock_tick s = map_res (Pair True) (update_clock P io now clock s)"
| "stream_turn P io now clock Stream_shutdown s = Inr (False, s)"

text \<open>A loop over what arrives, each with its faults, its time and the clock.\<close>

type_synonym ('i, 'a) timed_input = "io \<times> nat \<times> u64 \<times> ('i, 'a) snapshot_input"

fun stream_loop ::
  "('i, 'a) proto \<Rightarrow> ('i, 'a) timed_input list \<Rightarrow> ('i, 'a) snapshot \<Rightarrow> panic + ('i, 'a) snapshot" where
  "stream_loop P [] s = Inr s"
| "stream_loop P ((io, now, clock, i) # is) s =
     bind_res (stream_turn P io now clock i s) (\<lambda>(go_on, s).
       if go_on then stream_loop P is s else Inr s)"

text \<open>
  After the loop: a pending leave signal, the clock once more, the events still
  in the channel until the flush timeout, and a last flush.
\<close>

definition drain_events ::
  "('i, 'a) proto \<Rightarrow> io \<Rightarrow> nat \<Rightarrow> u64 \<Rightarrow> ('i, 'a) crate_event list \<Rightarrow> ('i, 'a) snapshot \<Rightarrow> panic + ('i, 'a) snapshot" where
  "drain_events P io now clock evs = stream_loop P (map (\<lambda>ev. (io, now, clock, Stream_event ev)) evs)"

definition stream_exit ::
  "('i, 'a) proto \<Rightarrow> io \<Rightarrow> nat \<Rightarrow> u64 \<Rightarrow> bool \<Rightarrow> ('i, 'a) crate_event list \<Rightarrow> ('i, 'a) snapshot \<Rightarrow> panic + ('i, 'a) snapshot" where
  "stream_exit P io now clock leave_pending evs s =
     bind_res (if leave_pending then handle_leave P io now s else Inr s) (\<lambda>s.
     bind_res (update_clock P io now clock s) (\<lambda>s.
     map_res (flush_and_sync io) (drain_events P io now clock evs s)))"

section \<open>The tee in front of the task\<close>

text \<open>Each event is offered to the task and to the application; where a channel is full, it is dropped.\<close>

definition offer :: "'x \<Rightarrow> 'x chan \<Rightarrow> 'x chan" where
  "offer x ch = (case try_send x ch of Some ch' \<Rightarrow> ch' | None \<Rightarrow> ch)"

definition tee_stream_flush_event ::
  "('i, 'a) crate_event \<Rightarrow> ('i, 'a) crate_event chan \<times> ('i, 'a) crate_event chan
   \<Rightarrow> ('i, 'a) crate_event chan \<times> ('i, 'a) crate_event chan" where
  "tee_stream_flush_event ev chs = (offer ev (fst chs), offer ev (snd chs))"

end
