(* ===== verification/Snapshot_Facts.thy ===== *)
theory Snapshot_Facts
  imports Snapshot
begin

text \<open>
  The snapshot log: its records read back, a log replays to the fold of its
  records, and the task keeps the log equal to the state it holds in memory.
\<close>

section \<open>Records read back\<close>

lemma length_le_bytes [simp]: "length (le_bytes k n) = k"
  by (induction k arbitrary: n) simp_all

lemma le_nat_le_bytes: "n < 256 ^ k \<Longrightarrow> le_nat (le_bytes k n) = n"
proof (induction k arbitrary: n)
  case (Suc k)
  then have "le_nat (le_bytes k (n div 256)) = n div 256"
    by (simp add: div_less_iff_less_mult mult.commute)
  then show ?case by (simp add: unat_of_nat)
qed simp

text \<open>The nodes whose record fits the inlined array.\<close>

definition short_node :: "('i, 'a) proto \<Rightarrow> ('i, 'a) node \<Rightarrow> bool" where
  "short_node P n \<longleftrightarrow> length (enc (nodec P) n) \<le> 59"

lemma encode_node_record_eq:
  "encode_node_record P k n =
     (if short_node P n then Inr (k # le_bytes 4 (length (enc (nodec P) n)) @ enc (nodec P) n)
      else Inl Insufficient_buffer)"
proof (cases "short_node P n")
  case True
  let ?h = "k # le_bytes 4 (length (enc (nodec P) n))"
  have "take 5 (?h @ replicate 59 0) = ?h" by simp
  then show ?thesis
    using True
    by (auto simp: encode_node_record_def Let_def short_node_def max_inlined_bytes_def blit_def unat_of_nat
        take_bit_nat_eq_self take_Cons')
next
  case False
  then show ?thesis
    by (auto simp: encode_node_record_def Let_def short_node_def max_inlined_bytes_def)
qed

fun record_short :: "('i, 'a) proto \<Rightarrow> ('i, 'a) snapshot_record \<Rightarrow> bool" where
  "record_short P (Rec_Alive n) = short_node P n"
| "record_short P (Rec_NotAlive n) = short_node P n"
| "record_short P _ = True"

lemma encode_record_short: "record_short P r \<longleftrightarrow> (\<exists>b. encode_record P r = Inr b)"
  by (cases r) (simp_all add: encode_node_record_eq)

lemma read_exact_append: "length a = n \<Longrightarrow> read_exact n (a @ b) = Inr (a, b)"
  by (simp add: read_exact_def)

lemma read_node_enc:
  assumes "proto_ok P" "short_node P n"
  shows "read_node P (le_bytes 4 (length (enc (nodec P) n)) @ enc (nodec P) n @ r) = Inr (n, r)"
proof -
  have "\<exists>k. dec (nodec P) (enc (nodec P) n) = Inr (k, n)"
    using assms(1) by (simp add: proto_ok_def body_codec_def)
  then obtain k where "dec (nodec P) (enc (nodec P) n) = Inr (k, n)" ..
  then show ?thesis
    using assms(2) by (simp add: read_node_def read_exact_append le_nat_le_bytes short_node_def)
qed

lemma read_time_enc: "read_time (le_bytes 8 (unat t) @ r) = Inr (t, r)"
proof -
  have "unat t < 256 ^ 8" using unsigned_less [of t, where ?'a = nat] by simp
  then show ?thesis by (simp add: read_time_def read_exact_append le_nat_le_bytes)
qed

lemma read_record_simps:
  "read_record P 0 b = map_res (\<lambda>(n, b). (Rec_Alive n, b)) (read_node P b)"
  "read_record P 1 b = map_res (\<lambda>(n, b). (Rec_NotAlive n, b)) (read_node P b)"
  "read_record P 2 b = map_res (\<lambda>(t, b). (Rec_Clock t, b)) (read_time b)"
  "read_record P 3 b = map_res (\<lambda>(t, b). (Rec_EventClock t, b)) (read_time b)"
  "read_record P 4 b = map_res (\<lambda>(t, b). (Rec_QueryClock t, b)) (read_time b)"
  "read_record P 5 b = Inr (Rec_Coordinate, b)"
  "read_record P 6 b = Inr (Rec_Leave, b)"
  "read_record P 7 b = Inr (Rec_Comment, b)"
  by (simp_all add: read_record_def record_type_of_u8_def)

lemma read_record_enc:
  assumes "proto_ok P" "encode_record P rec = Inr b"
  shows "\<exists>k b'. b = k # b' \<and> read_record P k (b' @ r) = Inr (rec, r)"
proof (cases rec)
  case (Rec_Alive n)
  then show ?thesis
    using assms(2) read_node_enc [OF assms(1)] by (auto simp: encode_node_record_eq read_record_simps split: if_splits)
next
  case (Rec_NotAlive n)
  then show ?thesis
    using assms(2) read_node_enc [OF assms(1)] by (auto simp: encode_node_record_eq read_record_simps split: if_splits)
qed (use assms(2) in \<open>auto simp: encode_time_record_def read_record_simps read_time_enc\<close>)

section \<open>Replaying a log\<close>

lemma read_exact_extend: "read_exact n b = Inr (x, b') \<Longrightarrow> read_exact n (b @ c) = Inr (x, b' @ c)"
  by (auto simp: read_exact_def split: if_splits)

lemma read_node_extend: "read_node P b = Inr (n, b') \<Longrightarrow> read_node P (b @ c) = Inr (n, b' @ c)"
  unfolding read_node_def
  by (clarsimp simp: res_iff read_exact_extend split: sum.splits) (auto simp: read_exact_extend)

lemma read_time_extend: "read_time b = Inr (t, b') \<Longrightarrow> read_time (b @ c) = Inr (t, b' @ c)"
  unfolding read_time_def by (clarsimp simp: res_iff read_exact_extend)

lemma read_record_extend: "read_record P k b = Inr (r, b') \<Longrightarrow> read_record P k (b @ c) = Inr (r, b' @ c)"
  unfolding read_record_def
  by (clarsimp simp: res_iff split: option.splits snapshot_record_type.splits)
    (auto simp: read_node_extend read_time_extend)

lemma replay_append: "replay P rejoin b r = Inr r' \<Longrightarrow> replay P rejoin (b @ c) r = replay P rejoin c r'"
proof (induction P rejoin b r arbitrary: r' rule: replay.induct)
  case (2 P rejoin k b r)
  then obtain rec b' where rec: "read_record P k b = Inr (rec, b')"
    "replay P rejoin b' (apply_record rejoin rec r) = Inr r'"
    by (auto split: sum.splits)
  then show ?case
    using 2(1) [OF rec(1) refl rec(2)] by (simp add: read_record_extend [OF rec(1)])
qed simp

lemma replay_record:
  assumes "proto_ok P" "encode_record P rec = Inr b"
  shows "replay P rejoin (b @ c) r = replay P rejoin c (apply_record rejoin rec r)"
  using read_record_enc [OF assms, of c] by auto

lemma read_exact_short: "length b < n \<Longrightarrow> read_exact n b = Inl Snap_Replay"
  by (simp add: read_exact_def)

lemma read_node_short:
  assumes "short_node P n" "j < 4 + length (enc (nodec P) n)"
  shows "read_node P (take j (le_bytes 4 (length (enc (nodec P) n)) @ enc (nodec P) n)) = Inl Snap_Replay"
proof (cases "j < 4")
  case False
  then obtain i where j: "j = 4 + i" using le_Suc_ex not_less by blast
  have "le_nat (le_bytes 4 (length (enc (nodec P) n))) = length (enc (nodec P) n)"
    using assms(1) by (simp add: le_nat_le_bytes short_node_def)
  then show ?thesis
    using assms(2) by (simp add: read_node_def j read_exact_append read_exact_short)
qed (simp add: read_node_def read_exact_short)

text \<open>A record cut off after its first byte does not read.\<close>

lemma torn_record:
  assumes "encode_record P rec = Inr b" "0 < j" "j < length b"
  shows "replay P rejoin (take j b) r = Inl Snap_Replay"
proof -
  obtain i where j: "j = Suc i" using assms(2) gr0_implies_Suc by blast
  have time: "read_time (take i (le_bytes 8 (unat t))) = Inl Snap_Replay" if "i < 8" for t
    using that by (simp add: read_time_def read_exact_short)
  show ?thesis
    using assms(1,3)
    by (cases rec) (auto simp: j encode_node_record_eq encode_time_record_def read_record_simps time
        read_node_short [simplified] split: if_splits)
qed

lemma write_records_out:
  "write_records P rs out = (fst (write_records P rs []), out @ snd (write_records P rs []))"
proof (induction rs arbitrary: out)
  case (Cons r rs)
  show ?case
  proof (cases "encode_record P r")
    case (Inr b)
    then show ?thesis using Cons.IH [of "out @ b"] Cons.IH [of b] by simp
  qed simp
qed simp

lemma replay_write_records:
  assumes "proto_ok P"
  shows "write_records P rs [] = (Inr (), img) \<Longrightarrow>
    replay P rejoin (img @ c) r = replay P rejoin c (fold (apply_record rejoin) rs r)"
proof (induction rs arbitrary: img r)
  case (Cons rec rs)
  obtain b where b: "encode_record P rec = Inr b"
    using Cons.prems by (cases "encode_record P rec") auto
  have w: "write_records P rs b = (Inr (), img)" using Cons.prems b by simp
  then have rest: "write_records P rs [] = (Inr (), snd (write_records P rs []))"
    "img = b @ snd (write_records P rs [])"
    using write_records_out [of P rs b] by (simp_all add: prod_eq_iff)
  show ?case
    using Cons.IH [OF rest(1)] by (simp add: rest(2) replay_record [OF assms b])
qed simp

lemma write_records_ok:
  "(\<exists>img. write_records P rs out = (Inr (), img)) \<longleftrightarrow> list_all (record_short P) rs"
proof (induction rs arbitrary: out)
  case (Cons r rs)
  show ?case
    using Cons.IH encode_record_short [of P r] by (cases "encode_record P r") auto
qed simp

lemma fold_alive:
  "rr_alive_nodes (fold (apply_record rejoin) (map Rec_Alive ns) r) = fold List.insert ns (rr_alive_nodes r)"
  "rr_last_clock (fold (apply_record rejoin) (map Rec_Alive ns) r) = rr_last_clock r"
  "rr_last_event_clock (fold (apply_record rejoin) (map Rec_Alive ns) r) = rr_last_event_clock r"
  "rr_last_query_clock (fold (apply_record rejoin) (map Rec_Alive ns) r) = rr_last_query_clock r"
  by (induction ns arbitrary: r) simp_all

lemma set_fold_insert: "set (fold List.insert ns xs) = set ns \<union> set xs"
  by (induction ns arbitrary: xs) auto

text \<open>The image a compaction writes replays to what is in memory.\<close>

lemma replay_compact_records:
  assumes "proto_ok P" "write_records P (compact_records s) [] = (Inr (), img)"
  shows "\<exists>r. replay P rejoin img replay_start = Inr r \<and> set (rr_alive_nodes r) = set (sn_alive_nodes s) \<and>
    rr_last_clock r = sn_last_clock s \<and> rr_last_event_clock r = sn_last_event_clock s \<and>
    rr_last_query_clock r = sn_last_query_clock s"
  using replay_write_records [OF assms, of rejoin "[]" replay_start]
  by (simp add: compact_records_def fold_alive set_fold_insert replay_start_def)

section \<open>The log and the state in memory\<close>

text \<open>What is on disk once the buffer is written.\<close>

definition contents :: "('i, 'a) snapshot \<Rightarrow> bytes" where
  "contents s = the (sn_disk s) @ the (sn_fh s)"

definition is_open :: "('i, 'a) snapshot \<Rightarrow> bool" where
  "is_open s \<longleftrightarrow> sn_fh s \<noteq> None \<and> sn_disk s \<noteq> None"

definition has_left :: "('i, 'a) snapshot \<Rightarrow> bool" where
  "has_left s \<longleftrightarrow> sn_leaving s \<and> \<not> sn_rejoin_after_leave s"

definition agrees :: "('i, 'a) replay_result \<Rightarrow> ('i, 'a) snapshot \<Rightarrow> bool" where
  "agrees r s \<longleftrightarrow>
     set (rr_alive_nodes r) = set (sn_alive_nodes s) \<and>
     (has_left s \<or> rr_last_clock r = sn_last_clock s \<and> rr_last_event_clock r = sn_last_event_clock s \<and>
        rr_last_query_clock r = sn_last_query_clock s) \<and>
     (has_left s \<longrightarrow> sn_alive_nodes s = [])"

definition snap_inv :: "('i, 'a) proto \<Rightarrow> ('i, 'a) snapshot \<Rightarrow> bool" where
  "snap_inv P s \<longleftrightarrow> is_open s \<and> sn_offset s = length (contents s) \<and>
     list_all (short_node P) (sn_alive_nodes s) \<and>
     (\<exists>r. replay P (sn_rejoin_after_leave s) (contents s) replay_start = Inr r \<and> agrees r s)"

text \<open>The part of the state that appending does not touch.\<close>

definition memory ::
  "('i, 'a) snapshot \<Rightarrow> ('i, 'a) node list \<times> lamport_time \<times> lamport_time \<times> lamport_time \<times> bool \<times> bool" where
  "memory s = (sn_alive_nodes s, sn_last_clock s, sn_last_event_clock s, sn_last_query_clock s, sn_leaving s,
     sn_rejoin_after_leave s)"

lemma memory_agrees: "memory s = memory t \<Longrightarrow> agrees r s \<longleftrightarrow> agrees r t"
  by (auto simp: memory_def agrees_def has_left_def)

lemma flush_buf_contents: "flush_buf fault f = (ok, d, b) \<Longrightarrow> d @ b = fst f @ snd f"
  by (auto simp: flush_buf_def split: option.splits)

lemma write_all_contents:
  assumes "length data < buf_capacity" "write_all fault data f = (ok, d, b)"
  shows "d @ b = fst f @ snd f @ (if ok then data else [])"
  using assms flush_buf_contents [of fault f]
  by (auto simp: write_all_def Let_def split: if_splits prod.splits option.splits)

lemma write_all_ok: "write_all None data f = (ok, g) \<Longrightarrow> ok"
  by (auto simp: write_all_def flush_buf_def Let_def split: if_splits)

lemma flush_buf_ok [simp]: "flush_buf None f = (True, fst f @ snd f, [])"
  by (simp add: flush_buf_def)

lemma encode_record_length: "encode_record P r = Inr b \<Longrightarrow> length b \<le> 64 \<and> b \<noteq> []"
  by (cases r) (auto simp: encode_node_record_eq encode_time_record_def short_node_def split: if_splits)

lemma compact_ok:
  assumes "proto_ok P" "is_open s" "list_all (short_node P) (sn_alive_nodes s)"
    and left: "has_left s \<longrightarrow> sn_alive_nodes s = []"
  shows "\<exists>t. compact P no_fault now s = Inr (Inr (), t) \<and> snap_inv P t \<and> memory t = memory s"
proof -
  have "list_all (record_short P) (compact_records s)"
    using assms(3) by (auto simp: compact_records_def list_all_iff)
  then obtain img where img: "write_records P (compact_records s) [] = (Inr (), img)"
    using write_records_ok [of P "compact_records s" "[]"] by blast
  obtain old disk where "sn_fh s = Some old" "sn_disk s = Some disk"
    using assms(2) by (auto simp: is_open_def)
  then show ?thesis
    using img replay_compact_records [OF assms(1) img, of "sn_rejoin_after_leave s"] assms(3) left
    by (auto simp: compact_def Let_def snap_inv_def is_open_def contents_def memory_def agrees_def has_left_def)
qed

lemma append_line_ok:
  assumes P: "proto_ok P" and opn: "is_open s" and off: "sn_offset s = length (contents s)"
    and short: "list_all (short_node P) (sn_alive_nodes s)" "record_short P l"
    and r: "replay P (sn_rejoin_after_leave s) (contents s) replay_start = Inr r"
    and agr: "agrees (apply_record (sn_rejoin_after_leave s) l r) s"
  shows "\<exists>t. append_line P no_fault now l s = Inr (Inr (), t) \<and> snap_inv P t \<and> memory t = memory s"
proof -
  obtain old disk where fd: "sn_fh s = Some old" "sn_disk s = Some disk"
    using opn by (auto simp: is_open_def)
  obtain b where b: "encode_record P l = Inr b" using short(2) encode_record_short by blast
  obtain ok d bf where w0: "write_all None b (disk, old) = (ok, d, bf)"
    by (metis surj_pair)
  then have w: "write_all None b (disk, old) = (True, d, bf)"
    using write_all_ok [OF w0] by simp
  have db: "d @ bf = disk @ old @ b"
    using write_all_contents [OF _ w] encode_record_length [OF b] by (simp add: buf_capacity_def)
  define u where "u = (if flush_interval < now - sn_last_flush s then set_file (d @ bf, []) (s\<lparr>sn_last_flush := now\<rparr>)
    else set_file (d, bf) s)\<lparr>sn_offset := sn_offset s + length b\<rparr>"
  have app: "append_line P no_fault now l s =
      (if snapshot_max_size u < sn_offset u then compact P no_fault now u else Inr (Inr (), u))"
    using fd b w by (simp add: append_line_def Let_def u_def set_file_def)
  have mem: "memory u = memory s" and con: "contents u = contents s @ b" and op: "is_open u"
    using fd db by (simp_all add: u_def memory_def contents_def set_file_def is_open_def)
  have off_u: "sn_offset u = length (contents u)"
    using off by (simp add: con) (simp add: u_def set_file_def)
  have short_u: "list_all (short_node P) (sn_alive_nodes u)"
    using short(1) mem by (simp add: memory_def)
  have "replay P (sn_rejoin_after_leave u) (contents u) replay_start =
      Inr (apply_record (sn_rejoin_after_leave s) l r)"
    using mem replay_append [OF r] replay_record [OF P b, of "sn_rejoin_after_leave s" "[]"]
    by (simp add: con memory_def)
  then have inv: "snap_inv P u"
    using op off_u short_u agr memory_agrees [OF mem] by (auto simp: snap_inv_def)
  have "has_left u \<longrightarrow> sn_alive_nodes u = []"
    using agr memory_agrees [OF mem] by (auto simp: agrees_def)
  from compact_ok [OF P op short_u this] inv mem app show ?thesis by auto
qed

text \<open>Bringing the log up to date with a change in memory.\<close>

lemma try_append_ok:
  assumes "proto_ok P" "snap_inv P s" "record_short P l"
    and "sn_fh u = sn_fh s" "sn_disk u = sn_disk s" "sn_offset u = sn_offset s"
      "sn_rejoin_after_leave u = sn_rejoin_after_leave s" "list_all (short_node P) (sn_alive_nodes u)"
    and agr: "\<And>r. agrees r s \<Longrightarrow> agrees (apply_record (sn_rejoin_after_leave s) l r) u"
  shows "\<exists>t. try_append P no_fault now l u = Inr t \<and> snap_inv P t \<and> memory t = memory u"
proof -
  obtain r where r: "replay P (sn_rejoin_after_leave s) (contents s) replay_start = Inr r" "agrees r s"
    using assms(2) by (auto simp: snap_inv_def)
  have "contents u = contents s" "is_open u" "sn_offset u = length (contents u)"
    using assms(2,4-6) by (auto simp: contents_def is_open_def snap_inv_def)
  then obtain t where "append_line P no_fault now l u = Inr (Inr (), t)" "snap_inv P t" "memory t = memory u"
    using append_line_ok [OF assms(1), of u l r] r agr [OF r(2)] assms(3,7,8) by auto
  then show ?thesis by (simp add: try_append_def)
qed

section \<open>The operations of the task\<close>

lemma snap_inv_left: "snap_inv P s \<Longrightarrow> has_left s \<Longrightarrow> sn_alive_nodes s = []"
  by (auto simp: snap_inv_def agrees_def)

lemma update_clock_ok:
  assumes "proto_ok P" "snap_inv P s"
  shows "\<exists>t. update_clock P no_fault now clock s = Inr t \<and> snap_inv P t \<and>
    (\<exists>c. sn_last_clock s \<le> c \<and> memory t = memory (s\<lparr>sn_last_clock := c\<rparr>))"
proof (cases "sn_last_clock s < (if clock = 0 then 0 else clock - 1)")
  case True
  let ?c = "if clock = 0 then 0 else clock - 1"
  have "\<exists>t. try_append P no_fault now (Rec_Clock ?c) (s\<lparr>sn_last_clock := ?c\<rparr>) = Inr t \<and> snap_inv P t \<and>
      memory t = memory (s\<lparr>sn_last_clock := ?c\<rparr>)"
    by (rule try_append_ok [OF assms]) (use assms(2) in \<open>auto simp: snap_inv_def agrees_def has_left_def\<close>)
  then show ?thesis
    using True by (auto simp: update_clock_def Let_def clock_time_def intro!: less_imp_le)
next
  case False
  then show ?thesis
    using assms(2) by (auto simp: update_clock_def Let_def clock_time_def intro!: exI [of _ "sn_last_clock s"])
qed

lemma process_user_event_ok:
  assumes "proto_ok P" "snap_inv P s"
  shows "\<exists>t. process_user_event P no_fault now e s = Inr t \<and> snap_inv P t \<and>
    memory t = memory (s\<lparr>sn_last_event_clock := max (sn_last_event_clock s) (ue_ltime e)\<rparr>)"
proof (cases "ue_ltime e \<le> sn_last_event_clock s")
  case False
  let ?u = "s\<lparr>sn_last_event_clock := ue_ltime e\<rparr>"
  have "\<exists>t. try_append P no_fault now (Rec_EventClock (ue_ltime e)) ?u = Inr t \<and> snap_inv P t \<and> memory t = memory ?u"
    by (rule try_append_ok [OF assms]) (use assms(2) in \<open>auto simp: snap_inv_def agrees_def has_left_def\<close>)
  then show ?thesis
    using False by (simp add: process_user_event_def Let_def max.absorb2)
qed (use assms(2) in \<open>auto simp: process_user_event_def max_def\<close>)

lemma process_query_event_ok:
  assumes "proto_ok P" "snap_inv P s"
  shows "\<exists>t. process_query_event P no_fault now lt s = Inr t \<and> snap_inv P t \<and>
    memory t = memory (s\<lparr>sn_last_query_clock := max (sn_last_query_clock s) lt\<rparr>)"
proof (cases "lt \<le> sn_last_query_clock s")
  case False
  let ?u = "s\<lparr>sn_last_query_clock := lt\<rparr>"
  have "\<exists>t. try_append P no_fault now (Rec_QueryClock lt) ?u = Inr t \<and> snap_inv P t \<and> memory t = memory ?u"
    by (rule try_append_ok [OF assms]) (use assms(2) in \<open>auto simp: snap_inv_def agrees_def has_left_def\<close>)
  then show ?thesis
    using False by (simp add: process_query_event_def Let_def max.absorb2)
qed (use assms(2) in \<open>auto simp: process_query_event_def max_def\<close>)

text \<open>Member events are only recorded before a leave.\<close>

lemma process_joins_ok:
  assumes "proto_ok P"
  shows "snap_inv P s \<Longrightarrow> \<not> sn_leaving s \<Longrightarrow> list_all (short_node P) ns \<Longrightarrow>
    \<exists>t. process_joins P no_fault now ns s = Inr t \<and> snap_inv P t \<and>
      memory t = memory (s\<lparr>sn_alive_nodes := fold List.insert ns (sn_alive_nodes s)\<rparr>)"
proof (induction ns arbitrary: s)
  case (Cons n ns)
  let ?u = "s\<lparr>sn_alive_nodes := List.insert n (sn_alive_nodes s)\<rparr>"
  have "\<exists>t. try_append P no_fault now (Rec_Alive n) ?u = Inr t \<and> snap_inv P t \<and> memory t = memory ?u"
    by (rule try_append_ok [OF assms Cons.prems(1)])
      (use Cons.prems in \<open>auto simp: snap_inv_def agrees_def has_left_def list_all_iff\<close>)
  then obtain t where t: "try_append P no_fault now (Rec_Alive n) ?u = Inr t" "snap_inv P t" "memory t = memory ?u"
    by blast
  then have "\<not> sn_leaving t" using Cons.prems(2) by (simp add: memory_def)
  from Cons.IH [OF t(2) this] Cons.prems(3) t show ?case by (auto simp: memory_def)
qed simp

lemma process_departures_ok:
  assumes "proto_ok P"
  shows "snap_inv P s \<Longrightarrow> \<not> sn_leaving s \<Longrightarrow> list_all (short_node P) ns \<Longrightarrow>
    \<exists>t. process_departures P no_fault now ns s = Inr t \<and> snap_inv P t \<and>
      memory t = memory (s\<lparr>sn_alive_nodes := fold removeAll ns (sn_alive_nodes s)\<rparr>)"
proof (induction ns arbitrary: s)
  case (Cons n ns)
  let ?u = "s\<lparr>sn_alive_nodes := removeAll n (sn_alive_nodes s)\<rparr>"
  have "\<exists>t. try_append P no_fault now (Rec_NotAlive n) ?u = Inr t \<and> snap_inv P t \<and> memory t = memory ?u"
    by (rule try_append_ok [OF assms Cons.prems(1)])
      (use Cons.prems in \<open>auto simp: snap_inv_def agrees_def has_left_def list_all_iff\<close>)
  then obtain t where t: "try_append P no_fault now (Rec_NotAlive n) ?u = Inr t" "snap_inv P t" "memory t = memory ?u"
    by blast
  then have "\<not> sn_leaving t" using Cons.prems(2) by (simp add: memory_def)
  from Cons.IH [OF t(2) this] Cons.prems(3) t show ?case by (auto simp: memory_def)
qed simp

text \<open>What an event does to the set of live nodes.\<close>

fun live_after :: "('i, 'a) crate_event \<Rightarrow> ('i, 'a) node set \<Rightarrow> ('i, 'a) node set" where
  "live_after (Ev_Member e) A =
     (case me_ty e of
        EvJoin \<Rightarrow> A \<union> m_node ` set (me_members e)
      | EvLeave \<Rightarrow> A - m_node ` set (me_members e)
      | EvFailed \<Rightarrow> A - m_node ` set (me_members e)
      | _ \<Rightarrow> A)"
| "live_after _ A = A"

fun short_event :: "('i, 'a) proto \<Rightarrow> ('i, 'a) crate_event \<Rightarrow> bool" where
  "short_event P (Ev_Member e) \<longleftrightarrow> list_all (\<lambda>m. short_node P (m_node m)) (me_members e)"
| "short_event P _ \<longleftrightarrow> True"

fun event_time :: "('i, 'a) crate_event \<Rightarrow> lamport_time" where
  "event_time (Ev_User e) = ue_ltime e"
| "event_time _ = 0"

fun query_time :: "('i, 'a) crate_event \<Rightarrow> lamport_time" where
  "query_time (Ev_Query e) = qe_ltime e"
| "query_time (Ev_InternalQuery k e) = qe_ltime e"
| "query_time _ = 0"

text \<open>The state after a step, with the clock saved so far left open.\<close>

definition moved ::
  "('i, 'a) node set \<Rightarrow> lamport_time \<Rightarrow> lamport_time \<Rightarrow> ('i, 'a) snapshot \<Rightarrow> ('i, 'a) snapshot \<Rightarrow> bool" where
  "moved A et qt s t \<longleftrightarrow>
     set (sn_alive_nodes t) = A \<and> sn_last_clock s \<le> sn_last_clock t \<and>
     sn_last_event_clock t = max (sn_last_event_clock s) et \<and>
     sn_last_query_clock t = max (sn_last_query_clock s) qt \<and>
     sn_leaving t = sn_leaving s \<and> sn_rejoin_after_leave t = sn_rejoin_after_leave s"

lemma max_zero [simp]: "max t (0 :: u64) = t"
  by (simp add: max_def word_le_0_iff)

lemma set_fold_removeAll: "set (fold removeAll ns xs) = set xs - set ns"
  by (induction ns arbitrary: xs) auto

lemma process_member_event_ok:
  assumes "proto_ok P" "snap_inv P s" "\<not> sn_leaving s" "short_event P (Ev_Member e)"
  shows "\<exists>t. process_member_event P no_fault now clock e s = Inr t \<and> snap_inv P t \<and>
    moved (live_after (Ev_Member e) (set (sn_alive_nodes s))) 0 0 s t"
proof -
  let ?ns = "map m_node (me_members e)"
  have ns: "list_all (short_node P) ?ns" using assms(4) by (simp add: list_all_iff)
  let ?step = "case me_ty e of EvJoin \<Rightarrow> process_joins P no_fault now ?ns s
      | EvLeave \<Rightarrow> process_departures P no_fault now ?ns s
      | EvFailed \<Rightarrow> process_departures P no_fault now ?ns s | _ \<Rightarrow> Inr s"
  have "\<exists>u. ?step = Inr u \<and> snap_inv P u \<and>
      snd (memory u) = snd (memory s) \<and> set (sn_alive_nodes u) = live_after (Ev_Member e) (set (sn_alive_nodes s))"
  proof (cases "me_ty e")
    case EvJoin
    then show ?thesis
      using process_joins_ok [OF assms(1-3) ns, of now] by (auto simp: memory_def set_fold_insert)
  next
    case EvLeave
    then show ?thesis
      using process_departures_ok [OF assms(1-3) ns, of now] by (auto simp: memory_def set_fold_removeAll)
  next
    case EvFailed
    then show ?thesis
      using process_departures_ok [OF assms(1-3) ns, of now] by (auto simp: memory_def set_fold_removeAll)
  qed (use assms(2) in \<open>auto simp: memory_def\<close>)
  then obtain u where u: "?step = Inr u" "snap_inv P u" "snd (memory u) = snd (memory s)"
    "set (sn_alive_nodes u) = live_after (Ev_Member e) (set (sn_alive_nodes s))" by blast
  from update_clock_ok [OF assms(1) u(2), of now clock] u show ?thesis
    by (auto simp: process_member_event_def Let_def moved_def memory_def)
qed

lemma stream_flush_event_ok:
  assumes "proto_ok P" "snap_inv P s" "\<not> sn_leaving s" "short_event P ev"
  shows "\<exists>t. stream_flush_event P no_fault now clock ev s = Inr (True, t) \<and> snap_inv P t \<and>
    moved (live_after ev (set (sn_alive_nodes s))) (event_time ev) (query_time ev) s t"
proof (cases ev)
  case (Ev_Member e)
  then show ?thesis
    using process_member_event_ok [OF assms(1-3), of e now clock] assms(3,4)
    by (auto simp: stream_flush_event_def)
next
  case (Ev_User e)
  then show ?thesis
    using process_user_event_ok [OF assms(1,2), of now e] assms(3)
    by (auto simp: stream_flush_event_def moved_def memory_def)
next
  case (Ev_Query e)
  then show ?thesis
    using process_query_event_ok [OF assms(1,2), of now "qe_ltime e"] assms(3)
    by (auto simp: stream_flush_event_def moved_def memory_def)
next
  case (Ev_InternalQuery k e)
  then show ?thesis
    using process_query_event_ok [OF assms(1,2), of now "qe_ltime e"] assms(3)
    by (auto simp: stream_flush_event_def moved_def memory_def)
qed

lemma flush_and_sync_ok: "snap_inv P s \<Longrightarrow> snap_inv P (flush_and_sync io s) \<and> memory (flush_and_sync io s) = memory s"
proof -
  assume inv: "snap_inv P s"
  then obtain buf disk where fd: "sn_fh s = Some buf" "sn_disk s = Some disk"
    by (auto simp: snap_inv_def is_open_def)
  obtain ok d b where f: "flush_buf (io Io_flush) (disk, buf) = (ok, d, b)" by (metis surj_pair)
  have "d @ b = disk @ buf" using flush_buf_contents [OF f] by simp
  then show ?thesis
    using inv fd f
    by (auto simp: flush_and_sync_def set_file_def snap_inv_def contents_def is_open_def memory_def agrees_def has_left_def)
qed

lemma handle_leave_ok:
  assumes "proto_ok P" "snap_inv P s"
  shows "\<exists>t. handle_leave P no_fault now s = Inr t \<and> snap_inv P t \<and>
    memory t = memory (s\<lparr>sn_leaving := True,
      sn_alive_nodes := (if sn_rejoin_after_leave s then sn_alive_nodes s else [])\<rparr>)"
proof -
  let ?u = "s\<lparr>sn_leaving := True, sn_alive_nodes := (if sn_rejoin_after_leave s then sn_alive_nodes s else [])\<rparr>"
  have "\<exists>t. try_append P no_fault now Rec_Leave ?u = Inr t \<and> snap_inv P t \<and> memory t = memory ?u"
    by (rule try_append_ok [OF assms]) (use assms(2) in \<open>auto simp: snap_inv_def agrees_def has_left_def\<close>)
  moreover have "handle_leave P no_fault now s = map_res (flush_and_sync no_fault) (try_append P no_fault now Rec_Leave ?u)"
    by (cases "sn_rejoin_after_leave s") (simp_all add: handle_leave_def Let_def)
  ultimately show ?thesis
    using flush_and_sync_ok [of P _ no_fault] by auto
qed

section \<open>The loop\<close>

fun short_input :: "('i, 'a) proto \<Rightarrow> ('i, 'a) timed_input \<Rightarrow> bool" where
  "short_input P (io, now, clock, Stream_event ev) \<longleftrightarrow> io = no_fault \<and> short_event P ev"
| "short_input P (io, now, clock, i) \<longleftrightarrow> io = no_fault"

fun is_recorded :: "('i, 'a) timed_input \<Rightarrow> bool" where
  "is_recorded (io, now, clock, Stream_event ev) \<longleftrightarrow> True"
| "is_recorded (io, now, clock, Clock_tick) \<longleftrightarrow> True"
| "is_recorded _ \<longleftrightarrow> False"

fun input_events :: "('i, 'a) timed_input list \<Rightarrow> ('i, 'a) crate_event list" where
  "input_events [] = []"
| "input_events ((io, now, clock, Stream_event ev) # is) = ev # input_events is"
| "input_events (_ # is) = input_events is"

lemma stream_turn_recorded:
  assumes "proto_ok P" "snap_inv P s" "\<not> sn_leaving s" "short_input P (io, now, clock, i)"
    "is_recorded (io, now, clock, i)"
  shows "\<exists>t. stream_turn P io now clock i s = Inr (True, t) \<and> snap_inv P t \<and>
    moved (case i of Stream_event ev \<Rightarrow> live_after ev (set (sn_alive_nodes s)) | _ \<Rightarrow> set (sn_alive_nodes s))
      (case i of Stream_event ev \<Rightarrow> event_time ev | _ \<Rightarrow> 0)
      (case i of Stream_event ev \<Rightarrow> query_time ev | _ \<Rightarrow> 0) s t"
proof (cases i)
  case (Stream_event ev)
  then show ?thesis
    using stream_flush_event_ok [OF assms(1-3), of ev now clock] assms(4) by auto
next
  case Clock_tick
  then show ?thesis
    using update_clock_ok [OF assms(1,2), of now clock] assms(4) by (auto simp: moved_def memory_def)
qed (use assms(5) in simp_all)

lemma fold_max: "fold max ts (max a b) = max a (fold max ts b)" for a b :: u64
proof (induction ts arbitrary: b)
  case (Cons t ts)
  then show ?case using max.left_commute [of t a b] by simp
qed simp

lemma fold_max_zero: "fold max ts t = max t (fold max ts 0)" for t :: u64
  using fold_max [of ts t 0] by simp

lemma stream_loop_recorded:
  assumes "proto_ok P"
  shows "snap_inv P s \<Longrightarrow> \<not> sn_leaving s \<Longrightarrow> list_all (short_input P) is \<Longrightarrow> list_all is_recorded is \<Longrightarrow>
    \<exists>t. stream_loop P is s = Inr t \<and> snap_inv P t \<and>
      moved (fold live_after (input_events is) (set (sn_alive_nodes s)))
        (fold max (map event_time (input_events is)) 0) (fold max (map query_time (input_events is)) 0) s t"
proof (induction "is" arbitrary: s)
  case Nil
  then show ?case by (simp add: moved_def)
next
  case (Cons x "is")
  obtain io now clock i where x: "x = (io, now, clock, i)" by (cases x) auto
  obtain t where t: "stream_turn P io now clock i s = Inr (True, t)" "snap_inv P t"
    and mv: "moved (case i of Stream_event ev \<Rightarrow> live_after ev (set (sn_alive_nodes s)) | _ \<Rightarrow> set (sn_alive_nodes s))
      (case i of Stream_event ev \<Rightarrow> event_time ev | _ \<Rightarrow> 0)
      (case i of Stream_event ev \<Rightarrow> query_time ev | _ \<Rightarrow> 0) s t"
    using stream_turn_recorded [OF assms Cons.prems(1,2)] Cons.prems(3,4) unfolding x by fastforce
  have "\<not> sn_leaving t" using mv Cons.prems(2) by (simp add: moved_def)
  from Cons.IH [OF t(2) this] Cons.prems(3,4) obtain u where u: "stream_loop P is t = Inr u" "snap_inv P u"
    "moved (fold live_after (input_events is) (set (sn_alive_nodes t)))
        (fold max (map event_time (input_events is)) 0) (fold max (map query_time (input_events is)) 0) t u"
    by auto
  have "stream_loop P (x # is) s = Inr u" using t(1) u(1) by (simp add: x)
  moreover have "moved (fold live_after (input_events (x # is)) (set (sn_alive_nodes s)))
      (fold max (map event_time (input_events (x # is))) 0) (fold max (map query_time (input_events (x # is))) 0) s u"
  proof (cases i)
    case (Stream_event ev)
    then show ?thesis
      using mv u(3) fold_max_zero [of "map event_time (input_events is)" "event_time ev"]
        fold_max_zero [of "map query_time (input_events is)" "query_time ev"]
      by (auto simp: x moved_def max.assoc max.commute [of 0] intro: order_trans)
  next
    case Clock_tick
    then show ?thesis using mv u(3) by (auto simp: x moved_def intro: order_trans)
  qed (use Cons.prems(4) x in simp_all)
  ultimately show ?case using u(2) by blast
qed

lemma stream_turn_ok:
  assumes "proto_ok P" "snap_inv P s" "short_input P (io, now, clock, i)"
  shows "\<exists>go t. stream_turn P io now clock i s = Inr (go, t) \<and> snap_inv P t \<and>
    sn_rejoin_after_leave t = sn_rejoin_after_leave s \<and> (sn_leaving s \<longrightarrow> sn_leaving t)"
proof (cases i)
  case Leave_signal
  then show ?thesis
    using handle_leave_ok [OF assms(1,2), of now] assms(3) by (auto simp: memory_def)
next
  case (Stream_event ev)
  then show ?thesis
    using stream_flush_event_ok [OF assms(1,2) _, of ev now clock] assms(2,3)
    by (cases "sn_leaving s") (auto simp: stream_flush_event_def moved_def)
next
  case Clock_tick
  then show ?thesis
    using update_clock_ok [OF assms(1,2), of now clock] assms(3) by (auto simp: memory_def)
qed (use assms(2) in auto)

lemma stream_loop_ok:
  assumes "proto_ok P"
  shows "snap_inv P s \<Longrightarrow> list_all (short_input P) is \<Longrightarrow>
    \<exists>t. stream_loop P is s = Inr t \<and> snap_inv P t \<and>
      sn_rejoin_after_leave t = sn_rejoin_after_leave s \<and> (sn_leaving s \<longrightarrow> sn_leaving t)"
proof (induction "is" arbitrary: s)
  case (Cons x "is")
  obtain io now clock i where x: "x = (io, now, clock, i)" by (cases x) auto
  obtain go t where t: "stream_turn P io now clock i s = Inr (go, t)" "snap_inv P t"
    "sn_rejoin_after_leave t = sn_rejoin_after_leave s" "sn_leaving s \<longrightarrow> sn_leaving t"
    using stream_turn_ok [OF assms Cons.prems(1), of io now clock i] Cons.prems(2) by (auto simp: x)
  show ?case
  proof (cases go)
    case True
    from Cons.IH [OF t(2)] Cons.prems(2) obtain u where "stream_loop P is t = Inr u" "snap_inv P u"
      "sn_rejoin_after_leave u = sn_rejoin_after_leave t" "sn_leaving t \<longrightarrow> sn_leaving u" by auto
    then show ?thesis using t True by (intro exI [of _ u]) (simp add: x)
  next
    case False
    then show ?thesis using t by (intro exI [of _ t]) (simp add: x)
  qed
qed simp

lemma stream_exit_ok:
  assumes "proto_ok P" "snap_inv P s" "list_all (short_event P) evs"
  shows "\<exists>t. stream_exit P no_fault now clock leave_pending evs s = Inr t \<and> snap_inv P t \<and>
    sn_rejoin_after_leave t = sn_rejoin_after_leave s \<and> (sn_leaving s \<or> leave_pending \<longrightarrow> sn_leaving t)"
proof -
  obtain u where u: "(if leave_pending then handle_leave P no_fault now s else Inr s) = Inr u" "snap_inv P u"
    "sn_rejoin_after_leave u = sn_rejoin_after_leave s" "sn_leaving s \<or> leave_pending \<longrightarrow> sn_leaving u"
    using handle_leave_ok [OF assms(1,2), of now] assms(2) by (cases leave_pending) (auto simp: memory_def)
  obtain v where v: "update_clock P no_fault now clock u = Inr v" "snap_inv P v"
    "sn_rejoin_after_leave v = sn_rejoin_after_leave u" "sn_leaving v = sn_leaving u"
    using update_clock_ok [OF assms(1) u(2), of now clock] by (auto simp: memory_def)
  have "list_all (short_input P) (map (\<lambda>ev. (no_fault, now, clock, Stream_event ev)) evs)"
    using assms(3) by (simp add: list_all_iff)
  from stream_loop_ok [OF assms(1) v(2) this] obtain w where w: "drain_events P no_fault now clock evs v = Inr w"
    "snap_inv P w" "sn_rejoin_after_leave w = sn_rejoin_after_leave v" "sn_leaving v \<longrightarrow> sn_leaving w"
    by (auto simp: drain_events_def)
  show ?thesis
    using u v w flush_and_sync_ok [OF w(2), of no_fault] by (auto simp: stream_exit_def memory_def)
qed

section \<open>The tee\<close>

lemma tee_delivers:
  "\<not> ch_closed out \<Longrightarrow>
   ch_queue (snd (tee_stream_flush_event ev (stream, out))) =
     (if length (ch_queue out) < ch_cap out then ch_queue out @ [ev] else ch_queue out)"
  by (simp add: tee_stream_flush_event_def offer_def try_send_def)

end
