(* ===== verification/Snapshot_Theorems.thy ===== *)
theory Snapshot_Theorems
  imports Snapshot_Facts User_Events Query_Ring Serf_Sample
begin

text \<open>
  The properties of the snapshot: what a restart recovers, what a leave erases,
  and what happens to a log that is cut off, to nodes with long encodings, and
  after a compaction that failed half way.
\<close>

section \<open>Recovery\<close>










text \<open>
  C24. Nothing is delivered again after a restart. A node started from the clocks
  that a snapshot recovers drops every user event and every query at or below
  them, hence all that the snapshot has recorded.
\<close>

theorem restart_drops_recorded:
  assumes "serf_new P mm opts node (Some (rr_last_clock r, rr_last_event_clock r, rr_last_query_clock r)) = Inr s"
    and "rr_last_event_clock r < - 1" "rr_last_query_clock r < - 1"
    and "ec_min_time (sf_event_core v) = ec_min_time (sf_event_core s)"
    and "qco_min_time (sf_query_core v) = qco_min_time (sf_query_core s)"
  shows "(ue_ltime e \<le> rr_last_event_clock r \<longrightarrow>
      handle_user_event e v = Inr (False, v\<lparr>sf_event_clock := clock_witness (ue_ltime e) (sf_event_clock v)\<rparr>)) \<and>
    (lt \<le> rr_last_query_clock r \<longrightarrow>
      record_query lt i v = Inr (False, v\<lparr>sf_query_clock := clock_witness lt (sf_query_clock v)\<rparr>)) \<and>
    (rr_last_clock r < - 1 \<longrightarrow> rr_last_clock r < sf_clock s)"
proof -
  have new: "ec_min_time (sf_event_core s) = rr_last_event_clock r + 1"
    "qco_min_time (sf_query_core s) = rr_last_query_clock r + 1"
    "sf_clock s = restore_clock (rr_last_clock r)"
    using assms(1) by (auto simp: serf_new_def Let_def min_time_of_def saved_time_def split: if_splits)
  have "ue_ltime e < ec_min_time (sf_event_core v)" if "ue_ltime e \<le> rr_last_event_clock r"
    using that word_less_Suc_max [OF assms(2)] by (simp add: assms(4) new)
  moreover have "lt < qco_min_time (sf_query_core v)" if "lt \<le> rr_last_query_clock r"
    using that word_less_Suc_max [OF assms(3)] by (simp add: assms(5) new)
  moreover have "rr_last_clock r < - 1 \<longrightarrow> rr_last_clock r < sf_clock s"
    by (simp add: new restore_clock_def clock_witness_gt)
  ultimately show ?thesis
    by (auto simp: handle_user_event_def record_query_def Let_def)
qed

theorem restart_drops_recorded_witness:
  "\<exists>s. serf_new sample_proto 512 sample_options (sample_node 1) (Some (2, 3, 4)) = Inr s \<and>
     handle_user_event \<lparr>ue_ltime = 3, ue_name = ''deploy'', ue_payload = [7], ue_cc = False\<rparr> s =
       Inr (False, s\<lparr>sf_event_clock := clock_witness 3 (sf_event_clock s)\<rparr>) \<and> 2 < sf_clock s"
proof -
  let ?r = "\<lparr>rr_alive_nodes = [], rr_last_clock = 2, rr_last_event_clock = 3, rr_last_query_clock = 4\<rparr>
    :: (u8, u8) replay_result"
  obtain s where s: "serf_new sample_proto 512 sample_options (sample_node 1)
      (Some (rr_last_clock ?r, rr_last_event_clock ?r, rr_last_query_clock ?r)) = Inr s"
    by (simp add: serf_new_def Let_def sample_options_def user_event_size_limit_def)
  have lt: "rr_last_event_clock ?r < - 1" "rr_last_query_clock ?r < - 1" "rr_last_clock ?r < - 1"
    by (simp_all only: replay_result.select_convs) code_simp+
  show ?thesis
    using restart_drops_recorded [OF s lt(1,2) refl refl,
        of "\<lparr>ue_ltime = 3, ue_name = ''deploy'', ue_payload = [7], ue_cc = False\<rparr>"] s lt(3)
    by simp
qed


definition sample_snapshot :: "bool \<Rightarrow> (u8, u8) snapshot" where
  "sample_snapshot rejoin = from_replay_result 0 100 rejoin None (replay_start, 0)"



section \<open>Failures\<close>

text \<open>
  C25. A log that was cut off inside its last record, as a crash during a write
  leaves it, is refused as a whole: opening it fails, so that the node does not
  start, although every record before the last is intact.
\<close>

theorem torn_log_refused:
  assumes "proto_ok P" "write_records P rs [] = (Inr (), log)" "encode_record P rec = Inr b" "0 < j" "j < length b"
  shows "open_and_replay_snapshot P rejoin (Some log) = Inr (fold (apply_record rejoin) rs replay_start, length log) \<and>
    open_and_replay_snapshot P rejoin (Some (log @ take j b)) = Inl Snap_Replay"
proof -
  note log = replay_write_records [OF assms(1,2), of rejoin _ replay_start]
  show ?thesis
    using log [of "[]"] log [of "take j b"] torn_record [OF assms(3-5)]
    by (simp add: open_and_replay_snapshot_def)
qed

theorem torn_log_refused_witness:
  "open_and_replay_snapshot sample_proto True (Some [7]) = Inr (replay_start, 1) \<and>
   open_and_replay_snapshot sample_proto True (Some [7, 2, 5, 0]) = Inl Snap_Replay"
proof -
  have rs: "write_records sample_proto [Rec_Comment] [] = (Inr (), [7])" by simp
  have b: "encode_record sample_proto (Rec_Clock 5) = Inr [2, 5, 0, 0, 0, 0, 0, 0, 0]"
    unfolding encode_record.simps by code_simp
  show ?thesis
    using torn_log_refused [OF sample_proto_ok rs b, of 3 True] by (simp add: numeral_3_eq_3)
qed

text \<open>
  C26. A compaction that fails after the old file was given up leaves the task
  without a file: the next record it is to write makes it panic. When it is the
  renaming that fails, nothing is left under the path of the snapshot, and a
  restart recovers nothing, although the new file is complete.
\<close>

theorem failed_compaction_panics:
  assumes "compact P io now s = Inr (Inl e, t)" "e = Snap_Remove \<or> e = Snap_Install \<or> e = Snap_Open"
  shows "try_append P io' now' l t = Inl Unwrap_none \<and>
    (e = Snap_Install \<longrightarrow> sn_disk t = None \<and>
       (\<exists>img. sn_tmp t = Some img \<and> write_records P (compact_records s) [] = (Inr (), img)))"
proof -
  have "sn_fh t = None \<and> (e = Snap_Install \<longrightarrow> sn_disk t = None \<and>
      (\<exists>img. sn_tmp t = Some img \<and> write_records P (compact_records s) [] = (Inr (), img)))"
    using assms by (auto simp: compact_def Let_def split: if_splits prod.splits sum.splits option.splits)
  then show ?thesis by (simp add: try_append_def append_line_def)
qed

theorem failed_compaction_panics_witness:
  "\<exists>t. compact sample_proto (\<lambda>p. if p = Io_rename then Some 0 else None) 5 (sample_snapshot True) =
      Inr (Inl Snap_Install, t) \<and>
    try_append sample_proto no_fault 6 (Rec_Clock 9) t = Inl Unwrap_none \<and> sn_disk t = None"
proof -
  let ?io = "\<lambda>p. if p = Io_rename then Some 0 else None"
  obtain t where t: "compact sample_proto ?io 5 (sample_snapshot True) = Inr (Inl Snap_Install, t)"
    by (simp add: compact_def sample_snapshot_def from_replay_result_def compact_records_def replay_start_def Let_def)
  show ?thesis
    using failed_compaction_panics [OF t, of no_fault 6 "Rec_Clock 9"] t by blast
qed

text \<open>
  C27. Nodes whose encoding is longer than 59 bytes. Their record is encoded into
  the five bytes of its header, which fails: the node is kept in memory and not
  in the log, and from then on no compaction succeeds, so that the file only
  grows.
\<close>

theorem long_node_not_recorded:
  assumes "\<not> short_node P n" "n \<in> set (sn_alive_nodes s)" "is_open s"
  shows "append_line P io now (Rec_Alive n) s = Inr (Inl Snap_Write, s) \<and>
    (\<exists>e t. compact P io now s = Inr (Inl e, t) \<and> contents t = contents s \<and> is_open t \<and> memory t = memory s)"
proof -
  have "\<not> list_all (record_short P) (compact_records s)"
    using assms(1,2) by (auto simp: compact_records_def list_all_iff)
  then have no: "write_records P (compact_records s) [] \<noteq> (Inr (), img)" for img
    using write_records_ok [of P "compact_records s" "[]"] by blast
  obtain x out where x: "write_records P (compact_records s) [] = (x, out)" by (metis surj_pair)
  then obtain e where "write_records P (compact_records s) [] = (Inl e, out)"
    using no [of out] by (cases x) auto
  then show ?thesis
    using assms(1,3)
    by (auto simp: append_line_def compact_def encode_node_record_eq is_open_def contents_def memory_def split: option.split)
qed

definition long_proto :: "(u8, u8) proto" where
  "long_proto = sample_proto\<lparr>nodec := \<lparr>enc = \<lambda>n. node_id n # replicate 60 0,
     dec = \<lambda>b. Inr (61, \<lparr>node_id = hd b, node_addr = 0\<rparr>)\<rparr>\<rparr>"

theorem long_node_not_recorded_witness:
  "\<exists>e t. append_line long_proto no_fault 5 (Rec_Alive (sample_node 2))
       ((sample_snapshot True)\<lparr>sn_alive_nodes := [sample_node 2]\<rparr>) =
       Inr (Inl Snap_Write, (sample_snapshot True)\<lparr>sn_alive_nodes := [sample_node 2]\<rparr>) \<and>
     compact long_proto no_fault 5 ((sample_snapshot True)\<lparr>sn_alive_nodes := [sample_node 2]\<rparr>) = Inr (Inl e, t)"
proof -
  let ?s = "(sample_snapshot True)\<lparr>sn_alive_nodes := [sample_node 2]\<rparr>"
  have "\<not> short_node long_proto (sample_node 2)"
    by (simp add: short_node_def long_proto_def)
  moreover have "sample_node 2 \<in> set (sn_alive_nodes ?s)" "is_open ?s"
    by (simp_all add: is_open_def sample_snapshot_def from_replay_result_def)
  ultimately show ?thesis
    using long_node_not_recorded by blast
qed

end
