(* ===== verification/Coalesce.thy ===== *)
theory Coalesce
  imports Serf_State
begin

text \<open>
  Event coalescing: the two coalescers of \<open>coalesce/member.rs\<close> and
  \<open>coalesce/user.rs\<close>, and the loop of \<open>coalesce.rs\<close> that drives one. The
  operations of the trait \<open>Coalescer\<close> are a record. The output channel is taken
  to be open.
\<close>

section \<open>The member event coalescer\<close>

record ('i, 'a) coalesce_event =
  ce_ty :: member_event_type
  ce_member :: "('i, 'a) member"

record ('i, 'a) member_coalescer =
  mc_last_events :: "(('i, 'a) node, member_event_type) hash_map"
  mc_latest_events :: "(('i, 'a) node, ('i, 'a) coalesce_event) hash_map"

definition member_coalescer_new :: "('i, 'a) member_coalescer" where
  "member_coalescer_new = \<lparr>mc_last_events = [], mc_latest_events = []\<rparr>"

definition member_handle :: "('i, 'a) crate_event \<Rightarrow> bool" where
  "member_handle event \<longleftrightarrow> (case event of Ev_Member _ \<Rightarrow> True | _ \<Rightarrow> False)"

definition insert_latest ::
  "member_event_type \<Rightarrow> ('i, 'a) member \<Rightarrow> ('i, 'a) member_coalescer \<Rightarrow> ('i, 'a) member_coalescer" where
  "insert_latest ty m c =
     c\<lparr>mc_latest_events := AList.update (m_node m) \<lparr>ce_ty = ty, ce_member = m\<rparr> (mc_latest_events c)\<rparr>"

fun member_coalesce :: "('i, 'a) crate_event \<Rightarrow> ('i, 'a) member_coalescer \<Rightarrow> ('i, 'a) member_coalescer" where
  "member_coalesce (Ev_Member e) c = fold (insert_latest (me_ty e)) (me_members e) c"
| "member_coalesce _ c = c"

text \<open>The members to report, by type of event.\<close>

definition push_event ::
  "member_event_type \<Rightarrow> ('i, 'a) member \<Rightarrow> (member_event_type, ('i, 'a) member list) hash_map
   \<Rightarrow> (member_event_type, ('i, 'a) member list) hash_map" where
  "push_event ty m events =
     (case map_of events ty of
        Some ms \<Rightarrow> AList.update ty (ms @ [m]) events
      | None \<Rightarrow> AList.update ty [m] events)"

fun flush_latest ::
  "(('i, 'a) node \<times> ('i, 'a) coalesce_event) list \<Rightarrow> (('i, 'a) node, member_event_type) hash_map
   \<Rightarrow> (member_event_type, ('i, 'a) member list) hash_map
   \<Rightarrow> (('i, 'a) node, member_event_type) hash_map \<times> (member_event_type, ('i, 'a) member list) hash_map" where
  "flush_latest [] last_events events = (last_events, events)"
| "flush_latest ((n, cev) # rest) last_events events =
     (case map_of last_events n of
        Some previous \<Rightarrow>
          if previous = ce_ty cev \<and> ce_ty cev \<noteq> EvUpdate then flush_latest rest last_events events
          else flush_latest rest (AList.update n (ce_ty cev) last_events) (push_event (ce_ty cev) (ce_member cev) events)
      | None \<Rightarrow>
          flush_latest rest (AList.update n (ce_ty cev) last_events) (push_event (ce_ty cev) (ce_member cev) events))"

definition member_flush ::
  "('i, 'a) member_coalescer \<Rightarrow> ('i, 'a) crate_event list \<times> ('i, 'a) member_coalescer" where
  "member_flush c =
     (let (last_events, events) = flush_latest (mc_latest_events c) (mc_last_events c) []
      in (map (\<lambda>(ty, ms). Ev_Member \<lparr>me_ty = ty, me_members = ms\<rparr>) events,
          \<lparr>mc_last_events = last_events, mc_latest_events = []\<rparr>))"

section \<open>The user event coalescer\<close>

record latest_user_events =
  lu_ltime :: lamport_time
  lu_events :: "user_event_message list"

type_synonym user_coalescer = "(string \<times> latest_user_events) list"

definition user_handle :: "('i, 'a) crate_event \<Rightarrow> bool" where
  "user_handle event \<longleftrightarrow> (case event of Ev_User e \<Rightarrow> ue_cc e | _ \<Rightarrow> False)"

definition coalesce_user_event :: "user_event_message \<Rightarrow> user_coalescer \<Rightarrow> user_coalescer" where
  "coalesce_user_event event c =
     (let ltime = ue_ltime event
      in case map_of c (ue_name event) of
           None \<Rightarrow> AList.update (ue_name event) \<lparr>lu_ltime = ltime, lu_events = [event]\<rparr> c
         | Some latest \<Rightarrow>
             if lu_ltime latest < ltime
             then AList.update (ue_name event) \<lparr>lu_ltime = ltime, lu_events = [event]\<rparr> c
             else if lu_ltime latest = ltime
             then AList.update (ue_name event) (latest\<lparr>lu_events := lu_events latest @ [event]\<rparr>) c
             else c)"

fun user_coalesce :: "('i, 'a) crate_event \<Rightarrow> user_coalescer \<Rightarrow> user_coalescer" where
  "user_coalesce (Ev_User e) c = coalesce_user_event e c"
| "user_coalesce _ c = c"

definition user_flush :: "user_coalescer \<Rightarrow> ('i, 'a) crate_event list \<times> user_coalescer" where
  "user_flush c = (map Ev_User (concat (map (\<lambda>(_, latest). lu_events latest) c)), [])"

section \<open>The loop\<close>

record ('i, 'a, 'c) coalescer_ops =
  co_handle :: "('i, 'a) crate_event \<Rightarrow> bool"
  co_coalesce :: "('i, 'a) crate_event \<Rightarrow> 'c \<Rightarrow> 'c"
  co_flush :: "'c \<Rightarrow> ('i, 'a) crate_event list \<times> 'c"

definition member_ops :: "('i, 'a, ('i, 'a) member_coalescer) coalescer_ops" where
  "member_ops = \<lparr>co_handle = member_handle, co_coalesce = member_coalesce, co_flush = member_flush\<rparr>"

definition user_ops :: "('i, 'a, user_coalescer) coalescer_ops" where
  "user_ops = \<lparr>co_handle = user_handle, co_coalesce = user_coalesce, co_flush = user_flush\<rparr>"

record ('i, 'a, 'c) coalesce_state =
  cl_quiescent :: "nat option"
  cl_quantum :: "nat option"
  cl_shutdown :: bool
  cl_returned :: bool
  cl_c :: 'c
  cl_out :: "('i, 'a) crate_event list"

text \<open>
  A turn of \<open>select!\<close> polls its branches in any order until one is ready. The
  branches of the two timers take the timer out of its variable when they are
  first polled, so a turn that ends in another branch loses those it has polled.
  When nothing is ready at first, all branches have been polled by the time one
  is. \<open>took_quantum\<close> and \<open>took_quiescent\<close> say which were. After a shutdown the
  loop returns with the next flush.
\<close>

datatype ('i, 'a) coalesce_label =
    Got_event "('i, 'a) crate_event"
  | Quantum_over
  | Quiescent_over
  | Got_shutdown

definition take_timers :: "bool \<Rightarrow> bool \<Rightarrow> ('i, 'a, 'c) coalesce_state \<Rightarrow> ('i, 'a, 'c) coalesce_state" where
  "take_timers took_quantum took_quiescent s =
     s\<lparr>cl_quantum := (if took_quantum then None else cl_quantum s),
       cl_quiescent := (if took_quiescent then None else cl_quiescent s)\<rparr>"

definition ingest ::
  "('i, 'a, 'c) coalescer_ops \<Rightarrow> nat \<Rightarrow> nat \<Rightarrow> nat \<Rightarrow> ('i, 'a) crate_event
   \<Rightarrow> ('i, 'a, 'c) coalesce_state \<Rightarrow> ('i, 'a, 'c) coalesce_state" where
  "ingest C c_period q_period now ev s =
     (if \<not> co_handle C ev then s\<lparr>cl_out := cl_out s @ [ev]\<rparr>
      else s\<lparr>cl_quantum := (case cl_quantum s of None \<Rightarrow> Some (now + c_period) | q \<Rightarrow> q),
             cl_quiescent := Some (now + q_period),
             cl_c := co_coalesce C ev (cl_c s)\<rparr>)"

definition flush_out ::
  "('i, 'a, 'c) coalescer_ops \<Rightarrow> ('i, 'a, 'c) coalesce_state \<Rightarrow> ('i, 'a, 'c) coalesce_state" where
  "flush_out C s =
     (let (outs, c) = co_flush C (cl_c s)
      in s\<lparr>cl_c := c, cl_out := cl_out s @ outs, cl_quantum := None, cl_quiescent := None,
            cl_returned := cl_shutdown s\<rparr>)"

inductive coalesce_step ::
  "('i, 'a, 'c) coalescer_ops \<Rightarrow> nat \<Rightarrow> nat \<Rightarrow> ('i, 'a, 'c) coalesce_state
   \<Rightarrow> nat \<times> ('i, 'a) coalesce_label \<Rightarrow> ('i, 'a, 'c) coalesce_state \<Rightarrow> bool"
  for C c_period q_period where
  step_event: "\<not> cl_returned s \<Longrightarrow> coalesce_step C c_period q_period s (now, Got_event ev)
     (ingest C c_period q_period now ev (take_timers tq ti s))"
| step_quantum: "\<not> cl_returned s \<Longrightarrow> cl_quantum s = Some t \<Longrightarrow> t \<le> now \<Longrightarrow>
     coalesce_step C c_period q_period s (now, Quantum_over) (flush_out C s)"
| step_quiescent: "\<not> cl_returned s \<Longrightarrow> cl_quiescent s = Some t \<Longrightarrow> t \<le> now \<Longrightarrow>
     coalesce_step C c_period q_period s (now, Quiescent_over) (flush_out C s)"
| step_shutdown: "\<not> cl_returned s \<Longrightarrow> coalesce_step C c_period q_period s (now, Got_shutdown)
     ((take_timers tq ti s)\<lparr>cl_shutdown := True\<rparr>)"

inductive_cases coalesce_eventE: "coalesce_step C c_period q_period s (now, Got_event ev) t"
inductive_cases coalesce_quantumE: "coalesce_step C c_period q_period s (now, Quantum_over) t"
inductive_cases coalesce_quiescentE: "coalesce_step C c_period q_period s (now, Quiescent_over) t"
inductive_cases coalesce_shutdownE: "coalesce_step C c_period q_period s (now, Got_shutdown) t"

definition coalesce_start :: "'c \<Rightarrow> ('i, 'a, 'c) coalesce_state" where
  "coalesce_start c = \<lparr>cl_quiescent = None, cl_quantum = None, cl_shutdown = False, cl_returned = False, cl_c = c, cl_out = []\<rparr>"

end
