(* ===== verification/Coalesce_Facts.thy ===== *)
theory Coalesce_Facts
  imports Coalesce
begin

text \<open>
  What the two coalescers give out, and which timers of the loop are armed. The
  contract of the trait is a locale; both coalescers satisfy it.
\<close>

section \<open>Member events\<close>

text \<open>The reports about members in a list of events, and the last one about a node.\<close>

definition reports :: "('i, 'a) member_event list \<Rightarrow> (member_event_type \<times> ('i, 'a) member) list" where
  "reports es = concat (map (\<lambda>e. map (Pair (me_ty e)) (me_members e)) es)"

fun latest_report ::
  "(member_event_type \<times> ('i, 'a) member) list \<Rightarrow> ('i, 'a) node \<Rightarrow> (member_event_type \<times> ('i, 'a) member) option" where
  "latest_report [] n = None"
| "latest_report ((ty, m) # rs) n =
     (case latest_report rs n of
        Some r \<Rightarrow> Some r
      | None \<Rightarrow> if m_node m = n then Some (ty, m) else None)"

lemma member_coalesce_reports:
  "fold member_coalesce (map Ev_Member es) c = fold (\<lambda>(ty, m). insert_latest ty m) (reports es) c"
proof (induction es arbitrary: c)
  case (Cons e es)
  have "fold (insert_latest ty) ms c = fold (\<lambda>(ty, m). insert_latest ty m) (map (Pair ty) ms) c" for ty ms
    by (induction ms arbitrary: c) simp_all
  with Cons show ?case by (simp add: reports_def)
qed (simp add: reports_def)

definition latest_ok :: "('i, 'a) member_coalescer \<Rightarrow> bool" where
  "latest_ok c \<longleftrightarrow> distinct (map fst (mc_latest_events c)) \<and>
     (\<forall>n cev. map_of (mc_latest_events c) n = Some cev \<longrightarrow> m_node (ce_member cev) = n)"

lemma insert_latest_ok: "latest_ok c \<Longrightarrow> latest_ok (insert_latest ty m c)"
  by (auto simp: latest_ok_def insert_latest_def distinct_update update_conv' split: if_splits)

lemma fold_insert_latest:
  "mc_last_events (fold (\<lambda>(ty, m). insert_latest ty m) rs c) = mc_last_events c"
  "map_of (mc_latest_events (fold (\<lambda>(ty, m). insert_latest ty m) rs c)) n =
     (case latest_report rs n of
        Some (ty, m) \<Rightarrow> Some \<lparr>ce_ty = ty, ce_member = m\<rparr>
      | None \<Rightarrow> map_of (mc_latest_events c) n)"
  by (induction rs arbitrary: c) (auto simp: insert_latest_def update_conv' split: option.splits)

lemma fold_latest_ok: "latest_ok c \<Longrightarrow> latest_ok (fold (\<lambda>(ty, m). insert_latest ty m) rs c)"
  by (induction rs arbitrary: c) (auto simp: insert_latest_ok)

text \<open>Which of the latest events a flush reports.\<close>

definition worthy ::
  "(('i, 'a) node, member_event_type) hash_map \<Rightarrow> ('i, 'a) node \<times> ('i, 'a) coalesce_event \<Rightarrow> bool" where
  "worthy L x \<longleftrightarrow> map_of L (fst x) \<noteq> Some (ce_ty (snd x)) \<or> ce_ty (snd x) = EvUpdate"

definition members_of ::
  "(member_event_type, ('i, 'a) member list) hash_map \<Rightarrow> member_event_type \<Rightarrow> ('i, 'a) member list" where
  "members_of events ty = (case map_of events ty of None \<Rightarrow> [] | Some ms \<Rightarrow> ms)"

lemma members_of_push:
  "members_of (push_event ty m events) ty' = members_of events ty' @ (if ty' = ty then [m] else [])"
  by (simp add: members_of_def push_event_def update_conv' split: option.split)

lemma distinct_push: "distinct (map fst events) \<Longrightarrow> distinct (map fst (push_event ty m events))"
  by (simp add: push_event_def distinct_update split: option.split)

lemma flush_latest_step:
  "flush_latest (x # rest) L events =
     (if worthy L x
      then flush_latest rest (AList.update (fst x) (ce_ty (snd x)) L) (push_event (ce_ty (snd x)) (ce_member (snd x)) events)
      else flush_latest rest L events)"
  by (cases x) (auto simp: worthy_def split: option.split)

lemma flush_latest_spec:
  assumes "distinct (map fst latest)" "flush_latest latest L events = (L', events')"
  shows "members_of events' ty =
      members_of events ty @ map (ce_member \<circ> snd) (filter (\<lambda>x. worthy L x \<and> ce_ty (snd x) = ty) latest) \<and>
    map_of L' n = (case map_of latest n of Some cev \<Rightarrow> Some (ce_ty cev) | None \<Rightarrow> map_of L n) \<and>
    (distinct (map fst events) \<longrightarrow> distinct (map fst events'))"
  using assms
proof (induction latest arbitrary: L events)
  case (Cons x latest)
  obtain a b where x: "x = (a, b)" by fastforce
  have same: "filter (\<lambda>y. worthy (AList.update a ty' L) y \<and> ce_ty (snd y) = t) latest =
      filter (\<lambda>y. worthy L y \<and> ce_ty (snd y) = t) latest" for ty' t
    using Cons.prems(1) by (intro filter_cong refl) (auto simp: x worthy_def update_conv' image_iff)
  have fst_x: "map_of latest a = None"
    using Cons.prems(1) by (simp add: x map_of_eq_None_iff)
  show ?case
  proof (cases "worthy L x")
    case True
    then show ?thesis
      using Cons.IH [of "AList.update a (ce_ty b) L" "push_event (ce_ty b) (ce_member b) events"] Cons.prems fst_x
        distinct_push [of events "ce_ty b" "ce_member b"]
      by (auto simp: x flush_latest_step members_of_push same update_conv' split: option.splits)
  next
    case False
    then show ?thesis
      using Cons.IH [of L events] Cons.prems fst_x
      by (auto simp: x flush_latest_step worthy_def split: option.splits)
  qed
qed simp

lemma member_flush_cases:
  assumes "latest_ok c" "member_flush c = (outs, c')"
  obtains events where "outs = map (\<lambda>(ty, ms). Ev_Member \<lparr>me_ty = ty, me_members = ms\<rparr>) events"
    "distinct (map fst events)"
    "\<And>ty. members_of events ty =
      map (ce_member \<circ> snd) (filter (\<lambda>x. worthy (mc_last_events c) x \<and> ce_ty (snd x) = ty) (mc_latest_events c))"
proof -
  obtain L' events where f: "flush_latest (mc_latest_events c) (mc_last_events c) [] = (L', events)" by fastforce
  have d: "distinct (map fst (mc_latest_events c))" using assms(1) by (simp add: latest_ok_def)
  show ?thesis
    using assms(2) f flush_latest_spec [OF d f]
    by (intro that [of events]) (auto simp: member_flush_def members_of_def)
qed

lemma flushed_last:
  assumes "latest_ok c" "member_flush c = (outs, c')"
  shows "map_of (mc_last_events c') n =
      (case map_of (mc_latest_events c) n of Some cev \<Rightarrow> Some (ce_ty cev) | None \<Rightarrow> map_of (mc_last_events c) n)"
    and "mc_latest_events c' = []"
proof -
  obtain L' events where f: "flush_latest (mc_latest_events c) (mc_last_events c) [] = (L', events)" by fastforce
  have d: "distinct (map fst (mc_latest_events c))" using assms(1) by (simp add: latest_ok_def)
  show "map_of (mc_last_events c') n =
      (case map_of (mc_latest_events c) n of Some cev \<Rightarrow> Some (ce_ty cev) | None \<Rightarrow> map_of (mc_last_events c) n)"
    "mc_latest_events c' = []"
    using assms(2) f flush_latest_spec [OF d f] by (auto simp: member_flush_def)
qed

lemma latest_ok_node: "latest_ok c \<Longrightarrow> x \<in> set (mc_latest_events c) \<Longrightarrow> m_node (ce_member (snd x)) = fst x"
  by (cases x) (auto simp: latest_ok_def)

lemma flushed_members:
  assumes ok: "latest_ok c" and fl: "member_flush c = (outs, c')"
  shows "(\<exists>e. Ev_Member e \<in> set outs \<and> me_ty e = ty \<and> m \<in> set (me_members e)) \<longleftrightarrow>
      map_of (mc_latest_events c) (m_node m) = Some \<lparr>ce_ty = ty, ce_member = m\<rparr> \<and>
      (map_of (mc_last_events c) (m_node m) \<noteq> Some ty \<or> ty = EvUpdate)"
proof -
  let ?l = "mc_latest_events c" and ?L = "mc_last_events c"
  have d: "distinct (map fst ?l)" using ok by (simp add: latest_ok_def)
  obtain events where ev: "outs = map (\<lambda>(ty, ms). Ev_Member \<lparr>me_ty = ty, me_members = ms\<rparr>) events"
    "distinct (map fst events)"
    "\<And>ty. members_of events ty = map (ce_member \<circ> snd) (filter (\<lambda>x. worthy ?L x \<and> ce_ty (snd x) = ty) ?l)"
    using member_flush_cases [OF ok fl] by blast
  have "(\<exists>e. Ev_Member e \<in> set outs \<and> me_ty e = ty \<and> m \<in> set (me_members e)) \<longleftrightarrow> m \<in> set (members_of events ty)"
    using ev(2) by (force simp: ev(1) members_of_def split: option.splits dest: map_of_SomeD)
  also have "\<dots> \<longleftrightarrow> (\<exists>x \<in> set ?l. worthy ?L x \<and> ce_ty (snd x) = ty \<and> ce_member (snd x) = m)"
    by (auto simp: ev(3))
  also have "\<dots> \<longleftrightarrow> (\<exists>x \<in> set ?l. x = (m_node m, \<lparr>ce_ty = ty, ce_member = m\<rparr>) \<and> worthy ?L x)"
  proof (rule bex_cong [OF refl])
    fix x assume "x \<in> set ?l"
    then have "m_node (ce_member (snd x)) = fst x" by (rule latest_ok_node [OF ok])
    then show "worthy ?L x \<and> ce_ty (snd x) = ty \<and> ce_member (snd x) = m \<longleftrightarrow>
        x = (m_node m, \<lparr>ce_ty = ty, ce_member = m\<rparr>) \<and> worthy ?L x"
      by (cases x; cases "snd x") auto
  qed
  also have "\<dots> \<longleftrightarrow> map_of ?l (m_node m) = Some \<lparr>ce_ty = ty, ce_member = m\<rparr> \<and>
      (map_of ?L (m_node m) \<noteq> Some ty \<or> ty = EvUpdate)"
    using d by (auto simp: worthy_def)
  finally show ?thesis .
qed

lemma flushed_distinct:
  assumes ok: "latest_ok c" and fl: "member_flush c = (outs, c')" and e: "Ev_Member e \<in> set outs"
  shows "distinct (map m_node (me_members e))"
    and "Ev_Member e' \<in> set outs \<Longrightarrow> me_ty e = me_ty e' \<Longrightarrow> e = e'"
proof -
  let ?l = "mc_latest_events c" and ?L = "mc_last_events c"
  obtain events where ev: "outs = map (\<lambda>(ty, ms). Ev_Member \<lparr>me_ty = ty, me_members = ms\<rparr>) events"
    "distinct (map fst events)"
    "\<And>ty. members_of events ty = map (ce_member \<circ> snd) (filter (\<lambda>x. worthy ?L x \<and> ce_ty (snd x) = ty) ?l)"
    using member_flush_cases [OF ok fl] by blast
  have me: "me_members e = members_of events (me_ty e)" if "Ev_Member e \<in> set outs" for e
    using that ev(2) by (auto simp: ev(1) members_of_def)
  have "map m_node (me_members e) = map fst (filter (\<lambda>x. worthy ?L x \<and> ce_ty (snd x) = me_ty e) ?l)"
    using latest_ok_node [OF ok] by (simp add: me [OF e] ev(3))
  then show "distinct (map m_node (me_members e))"
    using ok by (simp add: latest_ok_def distinct_map_filter)
  show "e = e'" if "Ev_Member e' \<in> set outs" "me_ty e = me_ty e'"
    using me [OF e] me [OF that(1)] that(2) by (simp add: member_event.equality)
qed

section \<open>User events\<close>

text \<open>The names in the order of their first events, the newest time of a name and its events of that time.\<close>

definition event_names :: "user_event_message list \<Rightarrow> string list" where
  "event_names es = fold (\<lambda>e ns. if ue_name e \<in> set ns then ns else ns @ [ue_name e]) es []"

definition newest :: "user_event_message list \<Rightarrow> string \<Rightarrow> lamport_time" where
  "newest es n = fold max (map ue_ltime (filter (\<lambda>e. ue_name e = n) es)) 0"

definition newest_events :: "user_event_message list \<Rightarrow> string \<Rightarrow> user_event_message list" where
  "newest_events es n = filter (\<lambda>e. ue_name e = n \<and> ue_ltime e = newest es n) es"

lemma event_names_snoc:
  "event_names (es @ [e]) = (if ue_name e \<in> set (event_names es) then event_names es else event_names es @ [ue_name e])"
  by (simp add: event_names_def)

lemma event_names_props: "set (event_names es) = ue_name ` set es" "distinct (event_names es)"
  by (induction es rule: rev_induct) (simp_all add: event_names_snoc insert_absorb, simp_all add: event_names_def)

lemma newest_snoc: "newest (es @ [e]) n = (if ue_name e = n then max (ue_ltime e) (newest es n) else newest es n)"
  by (simp add: newest_def)

lemma no_events: "n \<notin> ue_name ` set es \<Longrightarrow> newest_events es n = [] \<and> newest es n = 0"
proof -
  assume "n \<notin> ue_name ` set es"
  then have "filter (\<lambda>e. ue_name e = n) es = []" by (auto simp: filter_empty_conv)
  then show ?thesis by (auto simp: newest_events_def newest_def filter_empty_conv)
qed

lemma newest_bound: "e \<in> set es \<Longrightarrow> ue_name e = n \<Longrightarrow> ue_ltime e \<le> newest es n"
  by (induction es rule: rev_induct) (auto simp: newest_snoc max.coboundedI1 max.coboundedI2)

lemma newest_events_snoc:
  "newest_events (es @ [e]) n =
     (if ue_name e \<noteq> n then newest_events es n
      else if newest es n < ue_ltime e then [e]
      else if newest es n = ue_ltime e then newest_events es n @ [e]
      else newest_events es n)"
proof -
  have "filter (\<lambda>x. ue_name x = n \<and> ue_ltime x = ue_ltime e) es = []" if "newest es n < ue_ltime e"
    using that newest_bound [of _ es n] by (fastforce simp: filter_empty_conv)
  then show ?thesis
    by (auto simp: newest_events_def newest_snoc max_def)
qed

lemma map_of_keys: "map_of (map (\<lambda>k. (k, f k)) ks) k = (if k \<in> set ks then Some (f k) else None)"
  by (induction ks) auto

lemma update_keys_map:
  "distinct ks \<Longrightarrow> k \<in> set ks \<Longrightarrow>
   AList.update k v (map (\<lambda>k. (k, f k)) ks) = map (\<lambda>j. (j, if j = k then v else f j)) ks"
  by (induction ks) auto

lemma update_new_key: "k \<notin> set ks \<Longrightarrow> AList.update k v (map (\<lambda>k. (k, f k)) ks) = map (\<lambda>k. (k, f k)) ks @ [(k, v)]"
  by (induction ks) auto

lemma user_coalescer_state:
  "fold coalesce_user_event es [] =
     map (\<lambda>n. (n, \<lparr>lu_ltime = newest es n, lu_events = newest_events es n\<rparr>)) (event_names es)"
proof (induction es rule: rev_induct)
  case Nil
  then show ?case by (simp add: event_names_def)
next
  case (snoc e es)
  let ?n = "ue_name e" and ?f = "\<lambda>es n. \<lparr>lu_ltime = newest es n, lu_events = newest_events es n\<rparr>"
  show ?case
  proof (cases "?n \<in> set (event_names es)")
    case True
    have other: "map (\<lambda>j. (j, if j = ?n then ?f (es @ [e]) ?n else ?f es j)) (event_names es) =
        map (\<lambda>j. (j, ?f (es @ [e]) j)) (event_names es)"
      by (simp add: newest_snoc newest_events_snoc)
    have "coalesce_user_event e (map (\<lambda>n. (n, ?f es n)) (event_names es)) =
        map (\<lambda>j. (j, if j = ?n then ?f (es @ [e]) ?n else ?f es j)) (event_names es)"
      using True event_names_props(2) [of es]
      by (auto simp: coalesce_user_event_def Let_def map_of_keys update_keys_map newest_snoc newest_events_snoc max_def)
    then show ?thesis using True other by (simp add: snoc.IH event_names_snoc)
  next
    case False
    then have "?n \<notin> ue_name ` set es" by (simp add: event_names_props)
    note none = no_events [OF this]
    have old: "map (\<lambda>j. (j, ?f (es @ [e]) j)) (event_names es) = map (\<lambda>j. (j, ?f es j)) (event_names es)"
      using False by (intro map_cong refl) (auto simp: newest_snoc newest_events_snoc)
    have "coalesce_user_event e (map (\<lambda>n. (n, ?f es n)) (event_names es)) =
        map (\<lambda>n. (n, ?f es n)) (event_names es) @ [(?n, ?f (es @ [e]) ?n)]"
      using False none
      by (auto simp: coalesce_user_event_def Let_def map_of_keys update_new_key newest_snoc newest_events_snoc
          word_gt_0)
    then show ?thesis using False old by (simp add: snoc.IH event_names_snoc)
  qed
qed

lemma user_flush_spec:
  "fst (user_flush (fold coalesce_user_event es [])) =
     map Ev_User (concat (map (newest_events es) (event_names es)))"
  by (simp add: user_coalescer_state user_flush_def comp_def)

section \<open>The loop\<close>

locale coalescer =
  fixes C :: "('i, 'a, 'c) coalescer_ops" and pending :: "'c \<Rightarrow> bool"
  assumes flush_clears: "\<not> pending (snd (co_flush C c))"
    and coalesce_keeps: "pending c \<Longrightarrow> co_handle C ev \<Longrightarrow> pending (co_coalesce C ev c)"
begin

text \<open>While only handled events arrive, whatever is pending has a timer.\<close>

lemma handled_run_armed:
  assumes "run (coalesce_step C cp qp) s ls u" "pending (cl_c s) \<longrightarrow> cl_quiescent s \<noteq> None"
    and "list_all (\<lambda>(now, l). l \<noteq> Got_shutdown \<and> (\<forall>ev. l = Got_event ev \<longrightarrow> co_handle C ev)) ls"
  shows "pending (cl_c u) \<longrightarrow> cl_quiescent u \<noteq> None"
  using assms
proof (induction rule: run.induct)
  case (run_snoc s ls t l u)
  have "co_handle C ev \<Longrightarrow> cl_quiescent (ingest C cp qp now ev v) \<noteq> None" for now ev v
    by (simp add: ingest_def)
  moreover have "\<not> pending (cl_c (flush_out C t))"
    using flush_clears [of "cl_c t"] by (simp add: flush_out_def split_beta)
  ultimately show ?case
    using run_snoc by (auto elim!: coalesce_step.cases)
qed simp

lemma quiescent_flushes:
  assumes "\<not> cl_returned s" "cl_quiescent s = Some d"
  shows "coalesce_step C cp qp s (d, Quiescent_over) (flush_out C s) \<and> \<not> pending (cl_c (flush_out C s)) \<and>
    cl_out (flush_out C s) = cl_out s @ fst (co_flush C (cl_c s))"
  using step_quiescent [OF assms, of d C cp qp] flush_clears [of "cl_c s"]
  by (simp add: flush_out_def split_beta)

text \<open>Without timers, nothing that is pending comes out before another event is handled.\<close>

lemma stranded_run:
  assumes "run (coalesce_step C cp qp) s ls u" "cl_quiescent s = None" "cl_quantum s = None"
    and "list_all (\<lambda>(now, l). \<forall>ev. l = Got_event ev \<longrightarrow> \<not> co_handle C ev) ls"
  shows "cl_quiescent u = None \<and> cl_quantum u = None \<and> cl_c u = cl_c s \<and> cl_returned u = cl_returned s"
  using assms
proof (induction rule: run.induct)
  case (run_snoc s ls t l u)
  then show ?case
    by (auto simp: ingest_def take_timers_def elim!: coalesce_step.cases)
qed simp

end

interpretation member_coal: coalescer member_ops "\<lambda>c. mc_latest_events c \<noteq> []"
proof (unfold_locales, goal_cases)
  case (1 c)
  then show ?case by (simp add: member_ops_def member_flush_def split_beta)
next
  case (2 c ev)
  have "mc_latest_events c \<noteq> [] \<Longrightarrow> mc_latest_events (fold (insert_latest ty) ms c) \<noteq> []" for ty ms
    by (induction ms arbitrary: c) (simp_all add: insert_latest_def AList.update_nonempty)
  with 2 show ?case by (cases ev) (simp_all add: member_ops_def)
qed

interpretation user_coal: coalescer user_ops "\<lambda>c. c \<noteq> []"
proof (unfold_locales, goal_cases)
  case (1 c)
  then show ?case by (simp add: user_ops_def user_flush_def)
next
  case (2 c ev)
  then show ?case
    by (cases ev) (auto simp: user_ops_def coalesce_user_event_def Let_def AList.update_nonempty split: option.split)
qed

end
