(* ===== verification/Coalesce_Theorems.thy ===== *)
theory Coalesce_Theorems
  imports Coalesce_Facts Serf_Sample
begin

text \<open>
  The properties of event coalescing: what a flush reports, that pending events
  come out while only coalesced events arrive, and that they may not otherwise.
\<close>

text \<open>
  C28. A flush of the member event coalescer. After any events, each node is
  reported at most once, in one event per type, with the last event about it
  and the member as it was then; it is reported unless the last flush that
  spoke of it said the same, updates being always reported.
\<close>

theorem member_coalescer_reports:
  assumes "member_flush (fold member_coalesce (map Ev_Member es) \<lparr>mc_last_events = L, mc_latest_events = []\<rparr>) = (outs, c')"
  shows "(\<forall>ty m. (\<exists>e. Ev_Member e \<in> set outs \<and> me_ty e = ty \<and> m \<in> set (me_members e)) \<longleftrightarrow>
      latest_report (reports es) (m_node m) = Some (ty, m) \<and> (map_of L (m_node m) \<noteq> Some ty \<or> ty = EvUpdate)) \<and>
    (\<forall>e e'. Ev_Member e \<in> set outs \<and> Ev_Member e' \<in> set outs \<longrightarrow>
      distinct (map m_node (me_members e)) \<and> (me_ty e = me_ty e' \<longrightarrow> e = e')) \<and>
    (\<forall>n. map_of (mc_last_events c') n =
      (case latest_report (reports es) n of Some (ty, m) \<Rightarrow> Some ty | None \<Rightarrow> map_of L n)) \<and>
    mc_latest_events c' = []"
proof -
  let ?c0 = "\<lparr>mc_last_events = L, mc_latest_events = []\<rparr>"
  let ?c = "fold (\<lambda>(ty, m). insert_latest ty m) (reports es) ?c0"
  have fl: "member_flush ?c = (outs, c')" using assms by (simp add: member_coalesce_reports)
  have ok: "latest_ok ?c" by (rule fold_latest_ok) (simp add: latest_ok_def)
  have latest: "map_of (mc_latest_events ?c) n =
      map_option (\<lambda>(ty, m). \<lparr>ce_ty = ty, ce_member = m\<rparr>) (latest_report (reports es) n)" for n
    by (simp add: fold_insert_latest(2) split: option.split)
  have "(\<exists>e. Ev_Member e \<in> set outs \<and> me_ty e = ty \<and> m \<in> set (me_members e)) \<longleftrightarrow>
      latest_report (reports es) (m_node m) = Some (ty, m) \<and> (map_of L (m_node m) \<noteq> Some ty \<or> ty = EvUpdate)" for ty m
    unfolding flushed_members [OF ok fl] by (auto simp: latest fold_insert_latest(1))
  moreover have "map_of (mc_last_events c') n =
      (case latest_report (reports es) n of Some (ty, m) \<Rightarrow> Some ty | None \<Rightarrow> map_of L n)" for n
    unfolding flushed_last(1) [OF ok fl] by (auto simp: latest fold_insert_latest(1) split: option.split)
  ultimately show ?thesis
    using flushed_distinct [OF ok fl] flushed_last(2) [OF ok fl] by blast
qed

theorem member_coalescer_reports_witness:
  "let m = sample_member_of 2 Alive; e = \<lparr>me_ty = EvJoin, me_members = [m]\<rparr>;
       (outs, c') = member_flush (fold member_coalesce (map Ev_Member [e]) \<lparr>mc_last_events = [], mc_latest_events = []\<rparr>)
   in (\<exists>e. Ev_Member e \<in> set outs \<and> me_ty e = EvJoin \<and> m \<in> set (me_members e)) \<and>
      map_of (mc_last_events c') (sample_node 2) = Some EvJoin"
proof -
  let ?m = "sample_member_of 2 Alive"
  let ?e = "\<lparr>me_ty = EvJoin, me_members = [?m]\<rparr>"
  let ?c = "fold member_coalesce (map Ev_Member [?e]) \<lparr>mc_last_events = [], mc_latest_events = []\<rparr>"
  obtain outs c' where fl: "member_flush ?c = (outs, c')" by fastforce
  have "latest_report (reports [?e]) (m_node ?m) = Some (EvJoin, ?m)" "m_node ?m = sample_node 2"
    by (simp_all add: reports_def sample_member_of_def)
  with member_coalescer_reports [OF fl] fl show ?thesis
    by (auto simp: Let_def)
qed

text \<open>
  C29. A flush of the user event coalescer. After any coalesced events, it gives
  out, name by name in the order in which the names first occurred, exactly the
  events of the largest Lamport time of the name, in the order of arrival.
\<close>

theorem user_coalescer_newest:
  "user_flush (fold coalesce_user_event es []) =
     (map Ev_User (concat (map (newest_events es) (event_names es))), [])"
  using user_flush_spec [of es] by (simp add: user_flush_def)

text \<open>
  C30. While a coalescing loop is only given events that it coalesces, nothing
  waits for ever: whenever something is pending, the quiescence timer is set,
  and when it runs out everything pending is given out.
\<close>

theorem coalescer_flushes:
  assumes "run (coalesce_step member_ops cp qp) (coalesce_start member_coalescer_new) ls u"
    and "list_all (\<lambda>(now, l). l \<noteq> Got_shutdown \<and> (\<forall>ev. l = Got_event ev \<longrightarrow> member_handle ev)) ls"
    and "mc_latest_events (cl_c u) \<noteq> []" "\<not> cl_returned u"
  shows "\<exists>d t. cl_quiescent u = Some d \<and> coalesce_step member_ops cp qp u (d, Quiescent_over) t \<and>
    mc_latest_events (cl_c t) = [] \<and> cl_out t = cl_out u @ fst (member_flush (cl_c u))"
proof -
  have h: "co_handle member_ops = member_handle" by (simp add: member_ops_def)
  have "cl_quiescent u \<noteq> None"
    using member_coal.handled_run_armed [OF assms(1)] assms(2,3)
    by (simp add: h coalesce_start_def member_coalescer_new_def)
  then obtain d where d: "cl_quiescent u = Some d" by blast
  from member_coal.quiescent_flushes [OF assms(4) d, of cp qp] d show ?thesis
    by (intro exI [of _ d] exI [of _ "flush_out member_ops u"]) (simp add: member_ops_def)
qed

definition sample_member_join :: "(u8, u8) member_event" where
  "sample_member_join = \<lparr>me_ty = EvJoin, me_members = [sample_member_of 2 Alive]\<rparr>"

theorem coalescer_flushes_witness:
  "\<exists>u d t. run (coalesce_step member_ops 10 5) (coalesce_start member_coalescer_new)
       [(3, Got_event (Ev_Member sample_member_join))] u \<and>
     cl_quiescent u = Some d \<and> coalesce_step member_ops 10 5 u (d, Quiescent_over) t \<and> mc_latest_events (cl_c t) = []"
proof -
  let ?s = "coalesce_start member_coalescer_new" and ?e = "Ev_Member sample_member_join"
  let ?u = "ingest member_ops 10 5 3 ?e (take_timers False False ?s)"
  have step: "coalesce_step member_ops 10 5 ?s (3, Got_event ?e) ?u"
    by (rule step_event) (simp add: coalesce_start_def)
  have r: "run (coalesce_step member_ops 10 5) ?s [(3, Got_event ?e)] ?u"
    by (rule run_Cons, rule step, rule run.run_nil)
  have "mc_latest_events (cl_c ?u) \<noteq> []" "\<not> cl_returned ?u"
    by (simp_all add: ingest_def member_ops_def member_handle_def sample_member_join_def insert_latest_def
        AList.update_nonempty coalesce_start_def take_timers_def)
  from coalescer_flushes [OF r _ this] r show ?thesis
    by (auto simp: member_handle_def)
qed

text \<open>
  C31. An event that is only passed through can strand what is pending. The loop
  takes its timers out to wait for them, and an event that it does not coalesce
  makes it drop them: the member events collected before stay where they are,
  through any further such events and a shutdown, until another member event
  arrives.
\<close>

theorem passed_event_strands_pending:
  assumes "me_members e \<noteq> []" "\<not> member_handle ev"
  shows "\<exists>t. run (coalesce_step member_ops cp qp) (coalesce_start member_coalescer_new)
      [(now, Got_event (Ev_Member e)), (now', Got_event ev)] t \<and>
    mc_latest_events (cl_c t) \<noteq> [] \<and>
    (\<forall>ls u. run (coalesce_step member_ops cp qp) t ls u \<and>
       list_all (\<lambda>(now, l). \<forall>ev. l = Got_event ev \<longrightarrow> \<not> member_handle ev) ls \<longrightarrow> cl_c u = cl_c t \<and> \<not> cl_returned u)"
proof -
  let ?s = "coalesce_start member_coalescer_new" and ?C = member_ops
  let ?t1 = "ingest ?C cp qp now (Ev_Member e) (take_timers False False ?s)"
  let ?t = "ingest ?C cp qp now' ev (take_timers True True ?t1)"
  have h: "co_handle ?C = member_handle" "co_coalesce ?C = member_coalesce" by (simp_all add: member_ops_def)
  have s1: "coalesce_step ?C cp qp ?s (now, Got_event (Ev_Member e)) ?t1"
    by (rule step_event) (simp add: coalesce_start_def)
  have s2: "coalesce_step ?C cp qp ?t1 (now', Got_event ev) ?t"
    by (rule step_event) (simp add: ingest_def h member_handle_def coalesce_start_def take_timers_def)
  have r: "run (coalesce_step ?C cp qp) ?s [(now, Got_event (Ev_Member e)), (now', Got_event ev)] ?t"
    by (rule run_Cons, rule s1, rule run_Cons, rule s2, rule run.run_nil)
  have tm: "cl_quiescent ?t = None" "cl_quantum ?t = None" "\<not> cl_returned ?t"
    using assms(2) by (simp_all add: ingest_def h take_timers_def member_handle_def coalesce_start_def)
  have "mc_latest_events (fold (insert_latest ty) ms c) \<noteq> []" if "ms \<noteq> []" for ty ms and c :: "('a, 'b) member_coalescer"
    using that by (induction ms rule: rev_induct) (simp_all add: insert_latest_def AList.update_nonempty)
  then have pend: "mc_latest_events (cl_c ?t) \<noteq> []"
    using assms by (simp add: ingest_def h take_timers_def member_handle_def)
  have strand: "cl_c u = cl_c ?t \<and> \<not> cl_returned u"
    if "run (coalesce_step ?C cp qp) ?t ls u" "list_all (\<lambda>(now, l). \<forall>ev. l = Got_event ev \<longrightarrow> \<not> member_handle ev) ls"
    for ls u
    using member_coal.stranded_run [OF that(1) tm(1,2)] that(2) tm(3) by (simp add: h)
  show ?thesis
    using r pend strand by (intro exI [of _ ?t] conjI allI impI) blast+
qed

theorem passed_event_strands_pending_witness:
  "\<exists>t. run (coalesce_step member_ops 10 5) (coalesce_start member_coalescer_new)
      [(3, Got_event (Ev_Member sample_member_join)),
       (4, Got_event (Ev_User \<lparr>ue_ltime = 3, ue_name = ''deploy'', ue_payload = [7], ue_cc = False\<rparr>))] t \<and>
    mc_latest_events (cl_c t) \<noteq> []"
  using passed_event_strands_pending [of sample_member_join
      "Ev_User \<lparr>ue_ltime = 3, ue_name = ''deploy'', ue_payload = [7], ue_cc = False\<rparr>" 10 5 3 4]
  by (auto simp: sample_member_join_def member_handle_def)

end
