(* ===== verification/Delegate.thy ===== *)
theory Delegate
  imports Membership User_Events Queries
begin

text \<open>
  The delegate through which memberlist drives an instance (\<open>serf/delegate.rs\<close>):
  the metadata of the local node, received packets, the broadcasts to
  piggyback, the push-pull exchange of states and the vetting of peers.

  The delegate holds a weak reference to the instance; the operations here are
  those of a live one. Decoding may panic (\<open>Decode_panic\<close>) or make no progress
  (\<open>Decode_hang\<close>); the handler has then no result.
\<close>

section \<open>The metadata of the node\<close>

text \<open>\<open>meta_max\<close> is \<open>Meta::MAX_SIZE\<close> of memberlist.\<close>

definition node_meta :: "('i, 'a) proto \<Rightarrow> nat \<Rightarrow> nat \<Rightarrow> tags \<Rightarrow> panic + bytes" where
  "node_meta P meta_max limit tgs =
     (if tgs \<noteq> [] then
        (let encoded_len = encoded_len_tags P tgs;
             limit = min limit meta_max
         in if limit < encoded_len then Inl Explicit_panic
            else case encode_tags P tgs (replicate encoded_len 0) of
              Inr (role_bytes, len) \<Rightarrow>
                if limit < len then Inl Explicit_panic
                else if meta_max < length role_bytes then Inl Unwrap_none
                else Inr role_bytes
            | Inl e \<Rightarrow> Inr [])
      else Inr [])"

section \<open>Received packets\<close>

definition no_decode_panic :: "decode_error + 'x \<Rightarrow> panic + (decode_error + 'x)" where
  "no_decode_panic r =
     (if r = Inl Decode_panic then Inl Index_out_of_bounds
      else if r = Inl Decode_hang then Inl No_progress else Inr r)"

datatype rebroadcast_queue = Intent_queue | Event_queue | Query_queue

fun queue_broadcast :: "rebroadcast_queue \<Rightarrow> bytes \<Rightarrow> ('i, 'a) serf \<Rightarrow> ('i, 'a) serf" where
  "queue_broadcast Intent_queue m = broadcast m False"
| "queue_broadcast Event_queue m = queue_event_broadcast m"
| "queue_broadcast Query_queue m = queue_query_broadcast m"

text \<open>A query of the instance itself is recognised by its name; one that does
  not decode is only logged.\<close>

definition dispatch_query ::
  "('i, 'a) proto \<Rightarrow> nat \<Rightarrow> (nat \<Rightarrow> u32) \<Rightarrow> ('i, 'a) query_message \<times> bytes option \<Rightarrow> ('i, 'a) serf
   \<Rightarrow> panic + bool \<times> ('i, 'a) serf" where
  "dispatch_query P now rnd q s =
     (let rq = \<lparr>rq_msg = fst q, rq_filters = Borrowed (filter_items P (snd q))\<rparr>;
          handle = (\<lambda>ty.
            bind_res (handle_query P now rnd rq ty s) (\<lambda>(r, s).
            map_res (\<lambda>r. (case r of Inr val \<Rightarrow> val | Inl e \<Rightarrow> False, s)) (no_decode_panic r)))
      in case decode_internal_query P (qm_name (fst q)) (qm_payload (fst q)) of
           Some (Inl e) \<Rightarrow> Inr (False, s)
         | Some (Inr ty) \<Rightarrow> handle (Some ty)
         | None \<Rightarrow> handle None)"

text \<open>
  The payload of a relayed message: of an owned packet it is cut out of the
  packet by its offset. Advancing or splitting beyond the end panics.
\<close>

definition relay_payload :: "bool \<Rightarrow> nat \<Rightarrow> bytes \<Rightarrow> bytes \<Rightarrow> panic + bytes" where
  "relay_payload owned offset payload buf =
     (if \<not> owned then Inr payload
      else if length buf < offset \<or> length (drop offset buf) < length payload then Inl Index_out_of_bounds
      else Inr (take (length payload) (drop offset buf)))"

fun dispatch_message ::
  "('i, 'a) proto \<Rightarrow> nat \<Rightarrow> (nat \<Rightarrow> u32) \<Rightarrow> ('i, 'a) message_ref \<Rightarrow> ('i, 'a) serf
   \<Rightarrow> panic + (bool \<times> rebroadcast_queue) \<times> ('i, 'a) serf" where
  "dispatch_message P now rnd (MR_Leave l) s =
     (let (b, s) = handle_node_leave_intent now l s in Inr ((b, Intent_queue), s))"
| "dispatch_message P now rnd (MR_Join j) s =
     (let (b, s) = handle_node_join_intent now j s in Inr ((b, Intent_queue), s))"
| "dispatch_message P now rnd (MR_UserEvent ue) s =
     map_res (\<lambda>(b, s). ((b, Event_queue), s)) (handle_user_event ue s)"
| "dispatch_message P now rnd (MR_Query q) s =
     map_res (\<lambda>(b, s). ((b, Query_queue), s)) (dispatch_query P now rnd q s)"
| "dispatch_message P now rnd (MR_QueryResponse qr) s =
     Inr ((False, Intent_queue), handle_query_response now qr s)"
| "dispatch_message P now rnd _ s = Inr ((False, Intent_queue), s)"

text \<open>\<open>owned\<close> tells whether memberlist hands over its buffer. A failed send of
  a relayed message is only logged.\<close>

definition notify_message ::
  "('i, 'a) proto \<Rightarrow> nat \<Rightarrow> (nat \<Rightarrow> u32) \<Rightarrow> bool \<Rightarrow> bytes \<Rightarrow> ('i, 'a) serf \<Rightarrow> panic + ('i, 'a) serf" where
  "notify_message P now rnd owned buf s =
     (if buf = [] then Inr s
      else bind_res (no_decode_panic (decode_message P buf)) (\<lambda>r.
        case r of
          Inl e \<Rightarrow> Inr s
        | Inr (MR_Relay node offset payload) \<Rightarrow>
            map_res (\<lambda>msg. ml_send (node_addr node) msg s) (relay_payload owned offset payload buf)
        | Inr msg \<Rightarrow>
            map_res (\<lambda>((rebroadcast, q), s). if rebroadcast then queue_broadcast q buf s else s)
              (dispatch_message P now rnd msg s)))"

section \<open>Broadcasts to piggyback\<close>

text \<open>
  \<open>get\<close> is \<open>get_broadcasts\<close> of memberlist's queue: the messages it gives out
  for a limit and what is left. The sizes the caller counts are those of
  \<open>encoded_len\<close>, a function it passes in.
\<close>

type_synonym get_broadcasts = "nat \<Rightarrow> serf_broadcast list \<Rightarrow> bytes list \<times> serf_broadcast list"

definition checked_limit :: "nat \<Rightarrow> nat \<Rightarrow> panic + nat" where
  "checked_limit limit used = (if limit < used then Inl Subtract_overflow else Inr (limit - used))"

definition broadcast_messages ::
  "get_broadcasts \<Rightarrow> nat \<Rightarrow> (bytes \<Rightarrow> nat) \<Rightarrow> ('i, 'a) serf \<Rightarrow> panic + bytes list \<times> ('i, 'a) serf" where
  "broadcast_messages get limit encoded_len s =
     (let (msgs, q) = get limit (sf_broadcasts s);
          s = s\<lparr>sf_broadcasts := q\<rparr>;
          used = sum_list (map encoded_len msgs)
      in bind_res (checked_limit limit used) (\<lambda>limit'.
           (let (query_msgs, q) = get limit' (sf_query_broadcasts s);
                s = s\<lparr>sf_query_broadcasts := q\<rparr>;
                used = used + sum_list (map encoded_len query_msgs)
            in map_res (\<lambda>limit'.
                 (let (event_msgs, q) = get limit' (sf_event_broadcasts s)
                  in (msgs @ query_msgs @ event_msgs, s\<lparr>sf_event_broadcasts := q\<rparr>)))
               (checked_limit limit used))))"

section \<open>Exchanging states\<close>

definition push_pull_of :: "('i, 'a) serf \<Rightarrow> 'i push_pull_message" where
  "push_pull_of s =
     \<lparr>pp_ltime = clock_time (sf_clock s),
      pp_status_ltimes =
        collect_map (map (\<lambda>(_, v). (ms_id v, ms_status_time v)) (states (sf_members s))),
      pp_left_members = collect_set (map ms_id (left_members (sf_members s))),
      pp_event_ltime = clock_time (sf_event_clock s),
      pp_events = List.map_filter (\<lambda>e. e) (ec_buffer (sf_event_core s)),
      pp_query_ltime = clock_time (sf_query_clock s)\<rparr>"

definition local_state :: "('i, 'a) proto \<Rightarrow> ('i, 'a) serf \<Rightarrow> bytes" where
  "local_state P s =
     (case message_to_bytes P (Msg_PushPull (push_pull_of s)) of Inr buf \<Rightarrow> buf | Inl e \<Rightarrow> [])"

definition witness_below :: "lamport_time \<Rightarrow> u64 \<Rightarrow> u64" where
  "witness_below t c = (if 0 < t then clock_witness (t - 1) c else c)"

definition witness_remote ::
  "lamport_time \<Rightarrow> lamport_time \<Rightarrow> lamport_time \<Rightarrow> ('i, 'a) serf \<Rightarrow> ('i, 'a) serf" where
  "witness_remote ltime event_ltime query_ltime s =
     s\<lparr>sf_clock := witness_below ltime (sf_clock s),
       sf_event_clock := witness_below event_ltime (sf_event_clock s),
       sf_query_clock := witness_below query_ltime (sf_query_clock s)\<rparr>"

definition merge_left_member ::
  "nat \<Rightarrow> ('i, lamport_time) hash_map \<Rightarrow> 'i \<Rightarrow> ('i, 'a) serf \<Rightarrow> ('i, 'a) serf" where
  "merge_left_member now status_ltimes node s =
     (case map_of status_ltimes node of
        Some ltime \<Rightarrow>
          snd (handle_node_leave_intent now \<lparr>lm_ltime = ltime + 1, lm_id = node, lm_prune = False\<rparr> s)
      | None \<Rightarrow> s)"

definition merge_status ::
  "nat \<Rightarrow> 'i list \<Rightarrow> 'i \<times> lamport_time \<Rightarrow> ('i, 'a) serf \<Rightarrow> ('i, 'a) serf" where
  "merge_status now left node_ltime s =
     (if fst node_ltime \<in> set left then s
      else snd (handle_node_join_intent now \<lparr>jm_ltime = snd node_ltime, jm_id = fst node_ltime\<rparr> s))"

definition merge_members ::
  "nat \<Rightarrow> 'i push_pull_message \<Rightarrow> ('i, 'a) serf \<Rightarrow> ('i, 'a) serf" where
  "merge_members now pp s =
     fold (merge_status now (pp_left_members pp)) (pp_status_ltimes pp)
       (fold (merge_left_member now (pp_status_ltimes pp)) (pp_left_members pp) s)"

definition ignore_old_events :: "bool \<Rightarrow> lamport_time \<Rightarrow> ('i, 'a) serf \<Rightarrow> ('i, 'a) serf" where
  "ignore_old_events is_join event_ltime s =
     (if is_join \<and> sf_event_join_ignore s \<and> ec_min_time (sf_event_core s) < event_ltime
      then s\<lparr>sf_event_core := (sf_event_core s)\<lparr>ec_min_time := event_ltime\<rparr>\<rparr> else s)"

definition remote_events :: "user_events list \<Rightarrow> user_event_message list" where
  "remote_events es =
     concat (map (\<lambda>evs. map (\<lambda>e. \<lparr>ue_ltime = evs_ltime evs, ue_name = ev_name e,
                                  ue_payload = ev_payload e, ue_cc = False\<rparr>) (evs_events evs)) es)"

fun merge_events :: "user_event_message list \<Rightarrow> ('i, 'a) serf \<Rightarrow> panic + ('i, 'a) serf" where
  "merge_events [] s = Inr s"
| "merge_events (m # ms) s = bind_res (handle_user_event m s) (\<lambda>(_, s). merge_events ms s)"

definition merge_push_pull ::
  "nat \<Rightarrow> bool \<Rightarrow> 'i push_pull_message \<Rightarrow> ('i, 'a) serf \<Rightarrow> panic + ('i, 'a) serf" where
  "merge_push_pull now is_join pp s =
     merge_events (remote_events (pp_events pp))
       (ignore_old_events is_join (pp_event_ltime pp) (merge_members now pp s))"

text \<open>The clocks are witnessed before the message is decoded in full.\<close>

definition merge_remote_state ::
  "('i, 'a) proto \<Rightarrow> nat \<Rightarrow> bytes \<Rightarrow> bool \<Rightarrow> ('i, 'a) serf \<Rightarrow> panic + ('i, 'a) serf" where
  "merge_remote_state P now buf is_join s =
     (if buf = [] then Inr s
      else bind_res (no_decode_panic (decode_message P buf)) (\<lambda>r.
        case r of
          Inr (MR_PushPull pp) \<Rightarrow>
            (let s = witness_remote (ppr_ltime pp) (ppr_event_ltime pp) (ppr_query_ltime pp) s
             in bind_res (no_decode_panic (push_pull_from_ref P pp)) (\<lambda>r.
                  case r of
                    Inr pp \<Rightarrow> merge_push_pull now is_join pp s
                  | Inl e \<Rightarrow> Inr s))
        | _ \<Rightarrow> Inr s))"

section \<open>Vetting peers\<close>

text \<open>What memberlist tells of a peer beyond its node and metadata.\<close>

record ('i, 'a) peer_state = "('i, 'a) node_state" +
  ns_is_left :: bool
  ns_ml_protocol_version :: u8
  ns_ml_delegate_version :: u8

definition node_to_member ::
  "('i, 'a) proto \<Rightarrow> nat \<Rightarrow> ('i, 'a) peer_state \<Rightarrow> serf_error + ('i, 'a) member" where
  "node_to_member P meta_max_size node =
     (let status = (if ns_is_left node then Left else Status_None);
          meta = ns_meta node
      in if meta_max_size < length meta then Inl (Tags_too_large (length meta))
         else
           (case (if meta \<noteq> [] then map_res snd (decode_tags P meta) else Inr []) of
              Inl e \<Rightarrow> Inl (Decode_failed e)
            | Inr tgs \<Rightarrow> Inr
                \<lparr>m_node = ns_node node, m_tags = tgs, m_status = status,
                 m_ml_protocol_version = ns_ml_protocol_version node,
                 m_ml_delegate_version = ns_ml_delegate_version node,
                 m_protocol_version = PV1, m_delegate_version = DV1\<rparr>))"

datatype 'e serf_delegate_error = Delegate_Merge 'e | Delegate_Serf serf_error

text \<open>\<open>d\<close> is the merge delegate of the application, if it has one.\<close>

type_synonym ('i, 'a, 'e) merge_delegate = "(('i, 'a) member list \<Rightarrow> 'e + unit) option"

fun map_error :: "('e \<Rightarrow> 'f) \<Rightarrow> 'e + 'x \<Rightarrow> 'f + 'x" where
  "map_error f (Inl e) = Inl (f e)"
| "map_error f (Inr x) = Inr x"

definition notify_merge ::
  "('i, 'a) proto \<Rightarrow> nat \<Rightarrow> ('i, 'a, 'e) merge_delegate \<Rightarrow> ('i, 'a) peer_state list
   \<Rightarrow> 'e serf_delegate_error + unit" where
  "notify_merge P meta_max_size d peers =
     (case d of
        Some notify \<Rightarrow>
          bind_res (map_error Delegate_Serf (mapM_res (node_to_member P meta_max_size) peers)) (\<lambda>ms.
          map_error Delegate_Merge (notify ms))
      | None \<Rightarrow> Inr ())"

definition notify_alive ::
  "('i, 'a) proto \<Rightarrow> nat \<Rightarrow> ('i, 'a, 'e) merge_delegate \<Rightarrow> ('i, 'a) peer_state
   \<Rightarrow> 'e serf_delegate_error + unit" where
  "notify_alive P meta_max_size d node =
     (case d of
        Some notify \<Rightarrow>
          bind_res (map_error Delegate_Serf (node_to_member P meta_max_size node)) (\<lambda>m.
          map_error Delegate_Merge (notify [m]))
      | None \<Rightarrow> Inr ())"

end
