(* ===== verification/Api.thy ===== *)
theory Api
  imports Delegate
begin

text \<open>
  The operations an application calls on an instance (\<open>serf/api.rs\<close>). Calls
  into memberlist are arguments: \<open>ml_join\<close> is what a join does to the instance
  through its delegate, and its result. Leaving and shutting down suspend in
  between; they are split where they do, and \<open>api_step\<close> interleaves the parts
  with whatever else the instance does.
\<close>

section \<open>Reading the instance\<close>

definition state_op :: "('i, 'a) serf \<Rightarrow> serf_state" where
  "state_op s = sf_state s"

definition members_op :: "('i, 'a) serf \<Rightarrow> ('i, 'a) member list" where
  "members_op s = map (\<lambda>(_, ms). ms_member ms) (states (sf_members s))"

definition num_members :: "('i, 'a) serf \<Rightarrow> nat" where
  "num_members s = length (states (sf_members s))"

definition local_member :: "('i, 'a) serf \<Rightarrow> panic + ('i, 'a) member" where
  "local_member s =
     (case map_of (states (sf_members s)) (local_id s) of
        Some ms \<Rightarrow> Inr (ms_member ms)
      | None \<Rightarrow> Inl Unwrap_none)"

record serf_stats =
  st_members :: nat
  st_failed :: nat
  st_left :: nat
  st_health_score :: nat
  st_member_time :: u64
  st_event_time :: u64
  st_query_time :: u64
  st_intent_queue :: nat
  st_event_queue :: nat
  st_query_queue :: nat
  st_encrypted :: bool
  st_coordinate_resets :: "nat option"

text \<open>The health score and the use of encryption are memberlist's.\<close>

definition stats :: "nat \<Rightarrow> bool \<Rightarrow> ('i, 'a) serf \<Rightarrow> serf_stats" where
  "stats health_score encrypted s =
     \<lparr>st_members = length (states (sf_members s)),
      st_failed = length (failed_members (sf_members s)),
      st_left = length (left_members (sf_members s)),
      st_health_score = health_score,
      st_member_time = clock_time (sf_clock s),
      st_event_time = clock_time (sf_event_clock s),
      st_query_time = clock_time (sf_query_clock s),
      st_intent_queue = length (sf_broadcasts s),
      st_event_queue = length (sf_event_broadcasts s),
      st_query_queue = length (sf_query_broadcasts s),
      st_encrypted = encrypted,
      st_coordinate_resets = map_option (\<lambda>cc. cl_resets (cc_client cc)) (sf_coord_core s)\<rparr>"

definition cooridate :: "('i, 'a) serf \<Rightarrow> serf_error + coordinate" where
  "cooridate s =
     (case sf_coord_core s of
        Some cc \<Rightarrow> Inr (get_coordinate (cc_client cc))
      | None \<Rightarrow> Inl Coordinates_disabled)"

definition cached_coordinate :: "'i \<Rightarrow> ('i, 'a) serf \<Rightarrow> serf_error + coordinate option" where
  "cached_coordinate nid s =
     (case sf_coord_core s of
        Some cc \<Rightarrow> Inr (map_of (cc_cache cc) nid)
      | None \<Rightarrow> Inl Coordinates_disabled)"

section \<open>Operations in one step\<close>

text \<open>\<open>updated\<close> tells whether memberlist has propagated the new metadata.\<close>

definition set_tags ::
  "('i, 'a) proto \<Rightarrow> nat \<Rightarrow> bool \<Rightarrow> tags \<Rightarrow> ('i, 'a) serf \<Rightarrow> (serf_error + unit) \<times> ('i, 'a) serf" where
  "set_tags P meta_max updated tgs s =
     (let tags_encoded_len = ld_len P (encoded_len_tags P tgs)
      in if meta_max < tags_encoded_len then (Inl (Tags_too_large tags_encoded_len), s)
         else (if updated then Inr () else Inl Memberlist_error,
               s\<lparr>sf_opts := (sf_opts s)\<lparr>op_tags := tgs\<rparr>\<rparr>))"

definition query_op ::
  "('i, 'a) proto \<Rightarrow> nat \<Rightarrow> (nat \<Rightarrow> u32) \<Rightarrow> nat \<Rightarrow> u32 \<Rightarrow> string \<Rightarrow> bytes \<Rightarrow> 'i query_param option
   \<Rightarrow> ('i, 'a) serf \<Rightarrow> panic + (serf_error + ('i, 'a) query_response) \<times> ('i, 'a) serf" where
  "query_op P now rnd online qid name payload params s =
     query_in P now rnd online qid name payload params None s"

definition remove_failed_node ::
  "('i, 'a) proto \<Rightarrow> nat \<Rightarrow> bool option \<Rightarrow> 'i \<Rightarrow> ('i, 'a) serf \<Rightarrow> (serf_error + unit) \<times> ('i, 'a) serf" where
  "remove_failed_node P now sent nid s = force_leave P now sent nid False s"

definition remove_failed_node_prune ::
  "('i, 'a) proto \<Rightarrow> nat \<Rightarrow> bool option \<Rightarrow> 'i \<Rightarrow> ('i, 'a) serf \<Rightarrow> (serf_error + unit) \<times> ('i, 'a) serf" where
  "remove_failed_node_prune P now sent nid s = force_leave P now sent nid True s"

section \<open>Joining\<close>

definition set_join_ignore :: "bool \<Rightarrow> ('i, 'a) serf \<Rightarrow> ('i, 'a) serf" where
  "set_join_ignore b s = s\<lparr>sf_event_join_ignore := b\<rparr>"

definition join ::
  "('i, 'a) proto \<Rightarrow> nat \<Rightarrow> (('i, 'a) serf \<Rightarrow> panic + (serf_error + 'a) \<times> ('i, 'a) serf) \<Rightarrow> bool
   \<Rightarrow> ('i, 'a) serf \<Rightarrow> panic + (serf_error + 'a) \<times> ('i, 'a) serf" where
  "join P now ml_join ignore_old s =
     (let current_state = state_op s;
          reset = (\<lambda>s. if ignore_old then set_join_ignore False s else s)
      in if current_state \<noteq> SerfAlive then Inr (Inl (Bad_join_status current_state), s)
         else
           bind_res (ml_join (if ignore_old then set_join_ignore True s else s)) (\<lambda>(r, s).
             case r of
               Inr node \<Rightarrow>
                 (case broadcast_join P now (clock_time (sf_clock s)) s of
                    (Inl e, s) \<Rightarrow> Inr (Inl e, reset s)
                  | (Inr _, s) \<Rightarrow> Inr (Inr node, reset s))
             | Inl e \<Rightarrow> Inr (Inl e, reset s)))"

text \<open>\<open>ml_join\<close> gives the nodes contacted and the error, if some were not.\<close>

definition join_many ::
  "('i, 'a) proto \<Rightarrow> nat \<Rightarrow> (('i, 'a) serf \<Rightarrow> panic + ('a list \<times> serf_error option) \<times> ('i, 'a) serf) \<Rightarrow> bool
   \<Rightarrow> ('i, 'a) serf \<Rightarrow> panic + ('a list \<times> serf_error option) \<times> ('i, 'a) serf" where
  "join_many P now ml_join ignore_old s =
     (let current_state = state_op s
      in if current_state \<noteq> SerfAlive then Inr (([], Some (Bad_join_status current_state)), s)
         else
           bind_res (ml_join (if ignore_old then set_join_ignore True s else s)) (\<lambda>((joined, err), s).
             case err of
               None \<Rightarrow>
                 (case broadcast_join P now (clock_time (sf_clock s)) s of
                    (Inl e, s) \<Rightarrow> Inr ((joined, Some e), set_join_ignore False s)
                  | (Inr _, s) \<Rightarrow> Inr ((joined, None), set_join_ignore False s))
             | Some err \<Rightarrow>
                 if joined \<noteq> [] then
                   (case broadcast_join P now (clock_time (sf_clock s)) s of
                      (Inl e, s) \<Rightarrow> Inr ((joined, Some (Multiple_errors err e)), set_join_ignore False s)
                    | (Inr _, s) \<Rightarrow> Inr ((joined, Some err), set_join_ignore False s))
                 else Inr ((joined, Some err), set_join_ignore False s)))"

section \<open>Leaving and shutting down\<close>

text \<open>Leaving: the check of the state, which either answers at once or lets the
  call go on, the announcement, and the end after the propagation delay.\<close>

definition leave_begin :: "('i, 'a) serf \<Rightarrow> (serf_error + unit) option \<times> ('i, 'a) serf" where
  "leave_begin s =
     (case sf_state s of
        SerfLeft \<Rightarrow> (Some (Inr ()), s)
      | SerfLeaving \<Rightarrow> (Some (Inl (Bad_leave_status SerfLeaving)), s)
      | SerfShutdown \<Rightarrow> (Some (Inl (Bad_leave_status SerfShutdown)), s)
      | SerfAlive \<Rightarrow> (None, s\<lparr>sf_state := SerfLeaving\<rparr>))"

definition leave_announce ::
  "('i, 'a) proto \<Rightarrow> nat \<Rightarrow> ('i, 'a) serf \<Rightarrow> (serf_error + unit) \<times> ('i, 'a) serf" where
  "leave_announce P now s =
     (let msg = \<lparr>lm_ltime = clock_time (sf_clock s), lm_id = local_id s, lm_prune = False\<rparr>;
          s = s\<lparr>sf_clock := snd (clock_increment (sf_clock s))\<rparr>;
          s = snd (handle_node_leave_intent now msg s)
      in if has_alive_members s then
           (case message_to_bytes P (Msg_Leave msg) of
              Inl e \<Rightarrow> (Inl (Encode_failed e), s)
            | Inr raw \<Rightarrow> (Inr (), broadcast raw True s))
         else (Inr (), s))"

definition leave_finish :: "('i, 'a) serf \<Rightarrow> ('i, 'a) serf" where
  "leave_finish s = (case sf_state s of SerfShutdown \<Rightarrow> s | _ \<Rightarrow> s\<lparr>sf_state := SerfLeft\<rparr>)"

definition shutdown_begin :: "('i, 'a) serf \<Rightarrow> (serf_error + unit) option \<times> ('i, 'a) serf" where
  "shutdown_begin s =
     (case sf_state s of
        SerfShutdown \<Rightarrow> (Some (Inr ()), s)
      | _ \<Rightarrow> (None, s\<lparr>sf_state := SerfShutdown\<rparr>))"

end
