(* ===== verification/Internal_Queries.thy ===== *)
theory Internal_Queries
  imports Api
begin

text \<open>
  The queries an instance asks and answers itself. \<open>serf/internal_query.rs\<close>
  takes them out of the event stream, answers a question about a name conflict
  and the four about the keyring; \<open>serf/base.rs\<close> asks about its own name when
  it is told of a conflict and counts the votes; it also re-joins the nodes a
  snapshot knows and trims the broadcast queues.

  The keyring is memberlist's: its operations are the record \<open>keyring\<close>. How
  the system answers when the file of the keyring is written is the argument
  \<open>io\<close>, which on failure says what the file is left with, and \<open>sent\<close> tells
  whether memberlist accepts the packet of an answer.
\<close>

section \<open>Text of the messages\<close>

function decimal :: "nat \<Rightarrow> string" where
  "decimal n = (if n < 10 then [char_of (48 + n)] else decimal (n div 10) @ [char_of (48 + n mod 10)])"
  by pat_completeness auto
termination
  by (relation "measure id") auto

declare decimal.simps [simp del]

fun message_type_as_str :: "message_type \<Rightarrow> string" where
  "message_type_as_str MT_Leave = ''leave''"
| "message_type_as_str MT_Join = ''join''"
| "message_type_as_str MT_PushPull = ''push_pull''"
| "message_type_as_str MT_UserEvent = ''user_event''"
| "message_type_as_str MT_Query = ''query''"
| "message_type_as_str MT_QueryResponse = ''query_response''"
| "message_type_as_str MT_ConflictResponse = ''conflict_response''"
| "message_type_as_str MT_Relay = ''relay''"
| "message_type_as_str MT_KeyRequest = ''key_request''"
| "message_type_as_str MT_KeyResponse = ''key_response''"
| "message_type_as_str (MT_Unknown val) = ''unknown('' @ decimal (unat val) @ '')''"

fun message_ref_ty :: "('i, 'a) message_ref \<Rightarrow> message_type" where
  "message_ref_ty (MR_Leave _) = MT_Leave"
| "message_ref_ty (MR_Join _) = MT_Join"
| "message_ref_ty (MR_PushPull _) = MT_PushPull"
| "message_ref_ty (MR_UserEvent _) = MT_UserEvent"
| "message_ref_ty (MR_Query _) = MT_Query"
| "message_ref_ty (MR_QueryResponse _) = MT_QueryResponse"
| "message_ref_ty (MR_ConflictResponse _) = MT_ConflictResponse"
| "message_ref_ty (MR_Relay _ _ _) = MT_Relay"
| "message_ref_ty (MR_KeyRequest _) = MT_KeyRequest"
| "message_ref_ty (MR_KeyResponse _) = MT_KeyResponse"

section \<open>The event stream\<close>

text \<open>What the routine does with an event: answer it, pass it on, or drop it
  when nobody listens.\<close>

datatype ('i, 'a) routed =
    Answer "'i internal_query_event" "('i, 'a) query_event"
  | Pass "('i, 'a) crate_event"
  | Dropped

definition queries_stream :: "bool \<Rightarrow> ('i, 'a) crate_event \<Rightarrow> ('i, 'a) routed" where
  "queries_stream listening ev =
     (case ev of
        Ev_InternalQuery kind q \<Rightarrow> Answer kind q
      | _ \<Rightarrow> if listening then Pass ev else Dropped)"

text \<open>\<open>EventSubscriber::try_recv\<close>: internal queries that reach the application's
  channel are skipped.\<close>

fun subscriber_try_recv ::
  "('i, 'a) crate_event list \<Rightarrow> ('i, 'a) crate_event option \<times> ('i, 'a) crate_event list" where
  "subscriber_try_recv [] = (None, [])"
| "subscriber_try_recv (Ev_InternalQuery _ _ # rx) = subscriber_try_recv rx"
| "subscriber_try_recv (ev # rx) = (Some ev, rx)"

text \<open>\<open>poll_next\<close> of the same subscriber takes one event off the channel; it
  reports an internal query as nothing ready.\<close>

datatype 'x poll = Pending | Ready "'x option"

definition subscriber_poll_next ::
  "bool \<Rightarrow> ('i, 'a) crate_event list \<Rightarrow> ('i, 'a) crate_event poll \<times> ('i, 'a) crate_event list" where
  "subscriber_poll_next closed rx =
     (case rx of
        [] \<Rightarrow> (if closed then Ready None else Pending, [])
      | Ev_InternalQuery _ _ # rx \<Rightarrow> (Pending, rx)
      | ev # rx \<Rightarrow> (Ready (Some ev), rx))"

section \<open>Name conflicts: answering\<close>

text \<open>The answer to a question about a node: none if it is about us, the member
  if it is known, an empty payload otherwise.\<close>

definition handle_conflict ::
  "('i, 'a) proto \<Rightarrow> (nat \<Rightarrow> u32) \<Rightarrow> nat \<Rightarrow> bool \<Rightarrow> 'i \<Rightarrow> ('i, 'a) query_event \<Rightarrow> query_context
   \<Rightarrow> ('i, 'a) serf \<Rightarrow> query_context \<times> ('i, 'a) serf" where
  "handle_conflict P rnd now sent conflict ev ctx s =
     (if conflict = local_id s then (ctx, s)
      else case map_of (states (sf_members s)) conflict of
        Some state \<Rightarrow>
          (case message_to_bytes P (Msg_ConflictResponse (ms_member state)) of
             Inr raw \<Rightarrow> snd (respond P rnd now sent ev raw ctx s)
           | Inl e \<Rightarrow> (ctx, s))
      | None \<Rightarrow> snd (respond P rnd now sent ev [] ctx s))"

section \<open>Name conflicts: asking\<close>

definition handle_node_conflict ::
  "('i, 'a) node \<Rightarrow> ('i, 'a) serf \<Rightarrow> ('i, 'a) serf" where
  "handle_node_conflict existing s =
     (if node_id existing \<noteq> local_id s then s
      else if op_enable_id_conflict_resolution (sf_opts s) then spawn_task Task_ResolveConflict s
      else s)"

definition internal_query ::
  "('i, 'a) proto \<Rightarrow> nat \<Rightarrow> (nat \<Rightarrow> u32) \<Rightarrow> nat \<Rightarrow> u32 \<Rightarrow> string \<Rightarrow> bytes \<Rightarrow> 'i query_param option
   \<Rightarrow> 'i internal_query_event \<Rightarrow> ('i, 'a) serf
   \<Rightarrow> panic + (serf_error + ('i, 'a) query_response) \<times> ('i, 'a) serf" where
  "internal_query P now rnd online qid name payload params ty s =
     query_in P now rnd online qid name payload params (Some ty) s"

text \<open>Asking: \<open>encoded\<close> is memberlist's encoding of the local id. Without a
  collector the resolution ends.\<close>

definition resolve_node_conflict_ask ::
  "('i, 'a) proto \<Rightarrow> nat \<Rightarrow> (nat \<Rightarrow> u32) \<Rightarrow> nat \<Rightarrow> u32 \<Rightarrow> encode_error + bytes \<Rightarrow> ('i, 'a) serf
   \<Rightarrow> panic + ('i, 'a) query_response option \<times> ('i, 'a) serf" where
  "resolve_node_conflict_ask P now rnd online qid encoded s =
     (case encoded of
        Inl e \<Rightarrow> Inr (None, s)
      | Inr payload \<Rightarrow>
          (let ty = IQ_Conflict (local_id s)
           in map_res (\<lambda>(r, s). (case r of Inr resp \<Rightarrow> Some resp | Inl e \<Rightarrow> None, s))
                (internal_query P now rnd online qid (internal_query_as_str ty) payload None ty s)))"

text \<open>Counting the votes received until the query closes. \<open>from_ref\<close> is the
  conversion of the borrowed address of an answer, which can fail.\<close>

fun count_votes ::
  "('i, 'a) proto \<Rightarrow> ('a \<Rightarrow> decode_error + 'a) \<Rightarrow> 'a \<Rightarrow> ('i, 'a) node_response list \<Rightarrow> nat \<times> nat \<Rightarrow> panic + nat \<times> nat" where
  "count_votes P from_ref addr [] n = Inr n"
| "count_votes P from_ref addr (r # rs) (responses, matching) =
     bind_res (no_decode_panic (decode_message P (nr_payload r))) (\<lambda>res.
       case res of
         Inr (MR_ConflictResponse (m, _)) \<Rightarrow>
           count_votes P from_ref addr rs
             (responses + 1, if from_ref (node_addr (m_node m)) = Inr addr then matching + 1 else matching)
       | _ \<Rightarrow> count_votes P from_ref addr rs (responses, matching))"

definition resolve_node_conflict_decide ::
  "('i, 'a) proto \<Rightarrow> ('a \<Rightarrow> decode_error + 'a) \<Rightarrow> ('i, 'a) node_response list \<Rightarrow> ('i, 'a) serf \<Rightarrow> panic + ('i, 'a) serf" where
  "resolve_node_conflict_decide P from_ref rs s =
     bind_res (count_votes P from_ref (node_addr (sf_local s)) rs (0, 0)) (\<lambda>(responses, matching).
       (let majority = responses div 2 + 1
        in if majority \<le> matching then Inr s else Inr (snd (shutdown_begin s))))"

section \<open>The keyring\<close>

text \<open>Memberlist's keyring \<open>'r\<close> and the messages of its errors.\<close>

record 'r keyring =
  kg_insert :: "secret_key \<Rightarrow> 'r \<Rightarrow> 'r"
  kg_use_key :: "secret_key \<Rightarrow> 'r \<Rightarrow> string + 'r"
  kg_remove :: "secret_key \<Rightarrow> 'r \<Rightarrow> string + 'r"
  kg_keys :: "'r \<Rightarrow> secret_key list"
  kg_primary_key :: "'r \<Rightarrow> secret_key"
  kg_to_base64 :: "secret_key \<Rightarrow> string"

text \<open>
  The state the key handlers work on: the instance, the keyring of its
  memberlist, and the file it is saved in: \<open>None\<close> when none is configured,
  otherwise the keys it lists.
\<close>

record ('i, 'a, 'r) keyed =
  ky_serf :: "('i, 'a) serf"
  ky_ring :: "'r option"
  ky_file :: "string list option"

definition write_keyring_file ::
  "'r keyring \<Rightarrow> (string \<times> string list) + unit \<Rightarrow> ('i, 'a, 'r) keyed \<Rightarrow> (string + unit) \<times> ('i, 'a, 'r) keyed" where
  "write_keyring_file K io k =
     (case ky_file k of
        None \<Rightarrow> (Inr (), k)
      | Some _ \<Rightarrow>
          (case ky_ring k of
             Some keyring \<Rightarrow>
               (case io of
                  Inr _ \<Rightarrow> (Inr (), k\<lparr>ky_file := Some (map (kg_to_base64 K) (kg_keys K keyring))\<rparr>)
                | Inl (e, left) \<Rightarrow> (Inl e, k\<lparr>ky_file := Some left\<rparr>))
           | None \<Rightarrow> (Inr (), k)))"

section \<open>Answering a key query\<close>

definition key_response_default :: key_response_message where
  "key_response_default = \<lparr>kr_result = False, kr_message = [], kr_keys = [], kr_primary_key = None\<rparr>"

definition create_response ::
  "('i, 'a) query_event \<Rightarrow> bytes \<Rightarrow> ('i, 'a) serf \<Rightarrow> ('i, 'a) query_response_message" where
  "create_response q buf s =
     \<lparr>qr_ltime = qe_ltime q, qr_id = qe_id q, qr_from = sf_local s, qr_flags = 0, qr_payload = buf\<rparr>"

definition min_encoded_key_length :: nat where
  "min_encoded_key_length = 25"

definition truncated_message :: "nat \<Rightarrow> nat \<Rightarrow> string" where
  "truncated_message i actual =
     ''truncated key list response, showing first '' @ decimal i @ '' of '' @ decimal actual @ '' keys''"

text \<open>The loop over \<open>i\<close> from the estimate down to 0. Draining from beyond the
  end of the list would panic.\<close>

fun shrink_key_list ::
  "('i, 'a) proto \<Rightarrow> ('i, 'a) query_event \<Rightarrow> ('i, 'a) serf \<Rightarrow> nat \<Rightarrow> nat \<Rightarrow> key_response_message
   \<Rightarrow> panic + (serf_error + bytes \<times> ('i, 'a) query_response_message)" where
  "shrink_key_list P q s actual i resp =
     (case message_to_bytes P (Msg_KeyResponse resp :: ('i, 'a) message) of
        Inl e \<Rightarrow> Inr (Inl (Encode_failed e))
      | Inr kraw \<Rightarrow>
          (let qresp = create_response q kraw s;
               encoded_len = encoded_message_len P (encoded_len_query_response P qresp)
           in case check_response_size encoded_len s of
                Inr _ \<Rightarrow>
                  (case message_to_bytes P (Msg_QueryResponse qresp) of
                     Inl e \<Rightarrow> Inr (Inl (Encode_failed e))
                   | Inr qraw \<Rightarrow> Inr (Inr (qraw, qresp)))
              | Inl _ \<Rightarrow>
                  if length (kr_keys resp) < i then Inl Index_out_of_bounds
                  else
                    (let resp = resp\<lparr>kr_keys := take i (kr_keys resp),
                                      kr_message := truncated_message i actual\<rparr>
                     in case i of
                          0 \<Rightarrow> Inr (Inl Fail_truncate_response)
                        | Suc j \<Rightarrow> shrink_key_list P q s actual j resp)))"

declare shrink_key_list.simps [simp del]

definition key_list_response_with_correct_size ::
  "('i, 'a) proto \<Rightarrow> ('i, 'a) query_event \<Rightarrow> key_response_message \<Rightarrow> ('i, 'a) serf
   \<Rightarrow> panic + (serf_error + bytes \<times> ('i, 'a) query_response_message)" where
  "key_list_response_with_correct_size P q resp s =
     (let actual = length (kr_keys resp);
          max_list_keys = min (op_query_response_size_limit (sf_opts s) div min_encoded_key_length) actual
      in shrink_key_list P q s actual max_list_keys resp)"

definition send_key_response ::
  "('i, 'a) proto \<Rightarrow> (nat \<Rightarrow> u32) \<Rightarrow> nat \<Rightarrow> bool \<Rightarrow> ('i, 'a) query_event \<Rightarrow> key_response_message
   \<Rightarrow> query_context \<Rightarrow> ('i, 'a) serf \<Rightarrow> panic + query_context \<times> ('i, 'a) serf" where
  "send_key_response P rnd now sent q resp ctx s =
     (if qe_name q = ''_serf_list_keys'' then
        map_res (\<lambda>r. case r of
            Inl e \<Rightarrow> (ctx, s)
          | Inr (raw, qresp) \<Rightarrow>
              snd (respond_with_message_and_response P rnd now sent (node_addr (qe_from q))
                     (qe_relay_factor q) raw qresp ctx s))
          (key_list_response_with_correct_size P q resp s)
      else case message_to_bytes P (Msg_KeyResponse resp :: ('i, 'a) message) of
        Inr raw \<Rightarrow> Inr (snd (respond P rnd now sent q raw ctx s))
      | Inl e \<Rightarrow> Inr (ctx, s))"

text \<open>The request of a key query, \<open>None\<close> if the payload is something else.\<close>

definition key_request_of ::
  "('i, 'a) proto \<Rightarrow> bytes \<Rightarrow> panic + secret_key option option" where
  "key_request_of P payload =
     map_res (\<lambda>r. case r of Inr (MR_KeyRequest req) \<Rightarrow> Some req | _ \<Rightarrow> None)
       (no_decode_panic (decode_message P payload))"

definition reply_key ::
  "('i, 'a) proto \<Rightarrow> (nat \<Rightarrow> u32) \<Rightarrow> nat \<Rightarrow> bool \<Rightarrow> ('i, 'a) query_event \<Rightarrow> query_context
   \<Rightarrow> key_response_message \<Rightarrow> ('i, 'a, 'r) keyed \<Rightarrow> panic + query_context \<times> ('i, 'a, 'r) keyed" where
  "reply_key P rnd now sent q ctx resp k =
     map_res (\<lambda>(ctx, s). (ctx, k\<lparr>ky_serf := s\<rparr>))
       (send_key_response P rnd now sent q resp ctx (ky_serf k))"

section \<open>The key handlers\<close>

definition handle_install_key ::
  "('i, 'a) proto \<Rightarrow> 'r keyring \<Rightarrow> (nat \<Rightarrow> u32) \<Rightarrow> nat \<Rightarrow> bool \<Rightarrow> bool \<Rightarrow> (string \<times> string list) + unit
   \<Rightarrow> ('i, 'a) query_event \<Rightarrow> query_context \<Rightarrow> ('i, 'a, 'r) keyed
   \<Rightarrow> panic + query_context \<times> ('i, 'a, 'r) keyed" where
  "handle_install_key P K rnd now sent encryption_enabled io q ctx k =
     (let response = key_response_default;
          reply = reply_key P rnd now sent q ctx
      in bind_res (key_request_of P (qe_payload q)) (\<lambda>r.
           case r of
             None \<Rightarrow> reply response k
           | Some req \<Rightarrow>
               if \<not> encryption_enabled
                 then reply (response\<lparr>kr_message := ''encryption is not enabled''\<rparr>) k
               else case ky_ring k of
                 None \<Rightarrow> reply (response\<lparr>kr_message := ''encryption enabled but keyring is empty''\<rparr>) k
               | Some kr \<Rightarrow>
                   (case req of
                      None \<Rightarrow> Inl Unwrap_none
                    | Some key \<Rightarrow>
                        (let k = k\<lparr>ky_ring := Some (kg_insert K key kr)\<rparr>
                         in case write_keyring_file K io k of
                              (Inl e, k) \<Rightarrow> reply (response\<lparr>kr_message := e\<rparr>) k
                            | (Inr _, k) \<Rightarrow> reply (response\<lparr>kr_result := True\<rparr>) k))))"

definition handle_use_key ::
  "('i, 'a) proto \<Rightarrow> 'r keyring \<Rightarrow> (nat \<Rightarrow> u32) \<Rightarrow> nat \<Rightarrow> bool \<Rightarrow> bool \<Rightarrow> (string \<times> string list) + unit
   \<Rightarrow> ('i, 'a) query_event \<Rightarrow> query_context \<Rightarrow> ('i, 'a, 'r) keyed
   \<Rightarrow> panic + query_context \<times> ('i, 'a, 'r) keyed" where
  "handle_use_key P K rnd now sent encryption_enabled io q ctx k =
     (let response = key_response_default;
          reply = reply_key P rnd now sent q ctx
      in bind_res (key_request_of P (qe_payload q)) (\<lambda>r.
           case r of
             None \<Rightarrow> reply response k
           | Some req \<Rightarrow>
               if \<not> encryption_enabled
                 then reply (response\<lparr>kr_message := ''encryption is not enabled''\<rparr>) k
               else case ky_ring k of
                 None \<Rightarrow> reply (response\<lparr>kr_message := ''encryption enabled but keyring is empty''\<rparr>) k
               | Some kr \<Rightarrow>
                   (case req of
                      None \<Rightarrow> Inl Unwrap_none
                    | Some key \<Rightarrow>
                        (case kg_use_key K key kr of
                           Inl e \<Rightarrow> reply (response\<lparr>kr_message := e\<rparr>) k
                         | Inr kr \<Rightarrow>
                             (let k = k\<lparr>ky_ring := Some kr\<rparr>
                              in case write_keyring_file K io k of
                                   (Inl e, k) \<Rightarrow> reply (response\<lparr>kr_message := e\<rparr>) k
                                 | (Inr _, k) \<Rightarrow> reply (response\<lparr>kr_result := True\<rparr>) k)))))"

definition handle_remove_key ::
  "('i, 'a) proto \<Rightarrow> 'r keyring \<Rightarrow> (nat \<Rightarrow> u32) \<Rightarrow> nat \<Rightarrow> bool \<Rightarrow> bool \<Rightarrow> (string \<times> string list) + unit
   \<Rightarrow> ('i, 'a) query_event \<Rightarrow> query_context \<Rightarrow> ('i, 'a, 'r) keyed
   \<Rightarrow> panic + query_context \<times> ('i, 'a, 'r) keyed" where
  "handle_remove_key P K rnd now sent encryption_enabled io q ctx k =
     (let response = key_response_default;
          reply = reply_key P rnd now sent q ctx
      in bind_res (key_request_of P (qe_payload q)) (\<lambda>r.
           case r of
             None \<Rightarrow> reply response k
           | Some req \<Rightarrow>
               if \<not> encryption_enabled
                 then reply (response\<lparr>kr_message := ''encryption is not enabled''\<rparr>) k
               else case ky_ring k of
                 None \<Rightarrow> reply (response\<lparr>kr_message := ''encryption enabled but keyring is empty''\<rparr>) k
               | Some kr \<Rightarrow>
                   (case req of
                      None \<Rightarrow> Inl Unwrap_none
                    | Some key \<Rightarrow>
                        (case kg_remove K key kr of
                           Inl e \<Rightarrow> reply (response\<lparr>kr_message := e\<rparr>) k
                         | Inr kr \<Rightarrow>
                             (let k = k\<lparr>ky_ring := Some kr\<rparr>
                              in case write_keyring_file K io k of
                                   (Inl e, k) \<Rightarrow> reply (response\<lparr>kr_message := e\<rparr>) k
                                 | (Inr _, k) \<Rightarrow> reply (response\<lparr>kr_result := True\<rparr>) k)))))"

definition handle_list_keys ::
  "('i, 'a) proto \<Rightarrow> 'r keyring \<Rightarrow> (nat \<Rightarrow> u32) \<Rightarrow> nat \<Rightarrow> bool \<Rightarrow> bool
   \<Rightarrow> ('i, 'a) query_event \<Rightarrow> query_context \<Rightarrow> ('i, 'a, 'r) keyed
   \<Rightarrow> panic + query_context \<times> ('i, 'a, 'r) keyed" where
  "handle_list_keys P K rnd now sent encryption_enabled q ctx k =
     (let response = key_response_default;
          reply = reply_key P rnd now sent q ctx
      in if \<not> encryption_enabled
           then reply (response\<lparr>kr_message := ''encryption is not enabled''\<rparr>) k
         else case ky_ring k of
           Some kr \<Rightarrow>
             reply (response\<lparr>kr_keys := kg_keys K kr, kr_primary_key := Some (kg_primary_key K kr),
                             kr_result := True\<rparr>) k
         | None \<Rightarrow> reply (response\<lparr>kr_message := ''encryption enabled but keyring is empty''\<rparr>) k)"

definition handle_internal_query ::
  "('i, 'a) proto \<Rightarrow> 'r keyring \<Rightarrow> (nat \<Rightarrow> u32) \<Rightarrow> nat \<Rightarrow> bool \<Rightarrow> bool \<Rightarrow> (string \<times> string list) + unit
   \<Rightarrow> 'i internal_query_event \<Rightarrow> ('i, 'a) query_event \<Rightarrow> query_context \<Rightarrow> ('i, 'a, 'r) keyed
   \<Rightarrow> panic + query_context \<times> ('i, 'a, 'r) keyed" where
  "handle_internal_query P K rnd now sent encryption_enabled io kind q ctx k =
     (case kind of
        IQ_Ping \<Rightarrow> Inr (ctx, k)
      | IQ_Conflict conflict \<Rightarrow>
          (let (ctx, s) = handle_conflict P rnd now sent conflict q ctx (ky_serf k)
           in Inr (ctx, k\<lparr>ky_serf := s\<rparr>))
      | IQ_InstallKey \<Rightarrow> handle_install_key P K rnd now sent encryption_enabled io q ctx k
      | IQ_UseKey \<Rightarrow> handle_use_key P K rnd now sent encryption_enabled io q ctx k
      | IQ_RemoveKey \<Rightarrow> handle_remove_key P K rnd now sent encryption_enabled io q ctx k
      | IQ_ListKey \<Rightarrow> handle_list_keys P K rnd now sent encryption_enabled q ctx k)"

section \<open>Rejoining and trimming the queues\<close>

text \<open>\<open>ml_join\<close> is memberlist's join of an address. The nodes are tried in
  order, without the local one, until one answers.\<close>

fun handle_rejoin ::
  "('a \<Rightarrow> ('i, 'a) serf \<Rightarrow> panic + bool \<times> ('i, 'a) serf) \<Rightarrow> 'i \<Rightarrow> ('i, 'a) node list \<Rightarrow> ('i, 'a) serf
   \<Rightarrow> panic + bool \<times> ('i, 'a) serf" where
  "handle_rejoin ml_join loc [] s = Inr (False, s)"
| "handle_rejoin ml_join loc (prev # alive_nodes) s =
     (if node_id prev = loc then handle_rejoin ml_join loc alive_nodes s
      else bind_res (ml_join (node_addr prev) s) (\<lambda>(ok, s).
        if ok then Inr (True, s) else handle_rejoin ml_join loc alive_nodes s))"

text \<open>A tick of the checker of one queue; \<open>prune\<close> is memberlist's.\<close>

definition check_queue ::
  "(nat \<Rightarrow> serf_broadcast list \<Rightarrow> serf_broadcast list) \<Rightarrow> ('i, 'a) serf
   \<Rightarrow> serf_broadcast list \<Rightarrow> serf_broadcast list" where
  "check_queue prune s queue =
     (let numq = length queue;
          max = get_queue_max s
      in if max \<le> numq then prune max queue else queue)"

end
