(* ===== verification/Delegate_Facts.thy ===== *)
theory Delegate_Facts
  imports Delegate Intents Query_Facts
begin

text \<open>
  What the operations of the delegate do: merging a remote state is delivering
  one intent per member the remote node knows, and everything memberlist calls
  keeps the invariant of the instance.
\<close>

section \<open>The effect of an intent on a member\<close>

fun intent_view :: "'i intent \<Rightarrow> member_status \<times> lamport_time \<Rightarrow> member_status \<times> lamport_time" where
  "intent_view (Join_intent m) (st, t) =
     (if t < jm_ltime m then (if st = Leaving then Alive else st, jm_ltime m) else (st, t))"
| "intent_view (Leave_intent m) (st, t) =
     (if t < lm_ltime m
      then (case st of Status_None \<Rightarrow> Status_None | Left \<Rightarrow> Left | Failed \<Rightarrow> Left | _ \<Rightarrow> Leaving, lm_ltime m)
      else (st, t))"

lemma deliver_view:
  assumes "member_view i s = Some v" "intent_id m = i" "\<not> intent_prunes m" "no_refute i s"
  shows "member_view i (snd (deliver now m s)) = Some (intent_view m v)"
  using assms
  by (cases m; cases v)
    (auto simp: member_view_def handle_node_join_intent_def handle_node_leave_intent_def
      leave_transition_def maybe_prune_def no_refute_def Let_def split: member_status.split)

lemma deliver_other:
  assumes "intent_id m \<noteq> i" "\<not> intent_prunes m"
  shows "member_view i (snd (deliver now m s)) = member_view i s"
  using assms
  by (cases m)
    (auto simp: member_view_def handle_node_join_intent_def handle_node_leave_intent_def
      leave_transition_def maybe_prune_def Let_def split: option.split prod.split member_status.split)

lemma deliver_all_view:
  assumes "member_view i s = Some v" "no_refute i s" "list_all (\<lambda>m. \<not> intent_prunes (snd m)) ms"
  shows "member_view i (deliver_all ms s) =
    Some (fold intent_view (filter (\<lambda>m. intent_id m = i) (map snd ms)) v)"
  using assms
proof (induction ms arbitrary: s v)
  case (Cons nm ms)
  obtain now m where nm: "nm = (now, m)" by fastforce
  have np: "\<not> intent_prunes m" using Cons.prems(3) nm by simp
  have "no_refute i (snd (deliver now m s))"
    using Cons.prems(2) deliver_frame [OF np, of now s] by (simp add: no_refute_def)
  then show ?case
    using Cons.IH [of "snd (deliver now m s)"] Cons.prems deliver_view [OF Cons.prems(1) _ np Cons.prems(2)]
      deliver_other [OF _ np, of i now s] nm
    by (cases "intent_id m = i") auto
qed simp

lemma deliver_all_append: "deliver_all (xs @ ys) s = deliver_all ys (deliver_all xs s)"
  by (induction xs s rule: deliver_all.induct) simp_all

section \<open>Merging the members of a remote state\<close>

definition left_intent :: "('i, lamport_time) hash_map \<Rightarrow> 'i \<Rightarrow> 'i intent" where
  "left_intent ts i = Leave_intent \<lparr>lm_ltime = the (map_of ts i) + 1, lm_id = i, lm_prune = False\<rparr>"

definition status_intent :: "'i \<times> lamport_time \<Rightarrow> 'i intent" where
  "status_intent nl = Join_intent \<lparr>jm_ltime = snd nl, jm_id = fst nl\<rparr>"

lemma pull_intent_simps [simp]:
  "intent_id (left_intent ts i) = i" "\<not> intent_prunes (left_intent ts i)"
  "intent_ltime (left_intent ts i) = the (map_of ts i) + 1"
  "intent_id (status_intent nl) = fst nl" "\<not> intent_prunes (status_intent nl)"
  "intent_ltime (status_intent nl) = snd nl"
  by (simp_all add: left_intent_def status_intent_def)

definition pull_intents :: "'i push_pull_message \<Rightarrow> 'i intent list" where
  "pull_intents pp =
     map (left_intent (pp_status_ltimes pp))
       (filter (\<lambda>i. map_of (pp_status_ltimes pp) i \<noteq> None) (pp_left_members pp)) @
     map status_intent (filter (\<lambda>nl. fst nl \<notin> set (pp_left_members pp)) (pp_status_ltimes pp))"

lemma fold_merge_left:
  "fold (merge_left_member now ts) ls s =
   deliver_all (map (Pair now) (map (left_intent ts) (filter (\<lambda>i. map_of ts i \<noteq> None) ls))) s"
  by (induction ls arbitrary: s) (auto simp: merge_left_member_def left_intent_def split: option.split)

lemma fold_merge_status:
  "fold (merge_status now ls) ts s =
   deliver_all (map (Pair now) (map status_intent (filter (\<lambda>nl. fst nl \<notin> set ls) ts))) s"
  by (induction ts arbitrary: s) (auto simp: merge_status_def status_intent_def)

lemma merge_members_deliver: "merge_members now pp s = deliver_all (map (Pair now) (pull_intents pp)) s"
  by (simp only: merge_members_def fold_merge_left fold_merge_status pull_intents_def map_append deliver_all_append)

lemma pull_intents_no_prune: "list_all (\<lambda>m. \<not> intent_prunes (snd m)) (map (Pair now) (pull_intents pp))"
  by (auto simp: list_all_iff pull_intents_def)

lemma filter_key_unique:
  "distinct (map k xs) \<Longrightarrow> x \<in> set xs \<Longrightarrow> filter (\<lambda>y. k y = k x) xs = [x]"
proof (induction xs)
  case (Cons a xs)
  then show ?case
    by (cases "x = a") (auto simp: filter_empty_conv image_iff)
qed simp

lemma filter_map_intent:
  "filter (\<lambda>m. intent_id m = i) (map (left_intent ts) ls) = map (left_intent ts) (filter (\<lambda>j. j = i) ls)"
  "filter (\<lambda>m. intent_id m = i) (map status_intent nls) = map status_intent (filter (\<lambda>nl. fst nl = i) nls)"
  by (simp_all add: filter_map comp_def)

text \<open>A message with distinct members has at most one intent about each.\<close>

lemma pull_intents_one:
  assumes "distinct (map fst (pp_status_ltimes pp))" "distinct (pp_left_members pp)"
    "map_of (pp_status_ltimes pp) i = Some t"
  shows "filter (\<lambda>m. intent_id m = i) (pull_intents pp) =
    [if i \<in> set (pp_left_members pp) then left_intent (pp_status_ltimes pp) i else status_intent (i, t)]"
proof (cases "i \<in> set (pp_left_members pp)")
  case True
  have "filter (\<lambda>j. j = i) (filter (\<lambda>i. map_of (pp_status_ltimes pp) i \<noteq> None) (pp_left_members pp)) = [i]"
    using filter_key_unique [of "\<lambda>j. j" "filter (\<lambda>i. map_of (pp_status_ltimes pp) i \<noteq> None) (pp_left_members pp)" i]
      assms True by auto
  moreover have "filter (\<lambda>nl. fst nl = i)
      (filter (\<lambda>nl. fst nl \<notin> set (pp_left_members pp)) (pp_status_ltimes pp)) = []"
    using True by (auto simp: filter_empty_conv)
  ultimately show ?thesis
    using True by (simp only: pull_intents_def filter_append filter_map_intent) simp
next
  case False
  let ?ts = "filter (\<lambda>nl. fst nl \<notin> set (pp_left_members pp)) (pp_status_ltimes pp)"
  have "(i, t) \<in> set ?ts"
    using assms(3) False by (auto intro: map_of_SomeD)
  then have "filter (\<lambda>nl. fst nl = i) ?ts = [(i, t)]"
    using filter_key_unique [of fst ?ts "(i, t)"] distinct_map_filter [OF assms(1)] by simp
  moreover have "filter (\<lambda>j. j = i) (filter (\<lambda>i. map_of (pp_status_ltimes pp) i \<noteq> None) (pp_left_members pp)) = []"
    using False by (auto simp: filter_empty_conv)
  ultimately show ?thesis
    using False by (simp only: pull_intents_def filter_append filter_map_intent) simp
qed

section \<open>The invariant of an instance\<close>

text \<open>
  On top of the membership invariant: the two rings are within the address
  space, and the event clock is ahead of every recorded event.
\<close>

definition events_behind :: "('i, 'a) serf \<Rightarrow> bool" where
  "events_behind s \<longleftrightarrow> (\<forall>evs. Some evs \<in> set (ec_buffer (sf_event_core s)) \<longrightarrow> evs_ltime evs < sf_event_clock s)"

definition serf_inv :: "('i, 'a) serf \<Rightarrow> bool" where
  "serf_inv s \<longleftrightarrow> membership_inv s \<and> ring_bounded s \<and> qring_length s < 2 ^ 64 \<and> events_behind s"

text \<open>The parts of the state the invariant reads.\<close>

definition inv_part :: "('i, 'a) serf \<Rightarrow> u64 \<times> ('i, 'a) members \<times> event_core \<times> u64 \<times> nat" where
  "inv_part s = (sf_clock s, sf_members s, sf_event_core s, sf_event_clock s, qring_length s)"

lemma serf_inv_cong: "inv_part s = inv_part t \<Longrightarrow> serf_inv s = serf_inv t"
  by (simp add: inv_part_def serf_inv_def membership_inv_def clock_ahead_def ring_bounded_def events_behind_def)

lemma serf_inv_members:
  assumes "serf_inv s" "membership_inv t"
    "sf_event_core t = sf_event_core s" "sf_event_clock t = sf_event_clock s" "sf_query_core t = sf_query_core s"
  shows "serf_inv t"
  using assms by (simp add: serf_inv_def ring_bounded_def events_behind_def)

lemma events_behind_mono:
  "events_behind s \<Longrightarrow> ec_buffer (sf_event_core t) = ec_buffer (sf_event_core s)
   \<Longrightarrow> sf_event_clock s \<le> sf_event_clock t \<Longrightarrow> events_behind t"
  by (auto simp: events_behind_def)

lemma events_behind_slot:
  assumes "events_behind s" "evs_ltime evs < sf_event_clock s"
  shows "events_behind (send_event e (set_event_slot idx evs s))"
  using assms by (auto simp: events_behind_def send_event_def set_event_slot_def dest!: set_update_subset_insert [THEN subsetD])

lemma events_behind_nth:
  assumes "events_behind s" "idx < ring_length s" "ec_buffer (sf_event_core s) ! idx = Some evs"
  shows "evs_ltime evs < sf_event_clock s"
  using assms by (metis events_behind_def nth_mem)

lemma handle_user_event_behind:
  assumes "handle_user_event m s = Inr (b, t)" "events_behind s" "ue_ltime m < - 1"
  shows "events_behind t"
proof -
  let ?s = "s\<lparr>sf_event_clock := clock_witness (ue_ltime m) (sf_event_clock s)\<rparr>"
  have eb: "events_behind ?s"
    using assms(2) by (rule events_behind_mono) (simp_all add: clock_witness_ge [OF assms(3)])
  have slot: "evs_ltime evs < sf_event_clock ?s"
    if "idx < ring_length s" "ec_buffer (sf_event_core s) ! idx = Some evs" for idx evs
    using events_behind_nth [OF eb] that by simp
  show ?thesis
    using assms(1) eb clock_witness_gt [OF assms(3), of "sf_event_clock s"]
    by (auto simp: handle_user_event_def Let_def split: if_splits option.splits
        intro!: events_behind_slot dest: slot)
qed

lemma serf_inv_user_event:
  assumes "serf_inv s" "ue_ltime m < - 1"
  shows "\<exists>b t. handle_user_event m s = Inr (b, t) \<and> serf_inv t"
proof -
  have rb: "ring_bounded s" "events_behind s" using assms(1) by (simp_all add: serf_inv_def)
  obtain b t where t: "handle_user_event m s = Inr (b, t)"
    using handle_user_event_returns [OF rb(1) assms(2)] by auto
  have "events_behind t" by (rule handle_user_event_behind [OF t rb(2) assms(2)])
  moreover have "ring_length t = ring_length s"
    using handle_user_event_effect [OF t rb(1)] by simp
  ultimately have "serf_inv t"
    using assms(1) handle_user_event_frame [OF t]
    by (cases t) (simp add: serf_inv_def membership_inv_def clock_ahead_def ring_bounded_def)
  with t show ?thesis by blast
qed

lemma deliver_rest:
  "sf_event_core (snd (deliver now m s)) = sf_event_core s"
  "sf_event_clock (snd (deliver now m s)) = sf_event_clock s"
  "sf_query_core (snd (deliver now m s)) = sf_query_core s"
  "sf_query_clock (snd (deliver now m s)) = sf_query_clock s"
  "sf_event_join_ignore (snd (deliver now m s)) = sf_event_join_ignore s"
  by (cases m; auto simp: handle_node_join_intent_def handle_node_leave_intent_def leave_transition_def
      maybe_prune_def handle_prune_def erase_node_def serf_ops Let_def
      split: option.split prod.split member_status.split)+

lemma serf_inv_deliver:
  assumes "serf_inv s" "intent_ltime m < - 1"
  shows "serf_inv (snd (deliver now m s))"
proof (rule serf_inv_members [OF assms(1)])
  show "membership_inv (snd (deliver now m s))"
    using assms by (cases m) (simp_all add: membership_join_intent membership_leave_intent serf_inv_def)
qed (simp_all only: deliver_rest)

lemma deliver_all_rest:
  "sf_event_core (deliver_all ms s) = sf_event_core s \<and> sf_event_clock (deliver_all ms s) = sf_event_clock s \<and>
   sf_query_core (deliver_all ms s) = sf_query_core s \<and> sf_query_clock (deliver_all ms s) = sf_query_clock s \<and>
   sf_event_join_ignore (deliver_all ms s) = sf_event_join_ignore s"
  by (induction ms s rule: deliver_all.induct) (simp_all add: deliver_rest)

lemma serf_inv_deliver_all:
  "serf_inv s \<Longrightarrow> list_all (\<lambda>m. intent_ltime (snd m) < - 1) ms \<Longrightarrow> serf_inv (deliver_all ms s)"
  by (induction ms s rule: deliver_all.induct) (auto intro: serf_inv_deliver)

lemma deliver_clock_mono: "intent_ltime m < - 1 \<Longrightarrow> sf_clock s \<le> sf_clock (snd (deliver now m s))"
  by (cases m)
    (auto simp: handle_node_join_intent_def handle_node_leave_intent_def leave_transition_def
      maybe_prune_def handle_prune_def erase_node_def serf_ops Let_def clock_witness_ge
      split: option.split prod.split member_status.split)

lemma deliver_all_clock_mono:
  "list_all (\<lambda>m. intent_ltime (snd m) < - 1) ms \<Longrightarrow> sf_clock s \<le> sf_clock (deliver_all ms s)"
proof (induction ms s rule: deliver_all.induct)
  case (2 now m ms s)
  then show ?case using deliver_clock_mono [of m s now] by auto
qed simp

section \<open>Merging a remote state\<close>

definition pp_times_ok :: "'i push_pull_message \<Rightarrow> bool" where
  "pp_times_ok pp \<longleftrightarrow>
     list_all (\<lambda>m. intent_ltime m < - 1) (pull_intents pp) \<and>
     list_all (\<lambda>m. ue_ltime m < - 1) (remote_events (pp_events pp))"

lemma merge_events_returns:
  "serf_inv s \<Longrightarrow> list_all (\<lambda>m. ue_ltime m < - 1) ms \<Longrightarrow>
   \<exists>t. merge_events ms s = Inr t \<and> serf_inv t \<and> sf_event_clock s \<le> sf_event_clock t \<and>
     t = s\<lparr>sf_event_core := sf_event_core t, sf_event_clock := sf_event_clock t, sf_event_tx := sf_event_tx t\<rparr>"
proof (induction ms s rule: merge_events.induct)
  case (2 m ms s)
  obtain b t where t: "handle_user_event m s = Inr (b, t)" "serf_inv t"
    using serf_inv_user_event [OF 2(2), of m] 2(3) by auto
  have eff: "sf_event_clock t = clock_witness (ue_ltime m) (sf_event_clock s)"
    using handle_user_event_effect(4) [OF t(1)] 2(2) by (simp add: serf_inv_def)
  then have le: "sf_event_clock s \<le> sf_event_clock t"
    using 2(3) by (simp add: clock_witness_ge)
  obtain u where u: "merge_events ms t = Inr u" "serf_inv u" "sf_event_clock t \<le> sf_event_clock u"
    "u = t\<lparr>sf_event_core := sf_event_core u, sf_event_clock := sf_event_clock u, sf_event_tx := sf_event_tx u\<rparr>"
    using 2(1) [OF t(2)] 2(3) by auto
  have "u = s\<lparr>sf_event_core := sf_event_core u, sf_event_clock := sf_event_clock u, sf_event_tx := sf_event_tx u\<rparr>"
    using u(4) handle_user_event_frame [OF t(1)] by (cases s; cases t; cases u) simp
  then show ?case using t(1) u le by auto
qed simp

lemma witness_below_ge: "c \<le> witness_below t c" "t \<le> witness_below t c"
proof -
  have "t - 1 < - 1" if "0 < t"
    using that by (auto simp: word_order.not_eq_extremum [symmetric] diff_eq_eq)
  moreover from this have "t \<le> clock_witness (t - 1) c" if "0 < t"
    using that clock_witness_gt [of "t - 1" c] word_Suc_le [of "t - 1" "clock_witness (t - 1) c"] by simp
  ultimately show "c \<le> witness_below t c" "t \<le> witness_below t c"
    by (auto simp: witness_below_def clock_witness_ge word_gt_0)
qed

lemma serf_inv_witness_remote: "serf_inv s \<Longrightarrow> serf_inv (witness_remote l el ql s)"
  unfolding serf_inv_def membership_inv_def clock_ahead_def
  using witness_below_ge(1) [of "sf_clock s" l] witness_below_ge(1) [of "sf_event_clock s" el]
  by (auto simp: witness_remote_def ring_bounded_def intro: ahead_mono events_behind_mono [of s])

lemma serf_inv_ignore_old: "serf_inv s \<Longrightarrow> serf_inv (ignore_old_events j t s)"
  by (simp add: ignore_old_events_def serf_inv_def membership_inv_def clock_ahead_def ring_bounded_def
      events_behind_def)

lemma merge_push_pull_returns:
  assumes "serf_inv s" "pp_times_ok pp"
  shows "\<exists>t. merge_push_pull now is_join pp s = Inr t \<and> serf_inv t"
proof -
  have "serf_inv (merge_members now pp s)"
    unfolding merge_members_deliver using assms
    by (intro serf_inv_deliver_all) (simp_all add: pp_times_ok_def list_all_iff)
  from merge_events_returns [OF serf_inv_ignore_old [OF this]]
  show ?thesis using assms(2) unfolding merge_push_pull_def pp_times_ok_def by blast
qed

section \<open>Received packets\<close>

definition no_stop :: "decode_error + 'x \<Rightarrow> bool" where
  "no_stop r \<longleftrightarrow> r \<noteq> Inl Decode_panic \<and> r \<noteq> Inl Decode_hang"

lemma no_decode_panic_simp [simp]: "no_stop r \<Longrightarrow> no_decode_panic r = Inr r"
  by (simp add: no_stop_def no_decode_panic_def)

lemma no_stop_simps [simp]: "no_stop (Inr x)" "no_stop (Inl Decode_custom)"
  by (simp_all add: no_stop_def)

definition filter_ok :: "('i, 'a) proto \<Rightarrow> decode_error + filter_ref \<Rightarrow> bool" where
  "filter_ok P f \<longleftrightarrow> no_stop f \<and>
     (case f of Inr (FilterRef_Id w) \<Rightarrow> list_all no_stop (id_items P w) | _ \<Rightarrow> True)"

lemma find_id_no_stop: "list_all no_stop ids \<Longrightarrow> no_stop (find_id loc ids)"
  by (induction loc ids rule: find_id.induct) (auto simp: no_stop_def)

lemma should_process_no_stop:
  "list_all (filter_ok P) fs \<Longrightarrow> no_stop (should_process_borrowed P loc tgs fs)"
proof (induction P loc tgs fs rule: should_process_borrowed.induct)
  case (3 P loc tgs w fs)
  then show ?case
    using find_id_no_stop [of "id_items P w" loc]
    by (cases "find_id loc (id_items P w)") (auto simp: filter_ok_def no_stop_def)
next
  case (4 P loc tgs tag fs)
  then show ?case
    by (cases "tag_filter_match_ref P tgs tag")
      (auto simp: filter_ok_def no_stop_def tag_filter_match_ref_def split: if_splits option.splits)
qed (auto simp: filter_ok_def no_stop_def)

text \<open>
  A packet the instance can take: decoding it ends, no time in it is the
  largest of all, and a relayed payload is where the decoder says.
\<close>

fun message_ok :: "('i, 'a) proto \<Rightarrow> nat \<Rightarrow> ('i, 'a) message_ref \<Rightarrow> bool" where
  "message_ok P n (MR_Leave l) \<longleftrightarrow> lm_ltime l < - 1"
| "message_ok P n (MR_Join j) \<longleftrightarrow> jm_ltime j < - 1"
| "message_ok P n (MR_UserEvent e) \<longleftrightarrow> ue_ltime e < - 1"
| "message_ok P n (MR_Query q) \<longleftrightarrow> qm_ltime (fst q) < - 1 \<and> list_all (filter_ok P) (filter_items P (snd q))"
| "message_ok P n (MR_Relay nd off pl) \<longleftrightarrow> off + length pl \<le> n"
| "message_ok P n (MR_PushPull pp) \<longleftrightarrow> no_stop (push_pull_from_ref P pp) \<and>
     (case push_pull_from_ref P pp of Inr m \<Rightarrow> pp_times_ok m | Inl e \<Rightarrow> True)"
| "message_ok P n _ \<longleftrightarrow> True"

definition packet_ok :: "('i, 'a) proto \<Rightarrow> bytes \<Rightarrow> bool" where
  "packet_ok P buf \<longleftrightarrow> no_stop (decode_message P buf) \<and>
     (case decode_message P buf of Inr m \<Rightarrow> message_ok P (length buf) m | Inl e \<Rightarrow> True)"

lemma handle_query_result:
  assumes "handle_query P now rnd rq ty s = Inr (r, t)" "no_stop (should_process_query P s (rq_filters rq))"
  shows "no_stop r"
proof -
  obtain b u where u: "record_query (qm_ltime (rq_msg rq)) (qm_id (rq_msg rq)) s = Inr (b, u)"
    using assms(1) by (auto simp: handle_query_def Let_def res_iff)
  have "sf_local u = sf_local s" "sf_opts u = sf_opts s"
    by (subst record_query_frame [OF u], simp)+
  then have "should_process_query P u (rq_filters rq) = should_process_query P s (rq_filters rq)"
    by (cases "rq_filters rq") (simp_all add: should_process_query_def)
  then show ?thesis
    using assms u by (auto simp: handle_query_def Let_def split: if_splits sum.splits bool.splits)
qed

lemma serf_inv_handle_query:
  assumes "serf_inv s" "qm_ltime (rq_msg rq) < - 1"
  shows "\<exists>r t. handle_query P now rnd rq ty s = Inr (r, t) \<and> serf_inv t"
proof -
  have q: "qring_length s < 2 ^ 64" using assms(1) by (simp add: serf_inv_def)
  obtain r t where t: "handle_query P now rnd rq ty s = Inr (r, t)"
    using handle_query_returns [OF q assms(2)] by blast
  obtain b u where u: "record_query (qm_ltime (rq_msg rq)) (qm_id (rq_msg rq)) s = Inr (b, u)"
    "sf_query_core t = sf_query_core u"
    by (rule handle_query_core [OF t])
  have "qring_length t = qring_length s"
    using record_query_effect(2) [OF u(1) q] u(2) by simp
  then have "inv_part t = inv_part s"
    unfolding inv_part_def by (subst (1 2 3 4) handle_query_frame [OF t]) simp
  then show ?thesis
    using assms(1) t serf_inv_cong by blast
qed

lemma serf_inv_dispatch_query:
  assumes "serf_inv s" "message_ok P n (MR_Query q)"
  shows "\<exists>b t. dispatch_query P now rnd q s = Inr (b, t) \<and> serf_inv t"
proof -
  let ?rq = "\<lparr>rq_msg = fst q, rq_filters = Borrowed (filter_items P (snd q))\<rparr>"
  have ns: "no_stop (should_process_query P s (rq_filters ?rq))"
    using assms(2) should_process_no_stop [of P "filter_items P (snd q)"] by (simp add: should_process_query_def)
  have *: "\<exists>b t. bind_res (handle_query P now rnd ?rq ty s) (\<lambda>(r, s).
      map_res (\<lambda>r. (case r of Inr val \<Rightarrow> val | Inl e \<Rightarrow> False, s)) (no_decode_panic r)) = Inr (b, t) \<and> serf_inv t" for ty
  proof -
    obtain r t where "handle_query P now rnd ?rq ty s = Inr (r, t)" "serf_inv t"
      using serf_inv_handle_query [OF assms(1), of ?rq P now rnd ty] assms(2) by auto
    with handle_query_result [OF this(1) ns] show ?thesis by simp
  qed
  show ?thesis
  proof (cases "decode_internal_query P (qm_name (fst q)) (qm_payload (fst q))")
    case None
    then show ?thesis using * [of None] by (simp add: dispatch_query_def)
  next
    case (Some r)
    then show ?thesis using assms(1) * [of "Some (projr r)"] by (cases r) (auto simp: dispatch_query_def)
  qed
qed

lemma serf_inv_outputs [simp]:
  "serf_inv (queue_broadcast q b s) = serf_inv s"
  "serf_inv (ml_send a b s) = serf_inv s"
  "serf_inv (broadcast b nt s) = serf_inv s"
  "serf_inv (queue_event_broadcast b s) = serf_inv s"
  "serf_inv (queue_query_broadcast b s) = serf_inv s"
  "serf_inv (spawn_task tk s) = serf_inv s"
  by (cases q; rule serf_inv_cong; simp add: inv_part_def serf_ops queue_event_broadcast_def queue_query_broadcast_def)
     (rule serf_inv_cong; simp add: inv_part_def serf_ops queue_event_broadcast_def queue_query_broadcast_def)+

lemma serf_inv_query_response: "serf_inv (handle_query_response now r s) = serf_inv s"
  by (rule serf_inv_cong)
    (auto simp: inv_part_def handle_query_response_def Let_def split: option.split)

lemma serf_inv_notify_message:
  assumes "serf_inv s" "packet_ok P buf"
  shows "\<exists>t. notify_message P now rnd owned buf s = Inr t \<and> serf_inv t"
proof (cases "decode_message P buf")
  case (Inl e)
  then show ?thesis using assms by (simp add: notify_message_def packet_ok_def)
next
  case (Inr m)
  have ok: "message_ok P (length buf) m" using assms(2) Inr by (simp add: packet_ok_def)
  have "\<exists>x t. dispatch_message P now rnd m s = Inr (x, t) \<and> serf_inv t" if "\<nexists>nd off pl. m = MR_Relay nd off pl"
  proof (cases m)
    case (MR_Leave l)
    then show ?thesis using serf_inv_deliver [OF assms(1), of "Leave_intent l" now] ok by (auto simp: split_def Let_def)
  next
    case (MR_Join j)
    then show ?thesis using serf_inv_deliver [OF assms(1), of "Join_intent j" now] ok by (auto simp: split_def Let_def)
  next
    case (MR_UserEvent e)
    then show ?thesis using serf_inv_user_event [OF assms(1), of e] ok by auto
  next
    case (MR_Query q)
    then show ?thesis using serf_inv_dispatch_query [OF assms(1) ok [unfolded MR_Query], of now rnd] by auto
  qed (use assms(1) that in \<open>auto simp: serf_inv_query_response\<close>)
  note disp = this
  show ?thesis
  proof (cases "\<exists>nd off pl. m = MR_Relay nd off pl")
    case True
    then show ?thesis using assms(1) ok Inr by (auto simp: notify_message_def relay_payload_def)
  next
    case False
    then obtain x t where "dispatch_message P now rnd m s = Inr (x, t)" "serf_inv t"
      using disp by blast
    then show ?thesis using Inr False assms(1)
      by (cases m) (auto simp: notify_message_def split_def)
  qed
qed

lemma serf_inv_merge_remote_state:
  assumes "serf_inv s" "packet_ok P buf"
  shows "\<exists>t. merge_remote_state P now buf is_join s = Inr t \<and> serf_inv t"
proof (cases "decode_message P buf")
  case (Inl e)
  then show ?thesis using assms by (simp add: merge_remote_state_def packet_ok_def)
next
  case (Inr m)
  have ok: "message_ok P (length buf) m" using assms(2) Inr by (simp add: packet_ok_def)
  show ?thesis
  proof (cases m)
    case (MR_PushPull pp)
    then show ?thesis
      using ok Inr assms(1) merge_push_pull_returns [OF serf_inv_witness_remote [OF assms(1)]]
      by (cases "push_pull_from_ref P pp") (simp_all add: merge_remote_state_def Let_def serf_inv_witness_remote)
  qed (use Inr assms(1) in \<open>simp_all add: merge_remote_state_def\<close>)
qed

section \<open>The state an instance sends\<close>

lemma map_of_restate:
  "(\<And>k v. (k, v) \<in> set xs \<Longrightarrow> f v = k) \<Longrightarrow> map_of (map (\<lambda>(_, v). (f v, g v)) xs) i = map_option g (map_of xs i)"
  by (induction xs) auto

lemma push_pull_members:
  assumes "members_inv (sf_members r)"
  shows "distinct (map fst (pp_status_ltimes (push_pull_of r)))"
    and "distinct (pp_left_members (push_pull_of r))"
    and "map_of (pp_status_ltimes (push_pull_of r)) i = map_option snd (member_view i r)"
    and "i \<in> set (pp_left_members (push_pull_of r)) \<longleftrightarrow> (\<exists>t. member_view i r = Some (Left, t))"
proof -
  let ?mb = "sf_members r"
  have st: "distinct (map fst (states ?mb))" and ok: "states_ok (map_of (states ?mb))"
    and ll: "distinct (map ms_id (left_members ?mb))"
    "\<And>i. i \<in> ms_id ` set (left_members ?mb) \<longleftrightarrow> (\<exists>ms. map_of (states ?mb) i = Some ms \<and> ms_status ms = Left)"
    using assms by (simp_all add: members_inv_def old_list_ok_def)
  have key: "ms_id v = k" if "(k, v) \<in> set (states ?mb)" for k v
    using that ok st by (simp add: states_ok_def)
  have fsts: "map fst (map (\<lambda>(_, v). (ms_id v, ms_status_time v)) (states ?mb)) = map fst (states ?mb)"
    using key by (auto simp: comp_def)
  have eq: "pp_status_ltimes (push_pull_of r) = map (\<lambda>(_, v). (ms_id v, ms_status_time v)) (states ?mb)"
    using st fsts by (simp only: push_pull_of_def push_pull_message.simps collect_map_distinct)
  show "distinct (map fst (pp_status_ltimes (push_pull_of r)))"
    using st fsts by (simp only: eq)
  show "map_of (pp_status_ltimes (push_pull_of r)) i = map_option snd (member_view i r)"
    unfolding eq by (subst map_of_restate [OF key]) (simp_all add: member_view_def option.map_comp comp_def)
  have left: "pp_left_members (push_pull_of r) = map ms_id (left_members ?mb)"
    using ll(1) by (simp add: push_pull_of_def collect_set_distinct)
  show "distinct (pp_left_members (push_pull_of r))"
    using ll(1) by (simp add: left)
  show "i \<in> set (pp_left_members (push_pull_of r)) \<longleftrightarrow> (\<exists>t. member_view i r = Some (Left, t))"
    using ll(2) [of i] by (auto simp: left member_view_def)
qed

lemma view_behind:
  "clock_ahead r \<Longrightarrow> member_view i r = Some (st, t) \<Longrightarrow> t < sf_clock r"
  by (auto simp: clock_ahead_def ahead_def member_view_def)

lemma push_pull_events_behind:
  assumes "events_behind r" "m \<in> set (remote_events (pp_events (push_pull_of r)))"
  shows "ue_ltime m < sf_event_clock r"
  using assms by (auto simp: events_behind_def remote_events_def push_pull_of_def map_filter_def)

lemma pull_intents_behind:
  assumes "serf_inv r" "m \<in> set (pull_intents (push_pull_of r))"
  shows "intent_ltime m \<le> sf_clock r"
proof -
  note pm = push_pull_members [of r]
  have inv: "members_inv (sf_members r)" "clock_ahead r"
    using assms(1) by (simp_all add: serf_inv_def membership_inv_def)
  have lt: "t < sf_clock r" if "map_of (pp_status_ltimes (push_pull_of r)) i = Some t" for i t
    using that pm(3) [OF inv(1), of i] view_behind [OF inv(2), of i] by auto
  have suc: "t + 1 \<le> sf_clock r" if "map_of (pp_status_ltimes (push_pull_of r)) i = Some t" for i t
    using lt [OF that] by (rule word_Suc_le)
  have mem: "t \<le> sf_clock r" if "(i, t) \<in> set (pp_status_ltimes (push_pull_of r))" for i t
    using that pm(1) [OF inv(1)] lt [of i t] by simp
  show ?thesis
    using assms(2) suc mem by (auto simp: pull_intents_def simp del: map_of_eq_Some_iff)
qed

lemma push_pull_times_ok:
  assumes "serf_inv r" "sf_clock r < - 1"
  shows "pp_times_ok (push_pull_of r)"
proof -
  have "ue_ltime m < - 1" if "m \<in> set (remote_events (pp_events (push_pull_of r)))" for m
    using push_pull_events_behind [of r m] assms(1) that
    by (auto simp: serf_inv_def intro: less_le_trans [OF _ word_order.extremum])
  moreover have "intent_ltime m < - 1" if "m \<in> set (pull_intents (push_pull_of r))" for m
    using pull_intents_behind [OF assms(1) that] assms(2) by (rule le_less_trans)
  ultimately show ?thesis by (simp add: pp_times_ok_def list_all_iff)
qed

section \<open>Merging the state of another instance\<close>

text \<open>What a node takes over about a member it knows: a left member as a leave
  one past its time, any other as a join at its time.\<close>

fun pulled :: "(member_status \<times> lamport_time) option \<Rightarrow> member_status \<times> lamport_time \<Rightarrow> member_status \<times> lamport_time" where
  "pulled None v = v"
| "pulled (Some (st, t)) v =
     (if st = Left then intent_view (Leave_intent \<lparr>lm_ltime = t + 1, lm_id = (), lm_prune = False\<rparr>) v
      else intent_view (Join_intent \<lparr>jm_ltime = t, jm_id = ()\<rparr>) v)"

lemma intent_view_id:
  "intent_view (left_intent ts i) v =
     intent_view (Leave_intent \<lparr>lm_ltime = the (map_of ts i) + 1, lm_id = (), lm_prune = False\<rparr>) v"
  "intent_view (status_intent nl) v = intent_view (Join_intent \<lparr>jm_ltime = snd nl, jm_id = ()\<rparr>) v"
  by (cases v; simp add: left_intent_def status_intent_def)+

lemma merge_members_view:
  assumes "serf_inv r" "member_view i s = Some v" "no_refute i s"
  shows "member_view i (merge_members now (push_pull_of r) s) = Some (pulled (member_view i r) v)"
proof -
  let ?pp = "push_pull_of r"
  have inv: "members_inv (sf_members r)" using assms(1) by (simp add: serf_inv_def membership_inv_def)
  have v: "member_view i (merge_members now ?pp s) =
      Some (fold intent_view (filter (\<lambda>m. intent_id m = i) (pull_intents ?pp)) v)"
    unfolding merge_members_deliver
    using deliver_all_view [OF assms(2,3) pull_intents_no_prune, of now ?pp] by (simp add: comp_def)
  show ?thesis
  proof (cases "member_view i r")
    case None
    have "filter (\<lambda>m. intent_id m = i) (pull_intents ?pp) = []"
      using None push_pull_members(3,4) [OF inv, of i]
      by (auto simp: filter_empty_conv pull_intents_def map_of_eq_None_iff image_iff)
    then show ?thesis using v None by simp
  next
    case (Some w)
    obtain st t where w: "w = (st, t)" by fastforce
    have t: "map_of (pp_status_ltimes ?pp) i = Some t"
      using push_pull_members(3) [OF inv, of i] Some w by simp
    show ?thesis
      using v pull_intents_one [OF push_pull_members(1,2) [OF inv] t] push_pull_members(4) [OF inv, of i] Some w t
      by (auto simp: intent_view_id)
  qed
qed

lemma merge_local_state:
  assumes "proto_ok P" "wf_message P (Msg_PushPull (push_pull_of r))"
  shows "merge_remote_state P now (local_state P r) is_join s =
    merge_push_pull now is_join (push_pull_of r)
      (witness_remote (sf_clock r) (sf_event_clock r) (sf_query_clock r) s)"
proof -
  let ?pp = "push_pull_of r"
  have ls: "local_state P r = wire_message P (Msg_PushPull ?pp)"
    by (simp add: local_state_def message_to_bytes_wire [OF assms(2)])
  obtain v where v: "decode_message P (local_state P r) = Inr v"
    "message_from_ref P v = Inr (Some (Msg_PushPull ?pp))"
    using decode_message_wire [OF assms] by (auto simp: ls)
  obtain pp where pp: "v = MR_PushPull pp" "push_pull_from_ref P pp = Inr ?pp"
    using v(2) by (cases v) (auto simp: res_iff)
  have "ppr_ltime pp = sf_clock r" "ppr_event_ltime pp = sf_event_clock r" "ppr_query_ltime pp = sf_query_clock r"
    using pp(2) by (auto simp: push_pull_from_ref_def res_iff push_pull_of_def clock_time_def)
  moreover have "local_state P r \<noteq> []" by (simp add: ls wire_message_def)
  ultimately show ?thesis
    using v(1) pp by (simp add: merge_remote_state_def)
qed

end
