(* ===== verification/Pings.thy ===== *)
theory Pings
  imports Delegate_Facts
begin

text \<open>
  The coordinates that travel with pings (\<open>serf/delegate.rs\<close>): what a node
  acknowledges a ping with, and what it does with the acknowledgement of
  another. The payload is a version byte and an encoded coordinate.
\<close>

definition ping_version :: u8 where
  "ping_version = 1"

text \<open>When encoding fails, the buffer is sent as it is; the bytes written before
  the failure are not tracked.\<close>

definition ack_payload :: "f64_wire \<Rightarrow> ('i, 'a) serf \<Rightarrow> bytes" where
  "ack_payload W s =
     (case sf_coord_core s of
        Some c \<Rightarrow>
          (let coord = get_coordinate (cc_client c);
               buf = replicate (encoded_len_coordinate W coord) 0
           in case encode_coordinate W coord buf of
                Inr (buf, _) \<Rightarrow> ping_version # buf
              | Inl e \<Rightarrow> ping_version # buf)
      | None \<Rightarrow> [])"

definition notify_ping_complete ::
  "('i, 'a) proto \<Rightarrow> f64_wire \<Rightarrow> (f64 \<Rightarrow> f64 \<Rightarrow> f64) \<Rightarrow> (nat \<Rightarrow> nat \<Rightarrow> f64) \<Rightarrow> 'i \<Rightarrow> nat \<Rightarrow> bytes
   \<Rightarrow> ('i, 'a) serf \<Rightarrow> panic + ('i, 'a) serf" where
  "notify_ping_complete P W powf rnd nid rtt payload s =
     (case payload of
        [] \<Rightarrow> Inr s
      | v # body \<Rightarrow>
          (case sf_coord_core s of
             None \<Rightarrow> Inr s
           | Some c \<Rightarrow>
               if v \<noteq> ping_version then Inr s
               else bind_res (no_decode_panic (decode_coordinate P W body)) (\<lambda>d.
                 case d of
                   Inl e \<Rightarrow> Inr s
                 | Inr (_, coord) \<Rightarrow>
                     map_res (\<lambda>(r, cl).
                       case r of
                         Inl e \<Rightarrow> s\<lparr>sf_coord_core := Some (c\<lparr>cc_client := cl\<rparr>)\<rparr>
                       | Inr after \<Rightarrow>
                           (let cache = AList.update nid coord (cc_cache c);
                                cache = AList.update (local_id s) (get_coordinate cl) cache
                            in s\<lparr>sf_coord_core := Some (c\<lparr>cc_client := cl, cc_cache := cache\<rparr>)\<rparr>))
                       (client_update powf rnd nid coord rtt (cc_client c)))))"

text \<open>When the payload carries a coordinate, and when it does not.\<close>

lemma notify_ping_coordinate:
  assumes "sf_coord_core s = Some c" "no_decode_panic (decode_coordinate P W body) = Inr (Inr (n, x))"
  shows "notify_ping_complete P W powf rnd nid rtt (ping_version # body) s =
    map_res (\<lambda>(r, cl).
      case r of
        Inl e \<Rightarrow> s\<lparr>sf_coord_core := Some (c\<lparr>cc_client := cl\<rparr>)\<rparr>
      | Inr after \<Rightarrow> s\<lparr>sf_coord_core := Some (c\<lparr>cc_client := cl, cc_cache :=
          AList.update (local_id s) (get_coordinate cl) (AList.update nid x (cc_cache c))\<rparr>)\<rparr>)
      (client_update powf rnd nid x rtt (cc_client c))"
  unfolding notify_ping_complete_def Let_def using assms by simp

lemma notify_ping_other:
  assumes "\<And>c body. sf_coord_core s = Some c \<Longrightarrow> payload = ping_version # body \<Longrightarrow>
      \<exists>r. no_decode_panic (decode_coordinate P W body) = r \<and> (\<forall>y. r \<noteq> Inr (Inr y))"
    and "notify_ping_complete P W powf rnd nid rtt payload s = Inr t"
  shows "t = s"
proof (cases "\<exists>c body. sf_coord_core s = Some c \<and> payload = ping_version # body")
  case True
  then obtain c body where c: "sf_coord_core s = Some c" "payload = ping_version # body" by blast
  show ?thesis
  proof (cases "no_decode_panic (decode_coordinate P W body)")
    case (Inr d)
    with assms(1) [OF c] obtain e where "d = Inl e" by (cases d) auto
    with Inr assms(2) show ?thesis by (simp add: notify_ping_complete_def c)
  qed (use assms(2) in \<open>simp add: notify_ping_complete_def c\<close>)
next
  case False
  then show ?thesis
    using assms(2) by (cases payload; cases "sf_coord_core s") (auto simp: notify_ping_complete_def)
qed

lemma notify_ping_frame:
  assumes "notify_ping_complete P W powf rnd nid rtt payload s = Inr t"
  shows "t = s\<lparr>sf_coord_core := sf_coord_core t\<rparr>"
proof (cases "\<exists>c n x body. sf_coord_core s = Some c \<and> payload = ping_version # body \<and>
    no_decode_panic (decode_coordinate P W body) = Inr (Inr (n, x))")
  case False
  then have "t = s" by (intro notify_ping_other [OF _ assms]) auto
  then show ?thesis by simp
next
  case True
  then obtain c n x body where c: "sf_coord_core s = Some c" and pl: "payload = ping_version # body"
    and x: "no_decode_panic (decode_coordinate P W body) = Inr (Inr (n, x))" by blast
  note eq = notify_ping_coordinate [OF c x, of powf rnd nid rtt]
  obtain r cl where up: "client_update powf rnd nid x rtt (cc_client c) = Inr (r, cl)"
    using assms by (auto simp: pl eq res_iff)
  show ?thesis
    using assms by (cases r) (auto simp: pl eq up)
qed

section \<open>The invariant of the coordinates of an instance\<close>

text \<open>The client keeps its own invariant, and every cached coordinate is finite
  and has the dimensions of the client.\<close>

definition coord_core_inv :: "'i coord_core \<Rightarrow> bool" where
  "coord_core_inv c \<longleftrightarrow> client_inv (cc_client c) \<and>
     list_all (\<lambda>(_, x). is_valid x \<and> length (co_portion x) = copt_dimensionality (cl_opts (cc_client c))) (cc_cache c)"

definition coord_inv :: "('i, 'a) serf \<Rightarrow> bool" where
  "coord_inv s \<longleftrightarrow> (case sf_coord_core s of None \<Rightarrow> True | Some c \<Rightarrow> coord_core_inv c)"

lemma coord_inv_serf_new: "serf_new P mx opts nd snap = Inr s \<Longrightarrow> coord_inv s"
  by (auto simp: serf_new_def Let_def coord_inv_def coord_core_inv_def
      client_inv_with_options coordinate_options_new_ok split: if_splits)

lemma forget_node_opts [simp]: "cl_opts (forget_node nid cl) = cl_opts cl"
  by (simp add: forget_node_def)

lemma coord_core_inv_erase:
  "coord_core_inv c \<Longrightarrow>
   coord_core_inv (c\<lparr>cc_client := forget_node nid (cc_client c), cc_cache := AList.delete nid (cc_cache c)\<rparr>)"
  by (simp add: coord_core_inv_def client_inv_forget list_all_delete)

lemma coord_inv_erase_node: "coord_inv s \<Longrightarrow> coord_inv (erase_node nid m s)"
  using coord_core_inv_erase
  by (auto simp: coord_inv_def erase_node_def send_member_event_def send_event_def split: option.split)

lemma ack_payload_eq:
  assumes "f64_wire_ok P W" "sf_coord_core s = Some c"
  shows "ack_payload W s = ping_version # wire_coordinate W (cl_coord (cc_client c))"
proof -
  have "\<forall>x. fw_ld_len W x = length (enc (fw_codec W) x)" using assms(1) by (simp add: f64_wire_ok_def)
  from coordinate_codec.encode_exact [OF this, of "cl_coord (cc_client c)"] assms(2) show ?thesis
    by (simp add: ack_payload_def get_coordinate_def Let_def)
qed

lemma ping_update_inv:
  assumes "coord_core_inv c" "client_update powf rnd nid coord rtt (cc_client c) = Inr (r, cl)"
  shows "case r of
      Inl e \<Rightarrow> cl = cc_client c
    | Inr _ \<Rightarrow> coord_core_inv (c\<lparr>cc_client := cl,
        cc_cache := AList.update loc (get_coordinate cl) (AList.update nid coord (cc_cache c))\<rparr>)"
proof -
  have inv: "client_inv (cc_client c)" using assms(1) by (simp add: coord_core_inv_def)
  from client_update_ok [OF inv, of powf rnd nid coord rtt] assms(2)
  have *: "client_inv cl" "cl_opts cl = cl_opts (cc_client c)"
    "case r of Inl e \<Rightarrow> cl = cc_client c | Inr a \<Rightarrow> a = cl_coord cl \<and> rtt \<le> max_rtt \<and> is_valid coord \<and>
       length (co_portion coord) = copt_dimensionality (cl_opts (cc_client c))"
    by auto
  show ?thesis
  proof (cases r)
    case (Inr a)
    have "is_valid (cl_coord cl)" "length (co_portion (cl_coord cl)) = copt_dimensionality (cl_opts cl)"
      using *(1) by (simp_all add: client_inv_def client_shape_def)
    with * Inr assms(1) show ?thesis
      by (auto simp: coord_core_inv_def get_coordinate_def intro!: list_all_update)
  qed (use * in simp)
qed

lemma notify_ping_ok:
  assumes "coord_inv s" "no_stop (decode_coordinate P W (tl payload))"
  shows "\<exists>t. notify_ping_complete P W powf rnd nid rtt payload s = Inr t \<and> coord_inv t \<and>
    t = s\<lparr>sf_coord_core := sf_coord_core t\<rparr> \<and>
    (t = s \<or> (\<exists>c n x. sf_coord_core s = Some c \<and> hd payload = ping_version \<and>
       decode_coordinate P W (tl payload) = Inr (n, x) \<and> is_valid x \<and>
       length (co_portion x) = copt_dimensionality (cl_opts (cc_client c)) \<and> rtt \<le> max_rtt))"
proof (cases "\<exists>c n x body. sf_coord_core s = Some c \<and> payload = ping_version # body \<and>
    decode_coordinate P W body = Inr (n, x)")
  case False
  then have "notify_ping_complete P W powf rnd nid rtt payload s = Inr s"
    using assms(2) by (auto simp: notify_ping_complete_def split: list.split option.split sum.split)
  then show ?thesis using assms(1) by simp
next
  case True
  then obtain c n x body where c: "sf_coord_core s = Some c" and pl: "payload = ping_version # body"
    and x: "decode_coordinate P W body = Inr (n, x)" by blast
  have core: "coord_core_inv c" using assms(1) c by (simp add: coord_inv_def)
  then have "client_inv (cc_client c)" by (simp add: coord_core_inv_def)
  from client_update_ok [OF this] obtain r cl where up: "client_update powf rnd nid x rtt (cc_client c) = Inr (r, cl)"
    and res: "case r of Inl e \<Rightarrow> cl = cc_client c | Inr a \<Rightarrow> a = cl_coord cl \<and> rtt \<le> max_rtt \<and> is_valid x \<and>
      length (co_portion x) = copt_dimensionality (cl_opts (cc_client c))" by blast
  show ?thesis
    using ping_update_inv [OF core up, of "local_id s"] up res assms(1)
    by (cases r) (auto simp: notify_ping_complete_def c pl x no_decode_panic_def coord_inv_def Let_def)
qed

end
