(* ===== verification/Instance.thy ===== *)
theory Instance
  imports Internal_Queries Pings Delegate_Facts
begin

text \<open>
  The instance as a whole: everything memberlist, the background tasks and the
  application can make it do, as steps of one state. Every operation holds the
  locks it needs, so the steps interleave but do not overlap; leaving and
  shutting down suspend, and their parts are steps of their own.
\<close>

section \<open>The operations\<close>

text \<open>A join exchanges states with the nodes it contacts: \<open>pkts\<close> are the remote
  states it merges.\<close>

datatype ('i, 'a) instance_op =
    Op_message bool bytes "nat \<Rightarrow> u32"
  | Op_merge bytes bool
  | Op_notify_join "('i, 'a) node_state"
  | Op_notify_leave "('i, 'a) node_state"
  | Op_notify_update "('i, 'a) node_state"
  | Op_reap "('i, 'a) reconnect_delegate"
  | Op_close_query lamport_time
  | Op_broadcast_join lamport_time
  | Op_set_tags nat bool tags
  | Op_user_event string bytes bool
  | Op_query "nat \<Rightarrow> u32" nat u32 string bytes "'i query_param option" "'i internal_query_event option"
  | Op_force_leave "bool option" 'i bool
  | Op_join "bytes list" "serf_error + 'a" bool
  | Op_ping f64_wire "f64 \<Rightarrow> f64 \<Rightarrow> f64" "nat \<Rightarrow> nat \<Rightarrow> f64" 'i nat bytes
  | Op_notify_conflict "('i, 'a) node"
  | Op_answer_conflict "nat \<Rightarrow> u32" bool 'i "('i, 'a) query_event"

fun merge_all ::
  "('i, 'a) proto \<Rightarrow> nat \<Rightarrow> bytes list \<Rightarrow> ('i, 'a) serf \<Rightarrow> panic + ('i, 'a) serf" where
  "merge_all P now [] s = Inr s"
| "merge_all P now (b # bs) s = bind_res (merge_remote_state P now b True s) (merge_all P now bs)"

definition contact ::
  "('i, 'a) proto \<Rightarrow> nat \<Rightarrow> bytes list \<Rightarrow> serf_error + 'a \<Rightarrow> ('i, 'a) serf
   \<Rightarrow> panic + (serf_error + 'a) \<times> ('i, 'a) serf" where
  "contact P now pkts r s = map_res (Pair r) (merge_all P now pkts s)"

fun exec_op ::
  "('i, 'a) proto \<Rightarrow> u8 \<Rightarrow> nat \<Rightarrow> ('i, 'a) instance_op \<Rightarrow> ('i, 'a) serf \<Rightarrow> panic + ('i, 'a) serf" where
  "exec_op P v1 now (Op_message owned buf rnd) s = notify_message P now rnd owned buf s"
| "exec_op P v1 now (Op_merge buf is_join) s = merge_remote_state P now buf is_join s"
| "exec_op P v1 now (Op_notify_join n) s = Inr (handle_node_join P n s)"
| "exec_op P v1 now (Op_notify_leave n) s = Inr (handle_node_leave now n s)"
| "exec_op P v1 now (Op_notify_update n) s = Inr (handle_node_update P v1 n s)"
| "exec_op P v1 now (Op_reap rd) s = Inr (reaper_tick rd now s)"
| "exec_op P v1 now (Op_close_query ltime) s = Inr (snd (close_registered ltime s))"
| "exec_op P v1 now (Op_broadcast_join ltime) s = Inr (snd (broadcast_join P now ltime s))"
| "exec_op P v1 now (Op_set_tags meta_max updated tgs) s = Inr (snd (set_tags P meta_max updated tgs s))"
| "exec_op P v1 now (Op_user_event name payload cc) s = map_res snd (user_event_op P name payload cc s)"
| "exec_op P v1 now (Op_query rnd online qid name payload params ty) s =
     map_res snd (query_in P now rnd online qid name payload params ty s)"
| "exec_op P v1 now (Op_force_leave sent nid prune) s = Inr (snd (force_leave P now sent nid prune s))"
| "exec_op P v1 now (Op_join pkts r ignore_old) s =
     map_res snd (join P now (contact P now pkts r) ignore_old s)"
| "exec_op P v1 now (Op_ping W powf rnd nid rtt payload) s =
     notify_ping_complete P W powf rnd nid rtt payload s"
| "exec_op P v1 now (Op_notify_conflict existing) s = Inr (handle_node_conflict existing s)"
| "exec_op P v1 now (Op_answer_conflict rnd sent c ev) s =
     Inr (snd (handle_conflict P rnd now sent c ev (qe_ctx ev) s))"

section \<open>What an operation needs\<close>

text \<open>
  No Lamport time is the largest of its type, which a clock would wrap around
  from; packets decode; and memberlist knows of at least one online node when
  a query is started.
\<close>

definition clock_after :: "panic + ('i, 'a) serf \<Rightarrow> bool" where
  "clock_after r \<longleftrightarrow> (case r of Inr s \<Rightarrow> sf_clock s < - 1 | Inl _ \<Rightarrow> True)"

fun op_ok :: "('i, 'a) proto \<Rightarrow> nat \<Rightarrow> ('i, 'a) instance_op \<Rightarrow> ('i, 'a) serf \<Rightarrow> bool" where
  "op_ok P now (Op_message owned buf rnd) s \<longleftrightarrow> packet_ok P buf"
| "op_ok P now (Op_merge buf is_join) s \<longleftrightarrow> packet_ok P buf"
| "op_ok P now (Op_broadcast_join ltime) s \<longleftrightarrow> ltime < - 1"
| "op_ok P now (Op_user_event name payload cc) s \<longleftrightarrow> sf_event_clock s < - 1"
| "op_ok P now (Op_query rnd online qid name payload params ty) s \<longleftrightarrow> 0 < online \<and> sf_query_clock s < - 1"
| "op_ok P now (Op_force_leave sent nid prune) s \<longleftrightarrow> sf_clock s < - 1"
| "op_ok P now (Op_join pkts r ignore_old) s \<longleftrightarrow>
     list_all (packet_ok P) pkts \<and>
     clock_after (merge_all P now pkts (if ignore_old then set_join_ignore True s else s))"
| "op_ok P now (Op_ping W powf rnd nid rtt payload) s \<longleftrightarrow> no_stop (decode_coordinate P W (tl payload))"
| "op_ok P now _ s \<longleftrightarrow> True"

section \<open>Every operation returns and keeps the invariant\<close>

text \<open>What the membership handlers leave alone.\<close>

definition rest_of ::
  "('i, 'a) serf \<Rightarrow> (event_core \<times> u64 \<times> ('i, 'a) query_core) \<times> serf_state \<times> ('i, 'a) node" where
  "rest_of s = ((sf_event_core s, sf_event_clock s, sf_query_core s), sf_state s, sf_local s)"

lemma serf_inv_rest: "serf_inv s \<Longrightarrow> membership_inv t \<Longrightarrow> rest_of t = rest_of s \<Longrightarrow> serf_inv t"
  by (rule serf_inv_members) (simp_all add: rest_of_def)

lemma rest_of_ops [simp]:
  "rest_of (send_event e s) = rest_of s"
  "rest_of (send_member_event ty m s) = rest_of s"
  "rest_of (spawn_task tk s) = rest_of s"
  "rest_of (ml_send a b s) = rest_of s"
  "rest_of (broadcast b nt s) = rest_of s"
  "rest_of (upd_members f s) = rest_of s"
  "rest_of (s\<lparr>sf_clock := c\<rparr>) = rest_of s"
  "rest_of (s\<lparr>sf_members := mb\<rparr>) = rest_of s"
  "rest_of (s\<lparr>sf_coord_core := cc\<rparr>) = rest_of s"
  "rest_of (s\<lparr>sf_opts := op\<rparr>) = rest_of s"
  by (simp_all add: rest_of_def serf_ops)

lemma rest_of_erase [simp]: "rest_of (erase_node i m s) = rest_of s"
  by (simp add: erase_node_def)

lemma rest_of_maybe_prune [simp]: "rest_of (maybe_prune p m s) = rest_of s"
  by (simp add: maybe_prune_def handle_prune_def Let_def)

lemma rest_of_join_intent [simp]: "rest_of (snd (handle_node_join_intent now m s)) = rest_of s"
  by (simp add: handle_node_join_intent_def Let_def split: option.split prod.split)

lemma rest_of_leave_transition [simp]: "rest_of (snd (leave_transition m ms s)) = rest_of s"
  by (simp add: leave_transition_def Let_def split: member_status.split)

lemma rest_of_leave_intent [simp]: "rest_of (snd (handle_node_leave_intent now m s)) = rest_of s"
  by (simp add: handle_node_leave_intent_def Let_def split: option.split prod.split)

lemma rest_of_notifications [simp]:
  "rest_of (handle_node_join P n s) = rest_of s"
  "rest_of (handle_node_leave now n s) = rest_of s"
  "rest_of (handle_node_update P v1 n s) = rest_of s"
  by (simp_all add: handle_node_join_def handle_node_leave_def handle_node_update_def Let_def
      split: sum.split option.split member_status.split prod.split)

lemma rest_of_reap_loop [simp]: "rest_of (reap_loop rd l timeout now i s) = rest_of s"
proof (induction rd l timeout now i s rule: reap_loop.induct)
  case (1 rd l timeout now i s)
  then show ?case by (subst reap_loop.simps) (simp add: Let_def)
qed

lemma rest_of_reaper [simp]: "rest_of (reaper_tick rd now s) = rest_of s"
  by (simp add: reaper_tick_def reap_left_def reap_failed_def)

lemma rest_of_broadcast_join [simp]: "rest_of (snd (broadcast_join P now l s)) = rest_of s"
  by (simp add: broadcast_join_def Let_def split: sum.split)

lemma rest_of_force_leave [simp]: "rest_of (snd (force_leave P now sent i p s)) = rest_of s"
  by (simp add: force_leave_def Let_def split: sum.split)

lemma serf_inv_set_tags: "serf_inv s \<Longrightarrow> serf_inv (snd (set_tags P mx up tgs s))"
  by (rule serf_inv_cong [THEN iffD2]) (simp_all add: inv_part_def set_tags_def Let_def)

lemma serf_inv_close: "serf_inv s \<Longrightarrow> serf_inv (snd (close_registered l s))"
  by (rule serf_inv_cong [THEN iffD2]) (simp_all add: inv_part_def close_registered_def)

lemma serf_inv_join_ignore [simp]: "serf_inv (set_join_ignore b s) = serf_inv s"
  by (rule serf_inv_cong) (simp add: inv_part_def set_join_ignore_def)

lemma serf_inv_event_increment:
  assumes "serf_inv s" "sf_event_clock s < - 1"
  shows "serf_inv (s\<lparr>sf_event_clock := snd (clock_increment (sf_event_clock s))\<rparr>)"
  using assms word_less_Suc_max [OF assms(2)]
  by (auto simp: serf_inv_def membership_inv_def clock_ahead_def ring_bounded_def clock_increment_def
      intro: events_behind_mono [of s])

lemma serf_inv_user_event_op:
  assumes "serf_inv s" "sf_event_clock s < - 1"
  shows "\<exists>r t. user_event_op P name payload cc s = Inr (r, t) \<and> serf_inv t"
proof -
  let ?m = "\<lparr>ue_ltime = clock_time (sf_event_clock s), ue_name = name, ue_payload = payload, ue_cc = cc\<rparr>"
  obtain b t where "handle_user_event ?m (s\<lparr>sf_event_clock := snd (clock_increment (sf_event_clock s))\<rparr>) = Inr (b, t)"
    "serf_inv t"
    using serf_inv_user_event [OF serf_inv_event_increment [OF assms], of ?m] assms(2) by (auto simp: clock_time_def)
  then show ?thesis
    using assms(1) by (auto simp: user_event_op_def Let_def split: sum.split)
qed

lemma serf_inv_query_in:
  assumes "serf_inv s" "0 < online" "sf_query_clock s < - 1"
  shows "\<exists>r t. query_in P now rnd online qid name payload params ty s = Inr (r, t) \<and> serf_inv t"
proof -
  have reg: "serf_inv (register_query_response to resp s)" for to resp
    by (rule serf_inv_cong [THEN iffD1, OF _ assms(1)])
      (simp add: inv_part_def register_query_response_def spawn_task_def)
  have new: "\<exists>resp. query_response_from_query now q online = Inr resp" for q :: "('a, 'b) query_message"
    using assms(2) by (simp add: query_response_from_query_def query_response_new_def bounded_def)
  define q where "q = (let params = resolve_params online (sf_opts s) params in
      \<lparr>qm_ltime = clock_time (sf_query_clock s), qm_id = qid, qm_from = sf_local s,
       qm_filters = qpar_filters params, qm_flags = (if qpar_request_ack params then query_flag_ack else 0),
       qm_relay_factor = qpar_relay_factor params, qm_timeout = qpar_timeout params,
       qm_name = name, qm_payload = payload\<rparr>)"
  obtain resp where resp: "query_response_from_query now q online = Inr resp" using new by blast
  let ?rq = "\<lparr>rq_msg = q, rq_filters = Owned (qm_filters q)\<rparr>"
  obtain r t where "handle_query P now rnd ?rq ty
      (register_query_response (qpar_timeout (resolve_params online (sf_opts s) params)) resp s) = Inr (r, t)" "serf_inv t"
    using serf_inv_handle_query [OF reg, of ?rq] assms(3) by (fastforce simp: q_def Let_def clock_time_def)
  then show ?thesis
    using assms(1) resp unfolding query_in_def Let_def q_def [unfolded Let_def, symmetric]
    by (auto split: sum.split)
qed

lemma serf_inv_merge_all:
  "serf_inv s \<Longrightarrow> list_all (packet_ok P) bs \<Longrightarrow> \<exists>t. merge_all P now bs s = Inr t \<and> serf_inv t"
proof (induction bs arbitrary: s)
  case (Cons b bs)
  obtain t where "merge_remote_state P now b True s = Inr t" "serf_inv t"
    using serf_inv_merge_remote_state [OF Cons.prems(1)] Cons.prems(2) by fastforce
  then show ?case using Cons.IH [of t] Cons.prems(2) by simp
qed simp

lemma serf_inv_broadcast_join:
  "serf_inv s \<Longrightarrow> l < - 1 \<Longrightarrow> serf_inv (snd (broadcast_join P now l s))"
  by (rule serf_inv_rest) (simp_all add: membership_broadcast_join serf_inv_def)

lemma serf_inv_join:
  assumes "serf_inv s" "op_ok P now (Op_join pkts r ignore_old) s"
  shows "\<exists>x t. join P now (contact P now pkts r) ignore_old s = Inr (x, t) \<and> serf_inv t"
proof -
  let ?s = "if ignore_old then set_join_ignore True s else s"
  have "serf_inv ?s" using assms(1) by simp
  then obtain t where t: "merge_all P now pkts ?s = Inr t" "serf_inv t"
    using serf_inv_merge_all [of ?s P pkts now] assms(2) by auto
  have c: "sf_clock t < - 1"
    using assms(2) t(1) by (simp add: clock_after_def)
  obtain e u where u: "broadcast_join P now (clock_time (sf_clock t)) t = (e, u)" "serf_inv u"
    using serf_inv_broadcast_join [OF t(2), of "clock_time (sf_clock t)" P now] c
    by (metis clock_time_def prod.collapse)
  show ?thesis
    using assms(1) t u by (auto simp: join_def contact_def Let_def split: sum.split)
qed

lemma serf_inv_coord [simp]: "serf_inv (s\<lparr>sf_coord_core := c\<rparr>) = serf_inv s"
  by (rule serf_inv_cong) (simp add: inv_part_def)

lemma serf_inv_sent [simp]: "serf_inv (s\<lparr>sf_sent := ps\<rparr>) = serf_inv s"
  by (rule serf_inv_cong) (simp add: inv_part_def)

lemma serf_inv_node_conflict [simp]: "serf_inv (handle_node_conflict nd s) = serf_inv s"
  by (rule serf_inv_cong) (simp add: inv_part_def handle_node_conflict_def spawn_task_def)

text \<open>Answering a query only sends packets.\<close>

definition only_sends :: "('i, 'a) serf \<Rightarrow> ('i, 'a) serf \<Rightarrow> bool" where
  "only_sends s t \<longleftrightarrow> (\<exists>ps. t = s\<lparr>sf_sent := ps\<rparr>)"

lemma only_sends_refl [simp]: "only_sends s s"
  unfolding only_sends_def by (rule exI [of _ "sf_sent s"]) simp

lemma only_sends_ml [simp]: "only_sends s (ml_send a b t) = only_sends s t" if "only_sends s t"
  using that by (auto simp: only_sends_def ml_send_def)

lemma only_sends_fold: "only_sends s t \<Longrightarrow> only_sends s (fold (\<lambda>m. ml_send (f m) raw) ms t)"
  by (induction ms arbitrary: t) simp_all

lemma only_sends_relay: "only_sends s t \<Longrightarrow> only_sends s (snd (relay_response P rnd rf nd resp t))"
  by (simp add: relay_response_def Let_def only_sends_fold split: sum.split)

lemma only_sends_respond: "only_sends s (snd (snd (respond P rnd now sent ev msg ctx s)))"
proof (cases "message_to_bytes P (Msg_QueryResponse \<lparr>qr_ltime = qe_ltime ev, qr_id = qe_id ev,
    qr_from = sf_local s, qr_flags = 0, qr_payload = msg\<rparr>)")
  case (Inr raw)
  let ?resp = "\<lparr>qr_ltime = qe_ltime ev, qr_id = qe_id ev, qr_from = sf_local s, qr_flags = 0, qr_payload = msg\<rparr>"
  let ?t = "ml_send (node_addr (qe_from ev)) raw s"
  have "only_sends s (snd (relay_response P rnd (qe_relay_factor ev) (sf_local s) ?resp ?t))"
    by (rule only_sends_relay) simp
  with Inr show ?thesis
    by (cases "relay_response P rnd (qe_relay_factor ev) (sf_local s) ?resp ?t")
      (simp add: respond_def Let_def respond_with_message_and_response_def split: sum.split option.split)
qed (simp add: respond_def Let_def)

lemma only_sends_handle_conflict: "only_sends s (snd (handle_conflict P rnd now sent c ev ctx s))"
  by (simp add: handle_conflict_def only_sends_respond split: option.split sum.split)

lemma only_sendsD:
  assumes "only_sends s t"
  shows "serf_inv t = serf_inv s" "sf_state t = sf_state s" "sf_coord_core t = sf_coord_core s"
  using assms by (auto simp: only_sends_def)

lemma serf_inv_exec_op:
  assumes "serf_inv s" "coord_inv s" "op_ok P now op s"
  shows "\<exists>t. exec_op P v1 now op s = Inr t \<and> serf_inv t"
proof -
  have m: "membership_inv s" using assms(1) by (simp add: serf_inv_def)
  show ?thesis
  proof (cases op)
    case (Op_message owned buf rnd)
    then show ?thesis using serf_inv_notify_message [OF assms(1)] assms(3) by simp
  next
    case (Op_merge buf is_join)
    then show ?thesis using serf_inv_merge_remote_state [OF assms(1)] assms(3) by simp
  next
    case (Op_user_event name payload cc)
    then show ?thesis using serf_inv_user_event_op [OF assms(1), of P name payload cc] assms(3) by auto
  next
    case (Op_query rnd online qid name payload params ty)
    then show ?thesis
      using serf_inv_query_in [OF assms(1), of online P now rnd qid name payload params ty] assms(3) by auto
  next
    case (Op_join pkts r ignore_old)
    then show ?thesis using serf_inv_join [OF assms(1)] assms(3) by fastforce
  next
    case (Op_force_leave sent nid prune)
    then show ?thesis
      using assms serf_inv_rest [OF assms(1) membership_force_leave [OF m]] by simp
  next
    case (Op_ping W powf rnd nid rtt payload)
    then obtain t where "exec_op P v1 now op s = Inr t" "t = s\<lparr>sf_coord_core := sf_coord_core t\<rparr>"
      using notify_ping_ok [OF assms(2)] assms(3) by fastforce
    then show ?thesis
      using assms(1) serf_inv_coord [where s = s] by metis
  next
    case (Op_answer_conflict rnd sent c ev)
    then show ?thesis
      using assms(1) by (simp add: only_sendsD [OF only_sends_handle_conflict])
  qed (use assms m in \<open>simp_all add: serf_inv_broadcast_join serf_inv_set_tags serf_inv_close
      serf_inv_rest [OF assms(1) membership_handle_node_join] serf_inv_rest [OF assms(1) membership_handle_node_leave]
      serf_inv_rest [OF assms(1) membership_handle_node_update] serf_inv_rest [OF assms(1) membership_reaper_tick]\<close>)
qed

section \<open>No operation changes the state of the instance\<close>

lemma state_of_rest: "rest_of t = rest_of s \<Longrightarrow> sf_state t = sf_state s"
  by (simp add: rest_of_def)

lemmas state_members [simp] =
  rest_of_join_intent [THEN state_of_rest] rest_of_leave_intent [THEN state_of_rest]
  rest_of_notifications [THEN state_of_rest] rest_of_reaper [THEN state_of_rest]
  rest_of_broadcast_join [THEN state_of_rest] rest_of_force_leave [THEN state_of_rest]

lemma state_user_event: "handle_user_event m s = Inr (b, t) \<Longrightarrow> sf_state t = sf_state s"
  by (subst handle_user_event_frame, assumption, simp)

lemma state_handle_query: "handle_query P now rnd rq ty s = Inr (r, t) \<Longrightarrow> sf_state t = sf_state s"
  by (subst handle_query_frame, assumption, simp)

lemma state_outputs [simp]:
  "sf_state (queue_broadcast q b s) = sf_state s"
  "sf_state (ml_send a b s) = sf_state s"
  "sf_state (queue_event_broadcast b s) = sf_state s"
  "sf_state (queue_query_broadcast b s) = sf_state s"
  "sf_state (handle_query_response now r s) = sf_state s"
  "sf_state (set_join_ignore j s) = sf_state s"
  "sf_state (witness_remote l el ql s) = sf_state s"
  "sf_state (ignore_old_events ij l s) = sf_state s"
  "sf_state (register_query_response n resp s) = sf_state s"
  by (cases q; simp add: serf_ops queue_event_broadcast_def queue_query_broadcast_def)
     (simp_all add: serf_ops queue_event_broadcast_def queue_query_broadcast_def handle_query_response_def Let_def
        set_join_ignore_def witness_remote_def ignore_old_events_def register_query_response_def split: option.split)

lemma state_dispatch_query: "dispatch_query P now rnd q s = Inr (b, t) \<Longrightarrow> sf_state t = sf_state s"
proof (cases "decode_internal_query P (qm_name (fst q)) (qm_payload (fst q))")
  case (Some r)
  then show "dispatch_query P now rnd q s = Inr (b, t) \<Longrightarrow> ?thesis"
    by (cases r) (auto simp: dispatch_query_def Let_def res_iff dest: state_handle_query)
qed (auto simp: dispatch_query_def Let_def res_iff dest: state_handle_query)

lemma state_dispatch_message: "dispatch_message P now rnd m s = Inr (x, t) \<Longrightarrow> sf_state t = sf_state s"
  by (cases m)
    (auto simp: Let_def split_def res_iff dest: state_user_event state_dispatch_query)

lemma notify_message_dispatch:
  assumes "buf \<noteq> []" "no_decode_panic (decode_message P buf) = Inr (Inr m)" "\<nexists>nd off pl. m = MR_Relay nd off pl"
  shows "notify_message P now rnd owned buf s =
    map_res (\<lambda>((b, q), s). if b then queue_broadcast q buf s else s) (dispatch_message P now rnd m s)"
  using assms by (cases m) (simp_all add: notify_message_def del: dispatch_message.simps)

lemma state_notify_message:
  assumes "notify_message P now rnd owned buf s = Inr t"
  shows "sf_state t = sf_state s"
proof (cases "buf = []")
  case False
  obtain r where r: "no_decode_panic (decode_message P buf) = Inr r"
    using assms False by (auto simp: notify_message_def res_iff)
  show ?thesis
  proof (cases "\<exists>m. r = Inr m \<and> (\<nexists>nd off pl. m = MR_Relay nd off pl)")
    case True
    then obtain m where m: "r = Inr m" "\<nexists>nd off pl. m = MR_Relay nd off pl" by blast
    obtain b q u where "dispatch_message P now rnd m s = Inr ((b, q), u)"
      "t = (if b then queue_broadcast q buf u else u)"
      using assms notify_message_dispatch [OF False r [unfolded m(1)] m(2)] by (auto simp: res_iff)
    then show ?thesis by (simp add: state_dispatch_message)
  next
    case no: False
    then show ?thesis
      using assms r False by (cases r) (auto simp: notify_message_def res_iff)
  qed
qed (use assms in \<open>simp add: notify_message_def\<close>)

lemma state_merge_events: "merge_events ms s = Inr t \<Longrightarrow> sf_state t = sf_state s"
  by (induction ms s rule: merge_events.induct) (auto simp: res_iff dest: state_user_event)

lemma state_deliver_all: "sf_state (deliver_all ms s) = sf_state s"
proof (induction ms s rule: deliver_all.induct)
  case (2 now m ms s)
  then show ?case by (cases m) simp_all
qed simp

lemma state_merge_remote_state: "merge_remote_state P now buf j s = Inr t \<Longrightarrow> sf_state t = sf_state s"
proof (cases "no_decode_panic (decode_message P buf)")
  case (Inr r)
  assume n: "merge_remote_state P now buf j s = Inr t"
  show ?thesis
  proof (cases "\<exists>pp. r = Inr (MR_PushPull pp)")
    case True
    then obtain pp where "r = Inr (MR_PushPull pp)" by blast
    then show ?thesis using n Inr
      by (cases "push_pull_from_ref P pp")
        (auto simp: merge_remote_state_def Let_def res_iff merge_push_pull_def merge_members_deliver
          state_deliver_all no_decode_panic_def dest!: state_merge_events split: if_splits sum.split_asm)
  next
    case False
    then have "t = s"
      using n Inr by (auto simp: merge_remote_state_def split: if_splits sum.splits message_ref.splits)
    then show ?thesis by simp
  qed
qed (auto simp: merge_remote_state_def split: if_splits)

lemma state_merge_all: "merge_all P now bs s = Inr t \<Longrightarrow> sf_state t = sf_state s"
  by (induction bs arbitrary: s) (auto simp: res_iff dest: state_merge_remote_state)

lemma state_broadcast_join: "broadcast_join P now l s = (r, t) \<Longrightarrow> sf_state t = sf_state s"
  using rest_of_broadcast_join [of P now l s, THEN state_of_rest] by simp

lemma state_join: "join P now (contact P now pkts r) ig s = Inr (x, t) \<Longrightarrow> sf_state t = sf_state s"
  by (auto simp: join_def contact_def Let_def res_iff dest!: state_merge_all state_broadcast_join
      split: if_splits sum.splits prod.splits)

lemma state_user_event_op: "user_event_op P name payload cc s = Inr (r, t) \<Longrightarrow> sf_state t = sf_state s"
  by (auto simp: user_event_op_def Let_def res_iff dest!: state_user_event split: if_splits sum.splits)

lemma state_query_in: "query_in P now rnd online qid name payload params ty s = Inr (r, t) \<Longrightarrow> sf_state t = sf_state s"
  unfolding query_in_def Let_def
  by (split if_split_asm, simp, split sum.split_asm, simp)
    (clarsimp simp only: res_iff split_paired_all prod.case, drule state_handle_query,
      auto split: sum.split_asm)

lemma state_ping: "notify_ping_complete P W powf rnd nid rtt pl s = Inr t \<Longrightarrow> sf_state t = sf_state s"
  by (subst notify_ping_frame, assumption, simp)

lemma state_conflict [simp]:
  "sf_state (handle_node_conflict nd s) = sf_state s"
  "sf_state (snd (handle_conflict P rnd now sent c ev ctx s)) = sf_state s"
  by (simp_all add: handle_node_conflict_def spawn_task_def only_sendsD [OF only_sends_handle_conflict])

lemma exec_op_state: "exec_op P v1 now op s = Inr t \<Longrightarrow> sf_state t = sf_state s"
  by (cases op)
    (auto simp: res_iff close_registered_def set_tags_def Let_def dest: state_ping
      dest: state_notify_message state_merge_remote_state state_user_event_op state_query_in state_join split: if_splits)

section \<open>The life of an instance\<close>

text \<open>
  What a call of \<open>leave\<close> or \<open>shutdown\<close> is doing while it is suspended, and the
  channel that tells that the instance has shut down.
\<close>

record ('i, 'a) api_state =
  ap_serf :: "('i, 'a) serf"
  ap_announcing :: nat
  ap_waiting :: nat
  ap_stopping :: nat
  ap_shutdown_closed :: bool

datatype ('i, 'a) api_label =
    A_op nat "('i, 'a) instance_op"
  | A_leave "(serf_error + unit) option"
  | A_leave_announce nat "serf_error + unit"
  | A_leave_finish
  | A_shutdown "(serf_error + unit) option"
  | A_shutdown_finish bool

text \<open>\<open>A_shutdown_finish ok\<close>: memberlist has shut down, or has failed to.\<close>

inductive api_step ::
  "('i, 'a) proto \<Rightarrow> u8 \<Rightarrow> ('i, 'a) api_state \<Rightarrow> ('i, 'a) api_label \<Rightarrow> ('i, 'a) api_state \<Rightarrow> bool"
  for P :: "('i, 'a) proto" and v1 :: u8 where
  op: "op_ok P now op (ap_serf a) \<Longrightarrow> exec_op P v1 now op (ap_serf a) = Inr t
       \<Longrightarrow> api_step P v1 a (A_op now op) (a\<lparr>ap_serf := t\<rparr>)"
| leave_now: "leave_begin (ap_serf a) = (Some r, t) \<Longrightarrow> api_step P v1 a (A_leave (Some r)) (a\<lparr>ap_serf := t\<rparr>)"
| leave_start: "leave_begin (ap_serf a) = (None, t)
       \<Longrightarrow> api_step P v1 a (A_leave None) (a\<lparr>ap_serf := t, ap_announcing := ap_announcing a + 1\<rparr>)"
| announced: "0 < ap_announcing a \<Longrightarrow> sf_clock (ap_serf a) < - 1 \<Longrightarrow> leave_announce P now (ap_serf a) = (Inr u, t)
       \<Longrightarrow> api_step P v1 a (A_leave_announce now (Inr u))
             (a\<lparr>ap_serf := t, ap_announcing := ap_announcing a - 1, ap_waiting := ap_waiting a + 1\<rparr>)"
| announce_failed: "0 < ap_announcing a \<Longrightarrow> sf_clock (ap_serf a) < - 1 \<Longrightarrow> leave_announce P now (ap_serf a) = (Inl e, t)
       \<Longrightarrow> api_step P v1 a (A_leave_announce now (Inl e)) (a\<lparr>ap_serf := t, ap_announcing := ap_announcing a - 1\<rparr>)"
| leave_done: "0 < ap_waiting a
       \<Longrightarrow> api_step P v1 a A_leave_finish
             (a\<lparr>ap_serf := leave_finish (ap_serf a), ap_waiting := ap_waiting a - 1\<rparr>)"
| shutdown_now: "shutdown_begin (ap_serf a) = (Some r, t)
       \<Longrightarrow> api_step P v1 a (A_shutdown (Some r)) (a\<lparr>ap_serf := t\<rparr>)"
| shutdown_start: "shutdown_begin (ap_serf a) = (None, t)
       \<Longrightarrow> api_step P v1 a (A_shutdown None) (a\<lparr>ap_serf := t, ap_stopping := ap_stopping a + 1\<rparr>)"
| shutdown_done: "0 < ap_stopping a
       \<Longrightarrow> api_step P v1 a (A_shutdown_finish ok)
             (a\<lparr>ap_stopping := ap_stopping a - 1, ap_shutdown_closed := ap_shutdown_closed a \<or> ok\<rparr>)"

definition api_start :: "('i, 'a) serf \<Rightarrow> ('i, 'a) api_state" where
  "api_start s = \<lparr>ap_serf = s, ap_announcing = 0, ap_waiting = 0, ap_stopping = 0, ap_shutdown_closed = False\<rparr>"

end
