(* ===== verification/Instance_Coords.thy ===== *)
theory Instance_Coords
  imports Instance
begin

text \<open>
  Every operation of the instance keeps the invariant of its coordinates: all
  but the handling of pings either leave them alone or forget an erased node.
\<close>

definition instance_inv :: "('i, 'a) serf \<Rightarrow> bool" where
  "instance_inv s \<longleftrightarrow> serf_inv s \<and> coord_inv s"

lemma coord_inv_cong: "sf_coord_core t = sf_coord_core s \<Longrightarrow> coord_inv t = coord_inv s"
  by (simp add: coord_inv_def)

section \<open>Members\<close>

lemma coord_inv_ops [simp]:
  "coord_inv (send_event e s) = coord_inv s"
  "coord_inv (send_member_event ty m s) = coord_inv s"
  "coord_inv (spawn_task tk s) = coord_inv s"
  "coord_inv (ml_send a b s) = coord_inv s"
  "coord_inv (broadcast b nt s) = coord_inv s"
  "coord_inv (upd_members f s) = coord_inv s"
  "coord_inv (s\<lparr>sf_clock := c\<rparr>) = coord_inv s"
  "coord_inv (s\<lparr>sf_members := mb\<rparr>) = coord_inv s"
  "coord_inv (s\<lparr>sf_opts := op\<rparr>) = coord_inv s"
  "coord_inv (s\<lparr>sf_state := st\<rparr>) = coord_inv s"
  "coord_inv (s\<lparr>sf_event_clock := c\<rparr>) = coord_inv s"
  "coord_inv (s\<lparr>sf_query_core := qc\<rparr>) = coord_inv s"
  "coord_inv (set_join_ignore j s) = coord_inv s"
  "coord_inv (queue_broadcast q b s) = coord_inv s"
  "coord_inv (queue_event_broadcast b s) = coord_inv s"
  "coord_inv (queue_query_broadcast b s) = coord_inv s"
  "coord_inv (witness_remote l el ql s) = coord_inv s"
  "coord_inv (ignore_old_events ij l s) = coord_inv s"
  "coord_inv (register_query_response n resp s) = coord_inv s"
  "coord_inv (handle_query_response now r s) = coord_inv s"
  by (cases q; rule coord_inv_cong;
      simp add: serf_ops queue_event_broadcast_def queue_query_broadcast_def handle_query_response_def Let_def
        set_join_ignore_def witness_remote_def ignore_old_events_def register_query_response_def split: option.split)+

lemma coord_inv_maybe_prune [simp]: "coord_inv s \<Longrightarrow> coord_inv (maybe_prune p m s)"
  by (simp add: maybe_prune_def handle_prune_def Let_def coord_inv_erase_node)

lemma coord_inv_join_intent [simp]: "coord_inv (snd (handle_node_join_intent now m s)) = coord_inv s"
  by (simp add: handle_node_join_intent_def Let_def split: option.split prod.split)

lemma coord_inv_leave_transition [simp]: "coord_inv s \<Longrightarrow> coord_inv (snd (leave_transition m ms s))"
  by (simp add: leave_transition_def Let_def split: member_status.split)

lemma coord_inv_leave_intent [simp]: "coord_inv s \<Longrightarrow> coord_inv (snd (handle_node_leave_intent now m s))"
  by (simp add: handle_node_leave_intent_def Let_def split: option.split prod.split)

lemma coord_inv_notifications [simp]:
  "coord_inv (handle_node_join P n s) = coord_inv s"
  "coord_inv (handle_node_leave now n s) = coord_inv s"
  "coord_inv (handle_node_update P v1 n s) = coord_inv s"
  by (simp_all add: handle_node_join_def handle_node_leave_def handle_node_update_def Let_def
      split: sum.split option.split member_status.split prod.split)

lemma coord_inv_reap_loop [simp]: "coord_inv s \<Longrightarrow> coord_inv (reap_loop rd l timeout now i s)"
proof (induction rd l timeout now i s rule: reap_loop.induct)
  case (1 rd l timeout now i s)
  then show ?case by (subst reap_loop.simps) (simp add: Let_def coord_inv_erase_node)
qed

lemma coord_inv_reaper [simp]: "coord_inv s \<Longrightarrow> coord_inv (reaper_tick rd now s)"
  by (simp add: reaper_tick_def reap_left_def reap_failed_def)

lemma coord_inv_broadcast_join [simp]: "coord_inv (snd (broadcast_join P now l s)) = coord_inv s"
  by (simp add: broadcast_join_def Let_def split: sum.split)

lemma coord_inv_force_leave [simp]: "coord_inv s \<Longrightarrow> coord_inv (snd (force_leave P now sent i p s))"
  by (simp add: force_leave_def Let_def split: sum.split)

lemma coord_inv_leave_announce [simp]: "coord_inv s \<Longrightarrow> coord_inv (snd (leave_announce P now s))"
  by (simp add: leave_announce_def Let_def split: sum.split)

section \<open>Packets, queries and exchanges\<close>

lemma coord_inv_user_event: "handle_user_event m s = Inr (b, t) \<Longrightarrow> coord_inv t = coord_inv s"
  by (rule coord_inv_cong) (subst handle_user_event_frame, assumption, simp)

lemma coord_inv_handle_query: "handle_query P now rnd rq ty s = Inr (r, t) \<Longrightarrow> coord_inv t = coord_inv s"
  by (rule coord_inv_cong) (subst handle_query_frame, assumption, simp)

lemma coord_inv_dispatch_query: "dispatch_query P now rnd q s = Inr (b, t) \<Longrightarrow> coord_inv t = coord_inv s"
proof (cases "decode_internal_query P (qm_name (fst q)) (qm_payload (fst q))")
  case (Some r)
  then show "dispatch_query P now rnd q s = Inr (b, t) \<Longrightarrow> ?thesis"
    by (cases r) (auto simp: dispatch_query_def Let_def res_iff dest: coord_inv_handle_query)
qed (auto simp: dispatch_query_def Let_def res_iff dest: coord_inv_handle_query)

lemma coord_inv_dispatch_message:
  "dispatch_message P now rnd m s = Inr (x, t) \<Longrightarrow> coord_inv s \<Longrightarrow> coord_inv t"
  by (cases m)
    (auto simp: Let_def split_def res_iff dest: coord_inv_user_event coord_inv_dispatch_query)

lemma coord_inv_notify_message:
  assumes "notify_message P now rnd owned buf s = Inr t" "coord_inv s"
  shows "coord_inv t"
proof (cases "buf = []")
  case False
  obtain r where r: "no_decode_panic (decode_message P buf) = Inr r"
    using assms(1) False by (auto simp: notify_message_def res_iff)
  show ?thesis
  proof (cases "\<exists>m. r = Inr m \<and> (\<nexists>nd off pl. m = MR_Relay nd off pl)")
    case True
    then obtain m where m: "r = Inr m" "\<nexists>nd off pl. m = MR_Relay nd off pl" by blast
    obtain b q u where "dispatch_message P now rnd m s = Inr ((b, q), u)"
      "t = (if b then queue_broadcast q buf u else u)"
      using assms(1) notify_message_dispatch [OF False r [unfolded m(1)] m(2)] by (auto simp: res_iff)
    then show ?thesis using coord_inv_dispatch_message assms(2) by auto
  next
    case no: False
    then show ?thesis
      using assms r False by (cases r) (auto simp: notify_message_def res_iff)
  qed
qed (use assms in \<open>simp add: notify_message_def\<close>)

lemma coord_inv_merge_events: "merge_events ms s = Inr t \<Longrightarrow> coord_inv t = coord_inv s"
  by (induction ms s rule: merge_events.induct) (auto simp: res_iff dest: coord_inv_user_event)

lemma coord_inv_deliver_all [simp]: "coord_inv s \<Longrightarrow> coord_inv (deliver_all ms s)"
proof (induction ms s rule: deliver_all.induct)
  case (2 now m ms s)
  then show ?case by (cases m) simp_all
qed simp

lemma coord_inv_merge_remote_state:
  assumes "merge_remote_state P now buf j s = Inr t" "coord_inv s"
  shows "coord_inv t"
proof (cases "no_decode_panic (decode_message P buf)")
  case (Inr r)
  show ?thesis
  proof (cases "\<exists>pp. r = Inr (MR_PushPull pp)")
    case True
    then obtain pp where "r = Inr (MR_PushPull pp)" by blast
    then show ?thesis using assms Inr
      by (cases "push_pull_from_ref P pp")
        (auto simp: merge_remote_state_def Let_def res_iff merge_push_pull_def merge_members_deliver
          no_decode_panic_def dest!: coord_inv_merge_events split: if_splits sum.split_asm)
  next
    case False
    then have "t = s"
      using assms(1) Inr by (auto simp: merge_remote_state_def split: if_splits sum.splits message_ref.splits)
    then show ?thesis using assms(2) by simp
  qed
qed (use assms in \<open>auto simp: merge_remote_state_def split: if_splits\<close>)

lemma coord_inv_merge_all: "merge_all P now bs s = Inr t \<Longrightarrow> coord_inv s \<Longrightarrow> coord_inv t"
  by (induction bs arbitrary: s) (auto simp: res_iff dest: coord_inv_merge_remote_state)

lemma coord_inv_broadcast_joinD: "broadcast_join P now l s = (r, t) \<Longrightarrow> coord_inv t = coord_inv s"
  using coord_inv_broadcast_join [of P now l s] by simp

lemma coord_inv_join: "join P now (contact P now pkts r) ig s = Inr (x, t) \<Longrightarrow> coord_inv s \<Longrightarrow> coord_inv t"
  by (auto simp: join_def contact_def Let_def res_iff dest!: coord_inv_merge_all coord_inv_broadcast_joinD
      split: if_splits sum.splits prod.splits)

lemma coord_inv_user_event_op: "user_event_op P name payload cc s = Inr (r, t) \<Longrightarrow> coord_inv t = coord_inv s"
  by (auto simp: user_event_op_def Let_def res_iff dest!: coord_inv_user_event split: if_splits sum.splits)

lemma coord_inv_query_in:
  "query_in P now rnd online qid name payload params ty s = Inr (r, t) \<Longrightarrow> coord_inv t = coord_inv s"
  unfolding query_in_def Let_def
  by (split if_split_asm, simp, split sum.split_asm, simp)
    (clarsimp simp only: res_iff split_paired_all prod.case, drule coord_inv_handle_query,
      auto split: sum.split_asm)

section \<open>Every operation\<close>

lemma coord_inv_handle_conflict [simp]:
  "coord_inv (snd (handle_conflict P rnd now sent c ev ctx s)) = coord_inv s"
  by (rule coord_inv_cong [OF only_sendsD(3) [OF only_sends_handle_conflict]])

lemma coord_inv_exec_op:
  assumes "exec_op P v1 now op s = Inr t" "coord_inv s" "op_ok P now op s"
  shows "coord_inv t"
proof (cases op)
  case (Op_ping W powf rnd nid rtt payload)
  then show ?thesis using notify_ping_ok [OF assms(2), of P W payload powf rnd nid rtt] assms(1,3) by auto
qed (use assms in \<open>auto simp: res_iff close_registered_def set_tags_def handle_node_conflict_def Let_def
    coord_inv_user_event_op coord_inv_query_in
    dest: coord_inv_notify_message coord_inv_merge_remote_state coord_inv_join
    split: if_splits\<close>)

lemma instance_inv_exec_op:
  assumes "instance_inv s" "op_ok P now op s"
  shows "\<exists>t. exec_op P v1 now op s = Inr t \<and> instance_inv t"
  using serf_inv_exec_op [of s P now op v1] coord_inv_exec_op [of P v1 now op s] assms
  by (auto simp: instance_inv_def)

end
