(* ===== verification/Instance_Facts.thy ===== *)
theory Instance_Facts
  imports Instance_Coords
begin

text \<open>
  The life of an instance: the invariant holds along every run of its steps,
  and the state of the instance is a function of the calls made so far.
\<close>

section \<open>The parts of a leave\<close>

lemma serf_inv_state [simp]: "serf_inv (s\<lparr>sf_state := st\<rparr>) = serf_inv s"
  by (rule serf_inv_cong) (simp add: inv_part_def)

lemma serf_inv_leave_begin: "serf_inv s \<Longrightarrow> leave_begin s = (r, t) \<Longrightarrow> serf_inv t"
  by (auto simp: leave_begin_def split: serf_state.splits)

lemma serf_inv_shutdown_begin: "serf_inv s \<Longrightarrow> shutdown_begin s = (r, t) \<Longrightarrow> serf_inv t"
  by (auto simp: shutdown_begin_def split: serf_state.splits)

lemma serf_inv_leave_finish: "serf_inv s \<Longrightarrow> serf_inv (leave_finish s)"
  by (auto simp: leave_finish_def split: serf_state.split)

lemma leave_announce_rest: "rest_of (snd (leave_announce P now s)) = rest_of s"
  by (simp add: leave_announce_def Let_def split: sum.split)

lemma serf_inv_leave_announce:
  assumes "serf_inv s" "sf_clock s < - 1"
  shows "serf_inv (snd (leave_announce P now s))"
proof -
  let ?s = "s\<lparr>sf_clock := snd (clock_increment (sf_clock s))\<rparr>"
  let ?m = "\<lparr>lm_ltime = clock_time (sf_clock s), lm_id = local_id s, lm_prune = False\<rparr>"
  have "membership_inv ?s"
    using assms word_less_Suc_max [OF assms(2)]
    by (auto simp: serf_inv_def membership_inv_def clock_ahead_def clock_increment_def intro: ahead_mono)
  then have "membership_inv (snd (handle_node_leave_intent now ?m ?s))"
    using assms(2) by (intro membership_leave_intent) (simp_all add: clock_time_def)
  then have "membership_inv (snd (leave_announce P now s))"
    by (simp add: leave_announce_def Let_def split: sum.split)
  then show ?thesis
    by (rule serf_inv_rest [OF assms(1) _ leave_announce_rest])
qed

section \<open>The invariant along a run\<close>

definition fresh :: "('i, 'a) api_state \<Rightarrow> bool" where
  "fresh a \<longleftrightarrow> (\<exists>s. a = api_start s \<and> instance_inv s \<and> sf_state s = SerfAlive)"

lemma coord_inv_leave_shutdown:
  "leave_begin s = (r, t) \<Longrightarrow> coord_inv t = coord_inv s"
  "shutdown_begin s = (r, t) \<Longrightarrow> coord_inv t = coord_inv s"
  "coord_inv (leave_finish s) = coord_inv s"
  by (auto simp: leave_begin_def shutdown_begin_def leave_finish_def split: serf_state.splits)

lemma instance_inv_leave_announce:
  "instance_inv s \<Longrightarrow> sf_clock s < - 1 \<Longrightarrow> leave_announce P now s = (r, t) \<Longrightarrow> instance_inv t"
  using serf_inv_leave_announce [of s P now] coord_inv_leave_announce [of s P now]
  by (simp add: instance_inv_def)

lemma api_step_inv: "api_step P v1 a l b \<Longrightarrow> instance_inv (ap_serf a) \<Longrightarrow> instance_inv (ap_serf b)"
proof (induction rule: api_step.induct)
  case (op now oper a t)
  then show ?case using instance_inv_exec_op [of "ap_serf a" P now oper v1] by auto
qed (auto simp: instance_inv_def coord_inv_leave_shutdown
    intro: serf_inv_leave_begin serf_inv_shutdown_begin serf_inv_leave_finish
    dest: instance_inv_leave_announce [unfolded instance_inv_def, OF conjI])

interpretation instance_steps: step_system fresh "api_step P v1" "\<lambda>a. instance_inv (ap_serf a)" for P v1
  by unfold_locales (auto simp: fresh_def api_start_def intro: api_step_inv)

section \<open>The state and the calls\<close>

fun is_announce :: "('i, 'a) api_label \<Rightarrow> bool" where
  "is_announce (A_leave_announce now r) = True"
| "is_announce _ = False"

fun is_announce_ok :: "('i, 'a) api_label \<Rightarrow> bool" where
  "is_announce_ok (A_leave_announce now (Inr u)) = True"
| "is_announce_ok _ = False"

fun is_shutdown_finish :: "('i, 'a) api_label \<Rightarrow> bool" where
  "is_shutdown_finish (A_shutdown_finish ok) = True"
| "is_shutdown_finish _ = False"

text \<open>How many labels of a kind a run has.\<close>

definition occurs :: "('l \<Rightarrow> bool) \<Rightarrow> 'l list \<Rightarrow> nat" where
  "occurs q ls = length (filter q ls)"

lemma occurs_simps [simp]:
  "occurs q [] = 0"
  "occurs q (ls @ [l]) = occurs q ls + (if q l then 1 else 0)"
  by (simp_all add: occurs_def)

lemma occurs_pos: "0 < occurs q ls \<longleftrightarrow> (\<exists>l \<in> set ls. q l)"
  by (auto simp: occurs_def filter_empty_conv)

lemma occurs_mono: "(\<And>l. p l \<Longrightarrow> q l) \<Longrightarrow> occurs p ls \<le> occurs q ls"
  by (induction ls) (auto simp: occurs_def)

lemma occurs_less:
  assumes "l \<in> set ls" "\<And>l. p l \<Longrightarrow> q l" "\<not> p l" "q l"
  shows "occurs p ls < occurs q ls"
  using assms occurs_mono [of p q]
  by (induction ls) (auto simp: occurs_def less_Suc_eq_le)

lemma is_announce_ok_is: "is_announce_ok l \<Longrightarrow> is_announce l"
  by (cases l rule: is_announce_ok.cases) simp_all

definition state_after :: "('i, 'a) api_label list \<Rightarrow> serf_state" where
  "state_after ls =
     (if 0 < occurs ((=) (A_shutdown None)) ls then SerfShutdown
      else if occurs ((=) (A_leave None)) ls = 0 then SerfAlive
      else if 0 < occurs ((=) A_leave_finish) ls then SerfLeft else SerfLeaving)"

lemma state_after_other:
  "l \<noteq> A_shutdown None \<Longrightarrow> l \<noteq> A_leave None \<Longrightarrow> l \<noteq> A_leave_finish \<Longrightarrow> state_after (ls @ [l]) = state_after ls"
  by (auto simp: state_after_def)

definition history_inv :: "('i, 'a) api_label list \<Rightarrow> ('i, 'a) api_state \<Rightarrow> bool" where
  "history_inv ls a \<longleftrightarrow>
     sf_state (ap_serf a) = state_after ls \<and>
     occurs ((=) (A_leave None)) ls \<le> 1 \<and> occurs ((=) (A_shutdown None)) ls \<le> 1 \<and>
     occurs ((=) (A_leave None)) ls = ap_announcing a + occurs is_announce ls \<and>
     occurs is_announce_ok ls = ap_waiting a + occurs ((=) A_leave_finish) ls \<and>
     occurs is_announce_ok ls \<le> occurs is_announce ls \<and>
     occurs ((=) (A_shutdown None)) ls = ap_stopping a + occurs is_shutdown_finish ls \<and>
     (ap_shutdown_closed a \<longleftrightarrow> 0 < occurs ((=) (A_shutdown_finish True)) ls) \<and>
     occurs ((=) (A_shutdown_finish True)) ls + occurs ((=) (A_shutdown_finish False)) ls =
       occurs is_shutdown_finish ls"

lemma history_start: "sf_state s = SerfAlive \<Longrightarrow> history_inv [] (api_start s)"
  by (simp add: history_inv_def state_after_def api_start_def)

lemma state_leave_announce: "leave_announce P now s = (r, t) \<Longrightarrow> sf_state t = sf_state s"
  using leave_announce_rest [of P now s, THEN state_of_rest] by simp

lemma history_step:
  assumes "api_step P v1 a l b" "history_inv ls a"
  shows "history_inv (ls @ [l]) b"
  using assms
proof (induction rule: api_step.induct)
  case (op now oper a t)
  then show ?case by (simp add: history_inv_def state_after_other exec_op_state)
next
  case (leave_now a r t)
  then have "t = ap_serf a" by (auto simp: leave_begin_def split: serf_state.splits)
  with leave_now show ?case by (simp add: history_inv_def state_after_other)
next
  case (leave_start a t)
  then show ?case
    by (auto simp: history_inv_def state_after_def leave_begin_def split: serf_state.splits if_splits)
next
  case (announced a now u t)
  then show ?case
    by (auto simp: history_inv_def state_after_other dest: state_leave_announce)
next
  case (announce_failed a now e t)
  then show ?case
    by (auto simp: history_inv_def state_after_other dest: state_leave_announce)
next
  case (leave_done a)
  then show ?case
    by (auto simp: history_inv_def state_after_def leave_finish_def split: serf_state.splits if_splits)
next
  case (shutdown_now a r t)
  then have "t = ap_serf a" by (auto simp: shutdown_begin_def split: serf_state.splits)
  with shutdown_now show ?case by (simp add: history_inv_def state_after_other)
next
  case (shutdown_start a t)
  then show ?case
    by (auto simp: history_inv_def state_after_def shutdown_begin_def split: serf_state.splits if_splits)
next
  case (shutdown_done a ok)
  then show ?case by (cases ok) (auto simp: history_inv_def state_after_other)
qed

lemma history_run: "run (api_step P v1) a ls b \<Longrightarrow> history_inv [] a \<Longrightarrow> history_inv ls b"
  by (induction rule: run.induct) (auto intro: history_step)

section \<open>Merging the state of another instance\<close>

lemma view_same_members: "sf_members t = sf_members s \<Longrightarrow> member_view i t = member_view i s"
  by (simp add: member_view_def)

lemma no_refute_cong: "sf_local t = sf_local s \<Longrightarrow> sf_state t = sf_state s \<Longrightarrow> no_refute i t = no_refute i s"
  by (simp add: no_refute_def)

lemma witness_remote_simps [simp]:
  "sf_members (witness_remote l el ql s) = sf_members s"
  "sf_local (witness_remote l el ql s) = sf_local s"
  "sf_event_core (witness_remote l el ql s) = sf_event_core s"
  "sf_event_tx (witness_remote l el ql s) = sf_event_tx s"
  "sf_event_join_ignore (witness_remote l el ql s) = sf_event_join_ignore s"
  "sf_clock (witness_remote l el ql s) = witness_below l (sf_clock s)"
  "sf_event_clock (witness_remote l el ql s) = witness_below el (sf_event_clock s)"
  "sf_query_clock (witness_remote l el ql s) = witness_below ql (sf_query_clock s)"
  by (simp_all add: witness_remote_def)

lemma ignore_old_events_simps [simp]:
  "sf_members (ignore_old_events j l s) = sf_members s"
  "sf_clock (ignore_old_events j l s) = sf_clock s"
  "sf_event_clock (ignore_old_events j l s) = sf_event_clock s"
  "sf_query_clock (ignore_old_events j l s) = sf_query_clock s"
  "sf_event_tx (ignore_old_events j l s) = sf_event_tx s"
  "sf_event_join_ignore (ignore_old_events j l s) = sf_event_join_ignore s"
  by (simp_all add: ignore_old_events_def)

text \<open>The merge in its parts: the clocks, the members, the events.\<close>

lemma merge_remote_parts:
  assumes "proto_ok P" "serf_inv s" "serf_inv r" "sf_clock r < - 1"
    "wf_message P (Msg_PushPull (push_pull_of r))"
  obtains u v where "merge_remote_state P now (local_state P r) is_join s = Inr u" "serf_inv u"
    "v = ignore_old_events is_join (sf_event_clock r) (merge_members now (push_pull_of r)
       (witness_remote (sf_clock r) (sf_event_clock r) (sf_query_clock r) s))"
    "merge_events (remote_events (pp_events (push_pull_of r))) v = Inr u" "serf_inv v"
    "sf_event_clock v \<le> sf_event_clock u"
    "u = v\<lparr>sf_event_core := sf_event_core u, sf_event_clock := sf_event_clock u, sf_event_tx := sf_event_tx u\<rparr>"
proof -
  let ?s = "witness_remote (sf_clock r) (sf_event_clock r) (sf_query_clock r) s"
  let ?v = "ignore_old_events is_join (sf_event_clock r) (merge_members now (push_pull_of r) ?s)"
  have ok: "pp_times_ok (push_pull_of r)" by (rule push_pull_times_ok [OF assms(3,4)])
  have "serf_inv (merge_members now (push_pull_of r) ?s)"
    unfolding merge_members_deliver using serf_inv_witness_remote [OF assms(2)] ok
    by (intro serf_inv_deliver_all) (simp_all add: pp_times_ok_def list_all_iff)
  then have v: "serf_inv ?v" by (rule serf_inv_ignore_old)
  obtain u where "merge_events (remote_events (pp_events (push_pull_of r))) ?v = Inr u" "serf_inv u"
    "sf_event_clock ?v \<le> sf_event_clock u"
    "u = ?v\<lparr>sf_event_core := sf_event_core u, sf_event_clock := sf_event_clock u, sf_event_tx := sf_event_tx u\<rparr>"
    using merge_events_returns [OF v] ok unfolding pp_times_ok_def by blast
  then show ?thesis
    using that [OF _ _ refl] v merge_local_state [OF assms(1,5), of now is_join s]
    by (simp add: merge_push_pull_def push_pull_of_def clock_time_def)
qed

lemma merge_remote_effect:
  assumes "proto_ok P" "serf_inv s" "serf_inv r" "sf_clock r < - 1"
    "wf_message P (Msg_PushPull (push_pull_of r))"
  shows "\<exists>u. merge_remote_state P now (local_state P r) is_join s = Inr u \<and> serf_inv u \<and>
    (\<forall>i v. member_view i s = Some v \<longrightarrow> no_refute i s \<longrightarrow>
       member_view i u = Some (pulled (member_view i r) v)) \<and>
    sf_clock r \<le> sf_clock u \<and> sf_event_clock r \<le> sf_event_clock u \<and> sf_query_clock r \<le> sf_query_clock u \<and>
    sf_clock s \<le> sf_clock u \<and> sf_event_clock s \<le> sf_event_clock u \<and> sf_query_clock s \<le> sf_query_clock u"
proof -
  let ?s = "witness_remote (sf_clock r) (sf_event_clock r) (sf_query_clock r) s"
  let ?m = "merge_members now (push_pull_of r) ?s"
  obtain u v where u: "merge_remote_state P now (local_state P r) is_join s = Inr u" "serf_inv u"
    and v: "v = ignore_old_events is_join (sf_event_clock r) ?m" "sf_event_clock v \<le> sf_event_clock u"
    and eq: "u = v\<lparr>sf_event_core := sf_event_core u, sf_event_clock := sf_event_clock u, sf_event_tx := sf_event_tx u\<rparr>"
    by (rule merge_remote_parts [OF assms])
  have m: "sf_members u = sf_members ?m" "sf_clock u = sf_clock ?m" "sf_query_clock u = sf_query_clock ?m"
    by (subst eq, simp add: v(1))+
  have ev: "sf_event_clock ?s \<le> sf_event_clock u" "sf_query_clock u = sf_query_clock ?s"
    using v m(3) deliver_all_rest [of "map (Pair now) (pull_intents (push_pull_of r))" ?s]
    by (simp_all add: merge_members_deliver)
  have "sf_clock ?s \<le> sf_clock u"
    using m(2) deliver_all_clock_mono [of "map (Pair now) (pull_intents (push_pull_of r))" ?s]
      push_pull_times_ok [OF assms(3,4)]
    by (simp add: merge_members_deliver pp_times_ok_def list_all_iff)
  moreover have "member_view i u = Some (pulled (member_view i r) w)"
    if "member_view i s = Some w" "no_refute i s" for i w
    using merge_members_view [OF assms(3), of i ?s w now] that m(1) view_same_members [of u ?m i]
      view_same_members [of ?s s i] no_refute_cong [of ?s s i] by simp
  ultimately show ?thesis
    using u ev witness_below_ge(1) [of "sf_clock s" "sf_clock r"] witness_below_ge(2) [of "sf_clock r" "sf_clock s"]
      witness_below_ge(1) [of "sf_event_clock s" "sf_event_clock r"] witness_below_ge(2) [of "sf_event_clock r" "sf_event_clock s"]
      witness_below_ge(1) [of "sf_query_clock s" "sf_query_clock r"] witness_below_ge(2) [of "sf_query_clock r" "sf_query_clock s"]
    by (intro exI [of _ u]) auto
qed

section \<open>Joining without the past\<close>

fun is_user :: "('i, 'a) crate_event \<Rightarrow> bool" where
  "is_user (Ev_User m) = True"
| "is_user _ = False"

abbreviation user_events_of :: "('i, 'a) serf \<Rightarrow> ('i, 'a) crate_event list" where
  "user_events_of s \<equiv> filter is_user (sf_event_tx s)"

lemma users_ops [simp]:
  "user_events_of (send_member_event ty m s) = user_events_of s"
  "user_events_of (erase_node i ms s) = user_events_of s"
  by (simp_all add: serf_ops reap_event_def)

lemma users_maybe_prune [simp]: "user_events_of (maybe_prune p m s) = user_events_of s"
  by (simp add: maybe_prune_def handle_prune_def Let_def reap_event_def)

lemma users_join_intent [simp]: "user_events_of (snd (handle_node_join_intent now m s)) = user_events_of s"
  by (simp add: handle_node_join_intent_def Let_def split: option.split prod.split)

lemma users_leave_intent [simp]: "user_events_of (snd (handle_node_leave_intent now m s)) = user_events_of s"
  by (simp add: handle_node_leave_intent_def leave_transition_def Let_def spawn_task_def
      split: option.split prod.split member_status.split)

lemma users_deliver_all: "user_events_of (deliver_all ms s) = user_events_of s"
proof (induction ms s rule: deliver_all.induct)
  case (2 now m ms s)
  then show ?case by (cases m) simp_all
qed simp

lemma users_broadcast_join: "user_events_of (snd (broadcast_join P now l s)) = user_events_of s"
proof -
  have "user_events_of (snd (broadcast_join P now l s)) =
      user_events_of (snd (handle_node_join_intent now \<lparr>jm_ltime = l, jm_id = local_id s\<rparr>
        (s\<lparr>sf_clock := clock_witness l (sf_clock s)\<rparr>)))"
    by (simp add: broadcast_join_def Let_def broadcast_def split: sum.split)
  then show ?thesis by simp
qed

lemma handle_user_event_old:
  "ue_ltime m < ec_min_time (sf_event_core s) \<Longrightarrow>
   handle_user_event m s = Inr (False, s\<lparr>sf_event_clock := clock_witness (ue_ltime m) (sf_event_clock s)\<rparr>)"
  by (simp add: handle_user_event_def)

lemma merge_events_old:
  "list_all (\<lambda>m. ue_ltime m < ec_min_time (sf_event_core s)) ms \<Longrightarrow>
   \<exists>c. merge_events ms s = Inr (s\<lparr>sf_event_clock := c\<rparr>)"
proof (induction ms arbitrary: s)
  case Nil
  then show ?case by (intro exI [of _ "sf_event_clock s"]) simp
next
  case (Cons m ms)
  then show ?case
    using Cons.IH [of "s\<lparr>sf_event_clock := clock_witness (ue_ltime m) (sf_event_clock s)\<rparr>"]
    by (auto simp: handle_user_event_old)
qed

text \<open>A remote state that encodes and whose clock can still advance.\<close>

definition sendable :: "('i, 'a) proto \<Rightarrow> ('i, 'a) serf \<Rightarrow> bool" where
  "sendable P r \<longleftrightarrow> serf_inv r \<and> sf_clock r < - 1 \<and> wf_message P (Msg_PushPull (push_pull_of r))"

lemma merge_ignoring:
  assumes "proto_ok P" "serf_inv s" "sendable P r" "sf_event_join_ignore s"
  shows "\<exists>u. merge_remote_state P now (local_state P r) True s = Inr u \<and> serf_inv u \<and>
    sf_event_join_ignore u \<and> user_events_of u = user_events_of s \<and>
    sf_event_clock r \<le> ec_min_time (sf_event_core u) \<and>
    ec_min_time (sf_event_core s) \<le> ec_min_time (sf_event_core u)"
proof -
  let ?m = "merge_members now (push_pull_of r)
    (witness_remote (sf_clock r) (sf_event_clock r) (sf_query_clock r) s)"
  have r: "serf_inv r" "sf_clock r < - 1" "wf_message P (Msg_PushPull (push_pull_of r))"
    using assms(3) by (simp_all add: sendable_def)
  obtain u v where u: "merge_remote_state P now (local_state P r) True s = Inr u" "serf_inv u"
    and v: "v = ignore_old_events True (sf_event_clock r) ?m"
    and ev: "merge_events (remote_events (pp_events (push_pull_of r))) v = Inr u"
    by (rule merge_remote_parts [OF assms(1,2) r])
  have m: "sf_event_core ?m = sf_event_core s" "sf_event_join_ignore ?m = sf_event_join_ignore s"
    "user_events_of ?m = user_events_of s"
    by (simp_all add: merge_members_deliver deliver_all_rest users_deliver_all)
  have min: "sf_event_clock r \<le> ec_min_time (sf_event_core v)"
    "ec_min_time (sf_event_core s) \<le> ec_min_time (sf_event_core v)"
    using m(1,2) assms(4) by (auto simp: v ignore_old_events_def)
  have "list_all (\<lambda>m. ue_ltime m < ec_min_time (sf_event_core v)) (remote_events (pp_events (push_pull_of r)))"
    using push_pull_events_behind [of r] r(1) min(1) by (auto simp: list_all_iff serf_inv_def intro: less_le_trans)
  from merge_events_old [OF this] obtain c where "u = v\<lparr>sf_event_clock := c\<rparr>"
    using ev by auto
  then show ?thesis
    using u min m(2,3) assms(4) by (simp add: v)
qed

lemma merge_all_ignoring:
  assumes "proto_ok P" "serf_inv s" "list_all (sendable P) rs" "sf_event_join_ignore s"
  shows "\<exists>u. merge_all P now (map (local_state P) rs) s = Inr u \<and> serf_inv u \<and>
    user_events_of u = user_events_of s \<and>
    (\<forall>r \<in> set rs. sf_event_clock r \<le> ec_min_time (sf_event_core u)) \<and>
    ec_min_time (sf_event_core s) \<le> ec_min_time (sf_event_core u)"
  using assms(2-4)
proof (induction rs arbitrary: s)
  case (Cons r rs)
  obtain t where t: "merge_remote_state P now (local_state P r) True s = Inr t" "serf_inv t"
    "sf_event_join_ignore t" "user_events_of t = user_events_of s"
    "sf_event_clock r \<le> ec_min_time (sf_event_core t)"
    "ec_min_time (sf_event_core s) \<le> ec_min_time (sf_event_core t)"
    using merge_ignoring [OF assms(1) Cons.prems(1), of r now] Cons.prems by auto
  show ?case
    using Cons.IH [OF t(2) _ t(3)] Cons.prems(2) t by (auto intro: order_trans)
qed simp

end
