(* ===== verification/Instance_Theorems.thy ===== *)
theory Instance_Theorems
  imports Instance_Facts Serf_Sample
begin

text \<open>
  The properties of the instance as a whole: no operation gets stuck, the state
  is a function of the calls made, exchanging states spreads what a node knows,
  and what it does not spread.
\<close>

section \<open>Properties\<close>



text \<open>A leave while a shutdown comes in between; the sample instance is alone,
  so the leave is not broadcast.\<close>

definition sample_life :: "(u8, u8) api_label list" where
  "sample_life = [A_leave None, A_shutdown None, A_leave_announce 3 (Inr ()), A_leave_finish, A_shutdown_finish False]"

definition sample_gone :: "(u8, u8) serf" where
  "sample_gone = snd (leave_announce sample_proto 3 (sample_new\<lparr>sf_state := SerfShutdown\<rparr>))"

lemma sample_new_fields:
  "sf_state sample_new = SerfAlive" "sf_clock sample_new = 1" "sf_members sample_new = members_default"
  "sf_local sample_new = sample_node 1" "sf_event_clock sample_new = 1" "sf_query_clock sample_new = 1"
  "sf_opts sample_new = sample_options" "sf_event_tx sample_new = []"
  by (simp_all add: sample_defs)

lemma sample_announce:
  "leave_announce sample_proto 3 (sample_new\<lparr>sf_state := SerfShutdown\<rparr>) = (Inr (), sample_gone)"
  "sf_state sample_gone = SerfShutdown"
  by (simp_all add: sample_gone_def leave_announce_def Let_def handle_node_leave_intent_def upsert_intent_def
      sample_new_fields members_default_def has_alive_members_def)

lemma sample_clock_ok: "(1::u64) < - 1" "(2::u64) < - 1" "(6::u64) < - 1" "(5::u64) < - 1" "(0::u64) < - 1"
  by code_simp+


lemma sample_life_run:
  "run (api_step sample_proto 1) (api_start sample_new) sample_life (api_start sample_gone)"
proof -
  let ?at = "\<lambda>st s n w k. \<lparr>ap_serf = s\<lparr>sf_state := st\<rparr>, ap_announcing = n, ap_waiting = w, ap_stopping = k,
    ap_shutdown_closed = False\<rparr>"
  let ?step = "api_step sample_proto 1"
  have gone: "sample_gone\<lparr>sf_state := SerfShutdown\<rparr> = sample_gone"
    by (simp add: sample_gone_def leave_announce_def Let_def handle_node_leave_intent_def upsert_intent_def
        sample_new_fields members_default_def has_alive_members_def)
  have 1: "?step (api_start sample_new) (A_leave None) (?at SerfLeaving sample_new 1 0 0)"
    using leave_start [of "api_start sample_new" "sample_new\<lparr>sf_state := SerfLeaving\<rparr>" sample_proto 1]
    by (simp add: api_start_def leave_begin_def sample_new_fields)
  have 2: "?step (?at SerfLeaving sample_new 1 0 0) (A_shutdown None) (?at SerfShutdown sample_new 1 0 1)"
    using shutdown_start [of "?at SerfLeaving sample_new 1 0 0" "sample_new\<lparr>sf_state := SerfShutdown\<rparr>" sample_proto 1]
    by (simp add: shutdown_begin_def)
  have 3: "?step (?at SerfShutdown sample_new 1 0 1) (A_leave_announce 3 (Inr ())) (?at SerfShutdown sample_gone 0 1 1)"
    using announced [of "?at SerfShutdown sample_new 1 0 1" sample_proto 3 "()" sample_gone 1]
    by (simp add: sample_announce gone sample_new_fields sample_clock_ok)
  have 4: "?step (?at SerfShutdown sample_gone 0 1 1) A_leave_finish (?at SerfShutdown sample_gone 0 0 1)"
    using leave_done [of "?at SerfShutdown sample_gone 0 1 1" sample_proto 1]
    by (simp add: leave_finish_def)
  have 5: "?step (?at SerfShutdown sample_gone 0 0 1) (A_shutdown_finish False) (api_start sample_gone)"
    using shutdown_done [of "?at SerfShutdown sample_gone 0 0 1" sample_proto 1 False]
    by (simp add: api_start_def gone)
  show ?thesis
    unfolding sample_life_def
    by (rule run_Cons, rule 1, rule run_Cons, rule 2, rule run_Cons, rule 3, rule run_Cons, rule 4,
        rule run_Cons, rule 5, rule run.run_nil)
qed


text \<open>
  C33. The state of an instance is determined by the calls made so far, in any
  interleaving of leaves, shutdowns and other operations: it is shut down once
  a shutdown has begun, alive until a leave begins, left once that leave has
  finished. At most one leave and one shutdown ever begin, so the leave is
  announced at most once; a leave whose announcement fails never finishes and
  no other can begin; and when memberlist fails to shut down, the channel that
  reports the end of the instance is never closed.
\<close>

theorem lifecycle:
  assumes "run (api_step P v1) (api_start s) ls a" "sf_state s = SerfAlive"
  shows "sf_state (ap_serf a) = state_after ls \<and>
    occurs ((=) (A_leave None)) ls \<le> 1 \<and> occurs ((=) (A_shutdown None)) ls \<le> 1 \<and> occurs is_announce ls \<le> 1 \<and>
    (\<forall>now e. A_leave_announce now (Inl e) \<in> set ls \<longrightarrow>
       A_leave_finish \<notin> set ls \<and> (state_after ls = SerfLeaving \<or> state_after ls = SerfShutdown)) \<and>
    (A_shutdown_finish False \<in> set ls \<longrightarrow> \<not> ap_shutdown_closed a)"
proof -
  have h: "history_inv ls a"
    by (rule history_run [OF assms(1) history_start [OF assms(2)]])
  have fail: "occurs is_announce_ok ls < occurs is_announce ls" if "A_leave_announce now (Inl e) \<in> set ls" for now e
    using occurs_less [of "A_leave_announce now (Inl e)" ls is_announce_ok is_announce] that is_announce_ok_is by auto
  have "A_leave_finish \<notin> set ls \<and> (state_after ls = SerfLeaving \<or> state_after ls = SerfShutdown)"
    if "A_leave_announce now (Inl e) \<in> set ls" for now e
    using fail [OF that] h occurs_pos [of "(=) A_leave_finish" ls]
    by (auto simp: history_inv_def state_after_def)
  moreover have "\<not> ap_shutdown_closed a" if "A_shutdown_finish False \<in> set ls"
    using h occurs_pos [of "(=) (A_shutdown_finish False)" ls] that by (auto simp: history_inv_def)
  ultimately show ?thesis
    using h by (auto simp: history_inv_def)
qed

theorem lifecycle_witness:
  "sf_state sample_gone = state_after sample_life \<and> state_after sample_life = SerfShutdown \<and>
   \<not> ap_shutdown_closed (api_start sample_gone)"
  using lifecycle [OF sample_life_run sample_new_fields(1)]
  by (simp add: sample_life_def state_after_def occurs_def api_start_def)

text \<open>Node 2 has heard that node 3 is leaving since time 5.\<close>

definition sample_remote :: "(u8, u8) serf" where
  "sample_remote = snd (handle_node_leave_intent 4 \<lparr>lm_ltime = 5, lm_id = 3, lm_prune = False\<rparr>
     (sample_serf\<lparr>sf_local := sample_node 2\<rparr>))"

lemma sample_serf_rest:
  "sf_event_core sample_serf = \<lparr>ec_min_time = 0, ec_buffer = replicate 4 None\<rparr>"
  "sf_query_core sample_serf = \<lparr>qco_responses = [], qco_min_time = 0, qco_buffer = replicate 4 None\<rparr>"
  "sf_event_clock sample_serf = 1" "sf_query_clock sample_serf = 1" "sf_event_join_ignore sample_serf = False"
  by (simp_all add: sample_serf_def sample_defs handle_node_join_def join_tags_def Let_def serf_ops)

lemma sample_serf_serf_inv: "serf_inv sample_serf"
  using sample_serf_inv
  by (simp add: serf_inv_def ring_bounded_def events_behind_def sample_serf_rest)

lemma sample_remote_members:
  "sf_members sample_remote =
     \<lparr>states = [(1, sample_state_of 1 Alive None), (2, sample_state_of 2 Alive None),
        (3, (sample_state_of 3 Leaving None)\<lparr>ms_status_time := 5\<rparr>)],
      recent_intents = [], left_members = [], failed_members = []\<rparr>"
  "sf_clock sample_remote = 6" "sf_event_clock sample_remote = 1" "sf_query_clock sample_remote = 1"
  "sf_event_core sample_remote = \<lparr>ec_min_time = 0, ec_buffer = replicate 4 None\<rparr>"
  by (simp_all add: sample_remote_def handle_node_leave_intent_def leave_transition_def maybe_prune_def Let_def
      sample_serf_members sample_serf_rest serf_ops sample_state_of_def sample_member_of_def sample_node_def
      clock_witness_def)

lemma sample_remote_push_pull:
  "push_pull_of sample_remote = \<lparr>pp_ltime = 6, pp_status_ltimes = [(1, 0), (2, 0), (3, 5)], pp_left_members = [],
     pp_event_ltime = 1, pp_events = [], pp_query_ltime = 1\<rparr>"
  by (simp add: push_pull_of_def sample_remote_members clock_time_def sample_state_of_def sample_member_of_def
      sample_node_def collect_map_def collect_set_def map_filter_simps eval_nat_numeral)

lemma sample_remote_sendable: "sendable sample_proto sample_remote"
proof -
  have "serf_inv (sample_serf\<lparr>sf_local := sample_node 2\<rparr>)"
    using sample_serf_serf_inv serf_inv_cong [of "sample_serf\<lparr>sf_local := sample_node 2\<rparr>" sample_serf]
    by (simp add: inv_part_def)
  from serf_inv_deliver [OF this, of "Leave_intent \<lparr>lm_ltime = 5, lm_id = 3, lm_prune = False\<rparr>" 4]
  have "serf_inv sample_remote"
    by (simp add: sample_remote_def sample_clock_ok)
  then show ?thesis
    by (simp add: sendable_def sample_remote_push_pull sample_remote_members sample_clock_ok wf_message_def
        wf_push_pull_def fits_u32_def wire_push_pull_def sample_frame)
qed

lemma sample_views:
  "member_view 3 sample_remote = Some (Leaving, 5)" "member_view 3 sample_serf = Some (Alive, 0)"
  "no_refute 3 sample_serf"
  by (simp_all add: member_view_def no_refute_def sample_remote_members sample_serf_members sample_state_of_def
      sample_member_of_def sample_node_def)



text \<open>
  C36. An exchange of states hides a leave: a node that learns of a leaving
  member through it takes the member for alive at the time of the leave, so
  the leave intent itself, arriving later, is dropped as old, and when the
  member departs this node holds it failed where the sender holds it left.
\<close>

theorem exchange_hides_leave:
  assumes "proto_ok P" "serf_inv s" "sendable P r"
    "member_view i r = Some (Leaving, lm_ltime m)" "member_view i s = Some (Alive, t)" "t < lm_ltime m"
    "no_refute i s" "lm_id m = i" "ns_id n = i"
  shows "\<exists>u. merge_remote_state P now (local_state P r) is_join s = Inr u \<and>
    member_view i u = Some (Alive, lm_ltime m) \<and> fst (handle_node_leave_intent now' m u) = False \<and>
    member_view i (handle_node_leave now'' n (snd (handle_node_leave_intent now' m u))) = Some (Failed, lm_ltime m) \<and>
    member_view i (handle_node_leave now'' n r) = Some (Left, lm_ltime m)"
proof -
  obtain u where u: "merge_remote_state P now (local_state P r) is_join s = Inr u"
    "\<forall>i v. member_view i s = Some v \<longrightarrow> no_refute i s \<longrightarrow> member_view i u = Some (pulled (member_view i r) v)"
    using merge_remote_effect [OF assms(1,2), of r now is_join] assms(3) unfolding sendable_def by blast
  have alive: "member_view i u = Some (Alive, lm_ltime m)"
    using u(2) assms(4-7) by simp
  then have old: "handle_node_leave_intent now' m u = (False, u\<lparr>sf_clock := clock_witness (lm_ltime m) (sf_clock u)\<rparr>)"
    using assms(8) by (auto simp: member_view_def handle_node_leave_intent_def)
  show ?thesis
    using u(1) alive old assms(4,9)
    by (auto simp: member_view_def handle_node_leave_def Let_def)
qed

theorem exchange_hides_leave_witness:
  "\<exists>u. merge_remote_state sample_proto 7 (local_state sample_proto sample_remote) False sample_serf = Inr u \<and>
    member_view 3 u = Some (Alive, 5) \<and>
    fst (handle_node_leave_intent 8 \<lparr>lm_ltime = 5, lm_id = 3, lm_prune = False\<rparr> u) = False \<and>
    member_view 3 (handle_node_leave 9 (sample_ns 3)
      (snd (handle_node_leave_intent 8 \<lparr>lm_ltime = 5, lm_id = 3, lm_prune = False\<rparr> u))) = Some (Failed, 5) \<and>
    member_view 3 (handle_node_leave 9 (sample_ns 3) sample_remote) = Some (Left, 5)"
  using exchange_hides_leave [OF sample_proto_ok sample_serf_serf_inv sample_remote_sendable, of 3
      "\<lparr>lm_ltime = 5, lm_id = 3, lm_prune = False\<rparr>" 0 "sample_ns 3" 7 False 8 9]
  by (simp add: sample_views sample_ns_def sample_node_def word_gt_0)

text \<open>
  C35. A join that ignores old events delivers none of the user events of the
  nodes it contacts, however many states it merges, and neither will any
  event older than their event clocks be delivered later; the flag that
  suppresses them during the join is cleared again.
\<close>

theorem join_ignores_old_events:
  assumes "proto_ok P" "serf_inv s" "sf_state s = SerfAlive" "list_all (sendable P) rs"
  shows "\<exists>x t. join P now (contact P now (map (local_state P) rs) res) True s = Inr (x, t) \<and>
    user_events_of t = user_events_of s \<and> \<not> sf_event_join_ignore t \<and>
    (\<forall>r \<in> set rs. \<forall>m. ue_ltime m < sf_event_clock r \<longrightarrow>
       handle_user_event m t = Inr (False, t\<lparr>sf_event_clock := clock_witness (ue_ltime m) (sf_event_clock t)\<rparr>))"
proof -
  let ?s = "set_join_ignore True s"
  have si: "serf_inv ?s" using assms(2) by simp
  have ig: "sf_event_join_ignore ?s" by (simp add: set_join_ignore_def)
  obtain u where u: "merge_all P now (map (local_state P) rs) ?s = Inr u"
    "user_events_of u = user_events_of s" "\<forall>r \<in> set rs. sf_event_clock r \<le> ec_min_time (sf_event_core u)"
    using merge_all_ignoring [OF assms(1) si assms(4) ig, of now] by (auto simp: set_join_ignore_def)
  obtain e v where v: "broadcast_join P now (clock_time (sf_clock u)) u = (e, v)" by fastforce
  have bj: "user_events_of v = user_events_of u" "sf_event_core v = sf_event_core u"
    using users_broadcast_join [of P now "clock_time (sf_clock u)" u]
      rest_of_broadcast_join [of P now "clock_time (sf_clock u)" u] by (simp_all add: v rest_of_def)
  have "\<exists>x t. join P now (contact P now (map (local_state P) rs) res) True s = Inr (x, t) \<and>
      (t = set_join_ignore False u \<or> t = set_join_ignore False v)"
    using u(1) v assms(3)
    by (cases res; cases e) (auto simp: join_def contact_def Let_def state_op_def)
  moreover have "handle_user_event m t = Inr (False, t\<lparr>sf_event_clock := clock_witness (ue_ltime m) (sf_event_clock t)\<rparr>)"
    if "t = set_join_ignore False u \<or> t = set_join_ignore False v" "r \<in> set rs" "ue_ltime m < sf_event_clock r" for t r m
    using that u(3) bj(2) by (intro handle_user_event_old) (auto simp: set_join_ignore_def intro: less_le_trans)
  moreover have "user_events_of t = user_events_of s" "\<not> sf_event_join_ignore t"
    if "t = set_join_ignore False u \<or> t = set_join_ignore False v" for t
    using that u(2) bj(1) by (auto simp: set_join_ignore_def)
  ultimately show ?thesis by blast
qed

theorem join_ignores_old_events_witness:
  "\<exists>x t. join sample_proto 7 (contact sample_proto 7 [local_state sample_proto sample_remote] (Inr 2)) True sample_serf
     = Inr (x, t) \<and> user_events_of t = user_events_of sample_serf \<and> \<not> sf_event_join_ignore t"
  using join_ignores_old_events [OF sample_proto_ok sample_serf_serf_inv, of "[sample_remote]" 7 "Inr 2"]
  by (auto simp: sample_serf_members sample_remote_sendable)

end
