(* ===== verification/Key_Manager.thy ===== *)
theory Key_Manager
  imports Internal_Queries
begin

text \<open>
  Key rotation across the cluster (\<open>key_manager.rs\<close>): a request is sent to
  every member as an internal query, and the answers are tallied. The lock that
  serialises the requests is left out: each operation is split where it waits
  for the answers. \<open>fmt\<close> and \<open>dbg\<close> are the texts of memberlist's decode errors.
\<close>

record 'i key_response =
  kt_messages :: "('i, string) hash_map"
  kt_num_nodes :: nat
  kt_num_resp :: nat
  kt_num_err :: nat
  kt_keys :: "(secret_key, nat) hash_map"
  kt_primary_keys :: "(secret_key, nat) hash_map"

definition key_tally_new :: "nat \<Rightarrow> 'i key_response" where
  "key_tally_new num_nodes = \<lparr>kt_messages = [], kt_num_nodes = num_nodes, kt_num_resp = 0,
     kt_num_err = 0, kt_keys = [], kt_primary_keys = []\<rparr>"

section \<open>Asking\<close>

text \<open>
  \<open>alive\<close> tells whether the instance still exists; if not, the answer is an
  empty tally. \<open>relay_factor\<close> is the one of the request's options.
\<close>

definition handle_key_request_ask ::
  "('i, 'a) proto \<Rightarrow> nat \<Rightarrow> (nat \<Rightarrow> u32) \<Rightarrow> nat \<Rightarrow> u32 \<Rightarrow> bool \<Rightarrow> secret_key option \<Rightarrow> string \<Rightarrow> u8 option
   \<Rightarrow> 'i internal_query_event \<Rightarrow> ('i, 'a) serf
   \<Rightarrow> panic + (serf_error + ('i, 'a) query_response option) \<times> ('i, 'a) serf" where
  "handle_key_request_ask P now rnd online qid alive key ty relay_factor event s =
     (case message_to_bytes P (Msg_KeyRequest key :: ('i, 'a) message) of
        Inl e \<Rightarrow> Inr (Inl (Encode_failed e), s)
      | Inr buf \<Rightarrow>
          if \<not> alive then Inr (Inr None, s)
          else
            (let q_param = default_query_param online (sf_opts s);
                 q_param = (case relay_factor of
                              Some n \<Rightarrow> q_param\<lparr>qpar_relay_factor := n\<rparr> | None \<Rightarrow> q_param)
             in map_res (\<lambda>(r, s). (map_res Some r, s))
                  (internal_query P now rnd online qid ty buf (Some q_param) event s)))"

definition install_key ::
  "('i, 'a) proto \<Rightarrow> nat \<Rightarrow> (nat \<Rightarrow> u32) \<Rightarrow> nat \<Rightarrow> u32 \<Rightarrow> bool \<Rightarrow> secret_key \<Rightarrow> u8 option \<Rightarrow> ('i, 'a) serf
   \<Rightarrow> panic + (serf_error + ('i, 'a) query_response option) \<times> ('i, 'a) serf" where
  "install_key P now rnd online qid alive key opts s =
     handle_key_request_ask P now rnd online qid alive (Some key) ''_serf_install_key'' opts IQ_InstallKey s"

definition use_key ::
  "('i, 'a) proto \<Rightarrow> nat \<Rightarrow> (nat \<Rightarrow> u32) \<Rightarrow> nat \<Rightarrow> u32 \<Rightarrow> bool \<Rightarrow> secret_key \<Rightarrow> u8 option \<Rightarrow> ('i, 'a) serf
   \<Rightarrow> panic + (serf_error + ('i, 'a) query_response option) \<times> ('i, 'a) serf" where
  "use_key P now rnd online qid alive key opts s =
     handle_key_request_ask P now rnd online qid alive (Some key) ''_serf_use_key'' opts IQ_UseKey s"

definition remove_key ::
  "('i, 'a) proto \<Rightarrow> nat \<Rightarrow> (nat \<Rightarrow> u32) \<Rightarrow> nat \<Rightarrow> u32 \<Rightarrow> bool \<Rightarrow> secret_key \<Rightarrow> u8 option \<Rightarrow> ('i, 'a) serf
   \<Rightarrow> panic + (serf_error + ('i, 'a) query_response option) \<times> ('i, 'a) serf" where
  "remove_key P now rnd online qid alive key opts s =
     handle_key_request_ask P now rnd online qid alive (Some key) ''_serf_remove_key'' opts IQ_RemoveKey s"

definition list_keys ::
  "('i, 'a) proto \<Rightarrow> nat \<Rightarrow> (nat \<Rightarrow> u32) \<Rightarrow> nat \<Rightarrow> u32 \<Rightarrow> bool \<Rightarrow> ('i, 'a) serf
   \<Rightarrow> panic + (serf_error + ('i, 'a) query_response option) \<times> ('i, 'a) serf" where
  "list_keys P now rnd online qid alive s =
     handle_key_request_ask P now rnd online qid alive None ''_serf_list_keys'' None IQ_ListKey s"

section \<open>Tallying\<close>

definition count_one :: "secret_key \<Rightarrow> (secret_key, nat) hash_map \<Rightarrow> (secret_key, nat) hash_map" where
  "count_one k m = AList.update k (Suc (case map_of m k of None \<Rightarrow> 0 | Some n \<Rightarrow> n)) m"

text \<open>The keys of an answer are decoded one by one, and the first that fails
  ends the counting.\<close>

definition key_items :: "('i, 'a) proto \<Rightarrow> bytes option \<Rightarrow> (decode_error + secret_key) list" where
  "key_items P w =
     (case rep_items (rep_ld P 3) w of
        Inl e \<Rightarrow> [Inl e]
      | Inr bs \<Rightarrow> map (\<lambda>b. map_res snd (dec (keyc P) b)) bs)"

fun count_keys ::
  "(decode_error + secret_key) list \<Rightarrow> (secret_key, nat) hash_map
   \<Rightarrow> decode_error option \<times> (secret_key, nat) hash_map" where
  "count_keys [] m = (None, m)"
| "count_keys (Inl e # ks) m = (Some e, m)"
| "count_keys (Inr k # ks) m = count_keys ks (count_one k m)"

definition note_message :: "'i \<Rightarrow> string \<Rightarrow> 'i key_response \<Rightarrow> 'i key_response" where
  "note_message i msg t = t\<lparr>kt_messages := AList.update i msg (kt_messages t)\<rparr>"

definition note_error :: "'i \<Rightarrow> string \<Rightarrow> 'i key_response \<Rightarrow> 'i key_response" where
  "note_error i msg t = (note_message i msg t)\<lparr>kt_num_err := kt_num_err t + 1\<rparr>"

definition tally_key_response ::
  "('i, 'a) proto \<Rightarrow> (decode_error \<Rightarrow> string) \<Rightarrow> 'i \<Rightarrow> key_response_message \<times> bytes option
   \<Rightarrow> 'i key_response \<Rightarrow> 'i key_response" where
  "tally_key_response P dbg i nr t =
     (let t = (if \<not> kr_result (fst nr) then note_error i (kr_message (fst nr)) t else t);
          t = (if kr_result (fst nr) \<and> kr_message (fst nr) \<noteq> [] then note_message i (kr_message (fst nr)) t
               else t);
          (res, ks) = count_keys (key_items P (snd nr)) (kt_keys t);
          t = t\<lparr>kt_keys := ks\<rparr>
      in case res of
           Some e \<Rightarrow> note_error i (''Failed to decode key query response: '' @ dbg e) t
         | None \<Rightarrow>
             (case kr_primary_key (fst nr) of
                Some pk \<Rightarrow> t\<lparr>kt_primary_keys := count_one pk (kt_primary_keys t)\<rparr>
              | None \<Rightarrow> t))"

definition tally_response ::
  "('i, 'a) proto \<Rightarrow> (decode_error \<Rightarrow> string) \<Rightarrow> (decode_error \<Rightarrow> string) \<Rightarrow> ('i, 'a) node_response
   \<Rightarrow> 'i key_response \<Rightarrow> panic + 'i key_response" where
  "tally_response P fmt dbg r t =
     (let t = t\<lparr>kt_num_resp := kt_num_resp t + 1\<rparr>;
          i = node_id (nr_from r)
      in if nr_payload r = [] then Inr (note_error i ''empty payload'' t)
         else map_res (\<lambda>res. case res of
             Inr (MR_KeyResponse nr) \<Rightarrow> tally_key_response P dbg i nr t
           | Inr msg \<Rightarrow>
               note_error i (''invalid key query response: '' @ message_type_as_str (message_ref_ty msg)) t
           | Inl e \<Rightarrow> note_error i (fmt e) t)
           (no_decode_panic (decode_message P (nr_payload r))))"

text \<open>Whatever became of an answer, the loop ends when as many have arrived as
  there are members.\<close>

fun stream_answers ::
  "('i, 'a) proto \<Rightarrow> (decode_error \<Rightarrow> string) \<Rightarrow> (decode_error \<Rightarrow> string) \<Rightarrow> ('i, 'a) node_response list
   \<Rightarrow> 'i key_response \<Rightarrow> panic + 'i key_response" where
  "stream_answers P fmt dbg [] t = Inr t"
| "stream_answers P fmt dbg (r # rs) t =
     bind_res (tally_response P fmt dbg r t) (\<lambda>t.
       if kt_num_resp t = kt_num_nodes t then Inr t else stream_answers P fmt dbg rs t)"

definition stream_key_response ::
  "('i, 'a) proto \<Rightarrow> (decode_error \<Rightarrow> string) \<Rightarrow> (decode_error \<Rightarrow> string) \<Rightarrow> ('i, 'a) node_response list
   \<Rightarrow> ('i, 'a) serf \<Rightarrow> panic + 'i key_response" where
  "stream_key_response P fmt dbg rs s =
     stream_answers P fmt dbg rs (key_tally_new (num_members s))"

end
