(* ===== verification/Internal_Facts.thy ===== *)
theory Internal_Facts
  imports Key_Manager Query_Facts
begin

text \<open>
  Lemmas on internal queries: what a member that is asked about a name sends
  back and how the vote is counted, which key lists are offered until one fits,
  and what the answers to a key request add up to.
\<close>

section \<open>What arrives for a packet\<close>

lemma no_decode_panic_Inr [simp]: "no_decode_panic (Inr x) = Inr (Inr x)"
  by (simp add: no_decode_panic_def)

lemma decode_empty [simp]: "decode_message P [] = Inl (Missing_field ''value'')"
  by (simp add: decode_message_def)

lemma decode_query_response_packet:
  assumes "proto_ok P" "wf_message P (Msg_QueryResponse m)"
  shows "decode_message P (wire_message P (Msg_QueryResponse m)) = Inr (MR_QueryResponse m)"
proof -
  obtain v where v: "decode_message P (wire_message P (Msg_QueryResponse m)) = Inr v"
    "message_from_ref P v = Inr (Some (Msg_QueryResponse m))"
    using decode_message_wire [OF assms] by blast
  then show ?thesis by (cases v) (auto simp: res_iff)
qed

lemma decode_conflict_packet:
  assumes "proto_ok P" "wf_message P (Msg_ConflictResponse m)"
  shows "\<exists>m' w. decode_message P (wire_message P (Msg_ConflictResponse m)) = Inr (MR_ConflictResponse (m', w))
    \<and> m_node m' = m_node m"
proof -
  obtain v where v: "decode_message P (wire_message P (Msg_ConflictResponse m)) = Inr v"
    "message_from_ref P v = Inr (Some (Msg_ConflictResponse m))"
    using decode_message_wire [OF assms] by blast
  then show ?thesis by (cases v) (auto simp: res_iff member_from_ref_def)
qed

lemma decode_key_response_packet:
  assumes "proto_ok P" "wf_message P (Msg_KeyResponse m :: ('i, 'a) message)"
  shows "\<exists>v. decode_message P (wire_message P (Msg_KeyResponse m :: ('i, 'a) message)) = Inr (MR_KeyResponse v)
    \<and> key_response_from_ref P v = Inr m"
proof -
  obtain v where v: "decode_message P (wire_message P (Msg_KeyResponse m)) = Inr v"
    "message_from_ref P v = Inr (Some (Msg_KeyResponse m))"
    using decode_message_wire [OF assms] by blast
  then show ?thesis by (cases v) (auto simp: res_iff)
qed

section \<open>A vote\<close>

text \<open>What the asking node receives from a member: the first packet the member
  sends for the question.\<close>

definition vote_of ::
  "('i, 'a) proto \<Rightarrow> (nat \<Rightarrow> u32) \<Rightarrow> nat \<Rightarrow> 'i \<Rightarrow> ('i, 'a) query_event \<Rightarrow> ('i, 'a) serf
   \<Rightarrow> ('i, 'a) node_response option" where
  "vote_of P rnd now c ev p =
     (case drop (length (sf_sent p)) (sf_sent (snd (handle_conflict P rnd now True c ev (qe_ctx ev) p))) of
        [] \<Rightarrow> None
      | (_, raw) # _ \<Rightarrow>
          (case decode_message P raw of
             Inr (MR_QueryResponse m) \<Rightarrow> Some \<lparr>nr_from = qr_from m, nr_payload = qr_payload m\<rparr>
           | _ \<Rightarrow> None))"

text \<open>The payload of a vote, and when a member can cast it: in time, and with an
  answer that can be encoded within the limit.\<close>

definition vote_payload :: "('i, 'a) proto \<Rightarrow> 'i \<Rightarrow> ('i, 'a) serf \<Rightarrow> bytes" where
  "vote_payload P c p =
     (case map_of (states (sf_members p)) c of
        None \<Rightarrow> [] | Some st \<Rightarrow> wire_message P (Msg_ConflictResponse (ms_member st)))"

definition can_vote :: "('i, 'a) proto \<Rightarrow> nat \<Rightarrow> 'i \<Rightarrow> ('i, 'a) query_event \<Rightarrow> ('i, 'a) serf \<Rightarrow> bool" where
  "can_vote P now c ev p \<longleftrightarrow>
     (case qc_span (qe_ctx ev) of None \<Rightarrow> False | Some t0 \<Rightarrow> now - t0 \<le> qc_query_timeout (qe_ctx ev)) \<and>
     (case map_of (states (sf_members p)) c of
        None \<Rightarrow> True | Some st \<Rightarrow> wf_message P (Msg_ConflictResponse (ms_member st))) \<and>
     (let m = Msg_QueryResponse (create_response ev (vote_payload P c p) p)
      in wf_message P m \<and> length (wire_message P m) \<le> op_query_response_size_limit (sf_opts p))"

lemma fold_ml_send_sent:
  "sf_sent (fold (\<lambda>m. ml_send (f m) raw) ms s) = sf_sent s @ map (\<lambda>m. (f m, raw)) ms"
  by (induction ms arbitrary: s) (simp_all add: ml_send_def)

lemma relay_response_sent:
  "\<exists>more. sf_sent (snd (relay_response P rnd rf nd resp s)) = sf_sent s @ more"
  by (simp add: relay_response_def Let_def fold_ml_send_sent split: sum.split)

lemma respond_packet:
  assumes "qc_span ctx = Some t0" "now - t0 \<le> qc_query_timeout ctx"
    and "message_to_bytes P (Msg_QueryResponse (create_response ev msg s)) = Inr raw"
    and "length raw \<le> op_query_response_size_limit (sf_opts s)"
  shows "\<exists>more. sf_sent (snd (snd (respond P rnd now True ev msg ctx s)))
    = sf_sent s @ (node_addr (qe_from ev), raw) # more"
proof -
  let ?r = "relay_response P rnd (qe_relay_factor ev) (sf_local s)
    (create_response ev msg s) (ml_send (node_addr (qe_from ev)) raw s)"
  have "sf_sent (snd (snd (respond P rnd now True ev msg ctx s))) = sf_sent (snd ?r)"
    using assms by (simp add: respond_def respond_with_message_and_response_def check_response_size_def
        create_response_def Let_def split: prod.split sum.split)
  then show ?thesis
    using relay_response_sent [of P rnd "qe_relay_factor ev" "sf_local s" "create_response ev msg s"
        "ml_send (node_addr (qe_from ev)) raw s"]
    by (auto simp: ml_send_def)
qed

lemma vote_cast:
  assumes "proto_ok P" "can_vote P now c ev p" "c \<noteq> local_id p"
  shows "vote_of P rnd now c ev p = Some \<lparr>nr_from = sf_local p, nr_payload = vote_payload P c p\<rparr>"
proof -
  let ?m = "create_response ev (vote_payload P c p) p"
  have wf: "wf_message P (Msg_QueryResponse ?m)" using assms(2) by (simp add: can_vote_def Let_def)
  obtain t0 where t0: "qc_span (qe_ctx ev) = Some t0" "now - t0 \<le> qc_query_timeout (qe_ctx ev)"
    using assms(2) by (auto simp: can_vote_def split: option.splits)
  have "snd (handle_conflict P rnd now True c ev (qe_ctx ev) p)
      = snd (snd (respond P rnd now True ev (vote_payload P c p) (qe_ctx ev) p))"
    using assms(2,3) by (auto simp: handle_conflict_def vote_payload_def can_vote_def message_to_bytes_wire
        split: option.split)
  moreover obtain more where "sf_sent (snd (snd (respond P rnd now True ev (vote_payload P c p) (qe_ctx ev) p)))
    = sf_sent p @ (node_addr (qe_from ev), wire_message P (Msg_QueryResponse ?m)) # more"
    using respond_packet [OF t0 message_to_bytes_wire [OF wf]] assms(2)
    by (auto simp: can_vote_def Let_def)
  ultimately show ?thesis
    by (simp add: vote_of_def decode_query_response_packet [OF assms(1) wf])
      (simp add: create_response_def)
qed

lemma vote_own: "vote_of P rnd now (local_id p) ev p = None"
  by (simp add: vote_of_def handle_conflict_def)

section \<open>Counting votes\<close>

definition knows :: "'i \<Rightarrow> ('i, 'a) serf \<Rightarrow> bool" where
  "knows c p \<longleftrightarrow> c \<noteq> local_id p \<and> map_of (states (sf_members p)) c \<noteq> None"

definition agrees :: "'i \<Rightarrow> 'a \<Rightarrow> ('i, 'a) serf \<Rightarrow> bool" where
  "agrees c addr p \<longleftrightarrow> knows c p \<and>
     map_option (\<lambda>st. node_addr (m_node (ms_member st))) (map_of (states (sf_members p)) c) = Some addr"

lemma count_votes_cast:
  assumes "proto_ok P" "\<And>a. from_ref a = Inr a" "\<And>p. p \<in> set ps \<Longrightarrow> can_vote P now c ev p"
  shows "count_votes P from_ref addr (List.map_filter (vote_of P rnd now c ev) ps) (n, k)
    = Inr (n + length (filter (knows c) ps), k + length (filter (agrees c addr) ps))"
  using assms(3)
proof (induction ps arbitrary: n k)
  case (Cons p ps)
  show ?case
  proof (cases "c = local_id p")
    case True
    then show ?thesis using Cons by (simp add: vote_own knows_def agrees_def List.map_filter_simps)
  next
    case False
    with Cons assms(1) have v: "vote_of P rnd now c ev p
      = Some \<lparr>nr_from = sf_local p, nr_payload = vote_payload P c p\<rparr>" by (simp add: vote_cast)
    show ?thesis
    proof (cases "map_of (states (sf_members p)) c")
      case None
      then show ?thesis
        using Cons by (simp add: v List.map_filter_simps knows_def agrees_def vote_payload_def
            no_decode_panic_def)
    next
      case (Some st)
      then have "wf_message P (Msg_ConflictResponse (ms_member st))"
        using Cons.prems [of p] by (simp add: can_vote_def)
      with Some obtain m' w where "decode_message P (vote_payload P c p) = Inr (MR_ConflictResponse (m', w))"
        "m_node m' = m_node (ms_member st)"
        using decode_conflict_packet [OF assms(1)] by (fastforce simp: vote_payload_def)
      with Some False Cons show ?thesis
        by (simp add: v List.map_filter_simps knows_def agrees_def assms(2))
    qed
  qed
qed (simp add: List.map_filter_simps)

lemma majority_iff: "n div 2 + 1 \<le> k \<longleftrightarrow> n < 2 * (k::nat)"
  by linarith

section \<open>The list that is offered\<close>

text \<open>The reference: the lists in the order in which they are tried, and what is
  made of the first that is not too large.\<close>

definition truncated_to :: "key_response_message \<Rightarrow> nat \<Rightarrow> key_response_message" where
  "truncated_to resp k =
     resp\<lparr>kr_keys := take k (kr_keys resp), kr_message := truncated_message k (length (kr_keys resp))\<rparr>"

definition key_list_offers :: "nat \<Rightarrow> key_response_message \<Rightarrow> key_response_message list" where
  "key_list_offers limit resp =
     resp # map (truncated_to resp) (rev [1..<Suc (min (limit div 25) (length (kr_keys resp)))])"

definition offer_accepted ::
  "('i, 'a) proto \<Rightarrow> ('i, 'a) query_event \<Rightarrow> ('i, 'a) serf \<Rightarrow> key_response_message \<Rightarrow> bool" where
  "offer_accepted P q s r =
     (case message_to_bytes P (Msg_KeyResponse r :: ('i, 'a) message) of
        Inl e \<Rightarrow> True
      | Inr raw \<Rightarrow> encoded_message_len P (encoded_len_query_response P (create_response q raw s))
                   \<le> op_query_response_size_limit (sf_opts s))"

definition packed_offer ::
  "('i, 'a) proto \<Rightarrow> ('i, 'a) query_event \<Rightarrow> ('i, 'a) serf \<Rightarrow> key_response_message
   \<Rightarrow> serf_error + bytes \<times> ('i, 'a) query_response_message" where
  "packed_offer P q s r =
     (case message_to_bytes P (Msg_KeyResponse r :: ('i, 'a) message) of
        Inl e \<Rightarrow> Inl (Encode_failed e)
      | Inr raw \<Rightarrow>
          (case message_to_bytes P (Msg_QueryResponse (create_response q raw s)) of
             Inl e \<Rightarrow> Inl (Encode_failed e)
           | Inr qraw \<Rightarrow> Inr (qraw, create_response q raw s)))"

definition first_offer ::
  "('i, 'a) proto \<Rightarrow> ('i, 'a) query_event \<Rightarrow> ('i, 'a) serf \<Rightarrow> key_response_message list
   \<Rightarrow> serf_error + bytes \<times> ('i, 'a) query_response_message" where
  "first_offer P q s rs =
     (case find (offer_accepted P q s) rs of None \<Rightarrow> Inl Fail_truncate_response | Some r \<Rightarrow> packed_offer P q s r)"

lemma shrink_step:
  "shrink_key_list P q s actual i resp =
     (if offer_accepted P q s resp then Inr (packed_offer P q s resp)
      else if length (kr_keys resp) < i then Inl Index_out_of_bounds
      else case i of
        0 \<Rightarrow> Inr (Inl Fail_truncate_response)
      | Suc j \<Rightarrow> shrink_key_list P q s actual j
          (resp\<lparr>kr_keys := take i (kr_keys resp), kr_message := truncated_message i actual\<rparr>))"
  by (simp add: shrink_key_list.simps [of P q s actual i resp] offer_accepted_def packed_offer_def
      check_response_size_def Let_def split: sum.split nat.split)

lemma shrink_key_list_offers:
  assumes "i \<le> length (kr_keys r)" "r = resp \<or> r = truncated_to resp k" "k = Suc i \<or> r = resp"
    "r = resp \<or> k \<le> length (kr_keys resp)"
  shows "shrink_key_list P q s (length (kr_keys resp)) i r
    = Inr (first_offer P q s (r # map (truncated_to resp) (rev [1..<Suc i])))"
  using assms
proof (induction i arbitrary: r k)
  case 0
  then show ?case by (subst shrink_step) (simp add: first_offer_def)
next
  case (Suc i)
  let ?r = "truncated_to resp (Suc i)"
  have le: "Suc i \<le> length (kr_keys resp)"
    using Suc.prems by (auto simp: truncated_to_def)
  have "r\<lparr>kr_keys := take (Suc i) (kr_keys r), kr_message := truncated_message (Suc i) (length (kr_keys resp))\<rparr> = ?r"
    using Suc.prems by (auto simp: truncated_to_def min_absorb1)
  then have "shrink_key_list P q s (length (kr_keys resp)) (Suc i) r =
      (if offer_accepted P q s r then Inr (packed_offer P q s r)
       else shrink_key_list P q s (length (kr_keys resp)) i ?r)"
    using Suc.prems(1) by (subst shrink_step) simp
  moreover have "shrink_key_list P q s (length (kr_keys resp)) i ?r
    = Inr (first_offer P q s (?r # map (truncated_to resp) (rev [1..<Suc i])))"
    by (rule Suc.IH [of ?r "Suc i"]) (use le in \<open>simp_all add: truncated_to_def\<close>)
  ultimately show ?case
    by (simp add: first_offer_def)
qed

section \<open>The tally of the answers to a key request\<close>

definition tally_count :: "(secret_key, nat) hash_map \<Rightarrow> secret_key \<Rightarrow> nat" where
  "tally_count m k = (case map_of m k of None \<Rightarrow> 0 | Some n \<Rightarrow> n)"

lemma count_one_lookup [simp]: "tally_count (count_one k m) j = tally_count m j + (if j = k then 1 else 0)"
  by (simp add: tally_count_def count_one_def hm_simps)

lemma count_keys_all: "count_keys (map Inr ks) m = (None, fold count_one ks m)"
  by (induction ks arbitrary: m) simp_all

lemma fold_count_one: "tally_count (fold count_one ks m) k = tally_count m k + count_list ks k"
  by (induction ks arbitrary: m) auto

lemma mapM_res_map_Inr: "mapM_res f xs = Inr ys \<Longrightarrow> map f xs = map Inr ys"
  by (induction xs arbitrary: ys) (auto split: sum.splits)

text \<open>What a well-formed answer adds to the tally.\<close>

definition tally_answer :: "('i, 'a) node \<times> key_response_message \<Rightarrow> 'i key_response \<Rightarrow> 'i key_response" where
  "tally_answer a t =
     (let (nd, m) = a
      in t\<lparr>kt_num_resp := kt_num_resp t + 1,
           kt_num_err := kt_num_err t + (if kr_result m then 0 else 1),
           kt_messages := (if kr_result m \<and> kr_message m = [] then kt_messages t
                           else AList.update (node_id nd) (kr_message m) (kt_messages t)),
           kt_keys := fold count_one (kr_keys m) (kt_keys t),
           kt_primary_keys := (case kr_primary_key m of
               None \<Rightarrow> kt_primary_keys t | Some pk \<Rightarrow> count_one pk (kt_primary_keys t))\<rparr>)"

lemma tally_key_response_from_ref:
  assumes "key_response_from_ref P v = Inr m"
  shows "tally_key_response P dbg (node_id nd) v (t\<lparr>kt_num_resp := kt_num_resp t + 1\<rparr>)
    = tally_answer (nd, m) t"
proof -
  obtain bs ks where bs: "rep_items (rep_ld P 3) (snd v) = Inr bs"
    and ks: "mapM_res (\<lambda>b. map_res snd (dec (keyc P) b)) bs = Inr ks" and m: "m = (fst v)\<lparr>kr_keys := ks\<rparr>"
    using assms by (auto simp: key_response_from_ref_def res_iff)
  have "key_items P (snd v) = map Inr ks"
    using mapM_res_map_Inr [OF ks] by (simp add: key_items_def bs)
  then show ?thesis
    by (simp add: tally_key_response_def tally_answer_def Let_def m count_keys_all note_error_def
        note_message_def split: option.split)
qed

abbreviation key_answer ::
  "('i, 'a) proto \<Rightarrow> ('i, 'a) node \<times> key_response_message \<Rightarrow> ('i, 'a) node_response" where
  "key_answer P a \<equiv>
     \<lparr>nr_from = fst a, nr_payload = wire_message P (Msg_KeyResponse (snd a) :: ('i, 'a) message)\<rparr>"

lemma tally_response_answer:
  assumes "proto_ok P" "wf_message P (Msg_KeyResponse (snd a) :: ('i, 'a) message)"
  shows "tally_response P fmt dbg (key_answer P (a :: ('i, 'a) node \<times> _)) t = Inr (tally_answer a t)"
proof -
  obtain v where "decode_message P (wire_message P (Msg_KeyResponse (snd a) :: ('i, 'a) message))
      = Inr (MR_KeyResponse v)" and v: "key_response_from_ref P v = Inr (snd a)"
    using decode_key_response_packet [OF assms] by blast
  moreover have "wire_message P (Msg_KeyResponse (snd a) :: ('i, 'a) message) \<noteq> []"
    by (simp add: wire_message_def)
  ultimately show ?thesis
    using tally_key_response_from_ref [OF v, of dbg "fst a" t] by (simp add: tally_response_def Let_def)
qed

lemma tally_answer_counts [simp]:
  "kt_num_resp (tally_answer a t) = kt_num_resp t + 1"
  "kt_num_nodes (tally_answer a t) = kt_num_nodes t"
  by (simp_all add: tally_answer_def split: prod.split)

lemma stream_answers_all:
  assumes "proto_ok P"
    and "\<And>a. a \<in> set as \<Longrightarrow> wf_message P (Msg_KeyResponse (snd a) :: ('i, 'a) message)"
  shows "stream_answers P fmt dbg (map (key_answer P) (as :: (('i, 'a) node \<times> _) list)) t
    = Inr (fold tally_answer (if kt_num_resp t < kt_num_nodes t
        then take (kt_num_nodes t - kt_num_resp t) as else as) t)"
  using assms(2)
proof (induction as arbitrary: t)
  case (Cons a as)
  have step: "tally_response P fmt dbg (key_answer P a) t = Inr (tally_answer a t)"
    by (rule tally_response_answer [OF assms(1)]) (simp add: Cons.prems)
  consider "Suc (kt_num_resp t) = kt_num_nodes t" | "Suc (kt_num_resp t) < kt_num_nodes t"
    | "kt_num_nodes t \<le> kt_num_resp t" by linarith
  then show ?case
  proof cases
    case 1
    then show ?thesis by (simp add: step flip: 1)
  next
    case 2
    then have "kt_num_nodes t - kt_num_resp t = Suc (kt_num_nodes t - Suc (kt_num_resp t))" by simp
    with 2 Cons show ?thesis by (simp add: step)
  next
    case 3
    with Cons show ?thesis by (simp add: step)
  qed
qed simp

lemma fold_tally_answer:
  "kt_num_resp (fold tally_answer as t) = kt_num_resp t + length as"
  "kt_num_err (fold tally_answer as t) = kt_num_err t + length (filter (\<lambda>(_, m). \<not> kr_result m) as)"
  "tally_count (kt_keys (fold tally_answer as t)) k
    = tally_count (kt_keys t) k + (\<Sum>(_, m)\<leftarrow>as. count_list (kr_keys m) k)"
  "tally_count (kt_primary_keys (fold tally_answer as t)) k
    = tally_count (kt_primary_keys t) k + length (filter (\<lambda>(_, m). kr_primary_key m = Some k) as)"
  by (induction as arbitrary: t)
    (auto simp: tally_answer_def fold_count_one split: prod.split option.split)

lemma fold_tally_messages:
  "map_of (kt_messages (fold tally_answer as t)) =
     map_of (kt_messages t) ++
     map_of (rev (map (\<lambda>(nd, m). (node_id nd, kr_message m))
       (filter (\<lambda>(_, m). \<not> kr_result m \<or> kr_message m \<noteq> []) as)))"
  by (induction as arbitrary: t)
    (auto simp: tally_answer_def hm_simps map_add_def split: prod.split option.split)

section \<open>The keyring and its file\<close>

definition file_in_sync :: "'r keyring \<Rightarrow> ('i, 'a, 'r) keyed \<Rightarrow> bool" where
  "file_in_sync K k \<longleftrightarrow>
     (case (ky_ring k, ky_file k) of
        (Some r, Some f) \<Rightarrow> f = map (kg_to_base64 K) (kg_keys K r) | _ \<Rightarrow> True)"

lemma file_in_sync_serf [simp]: "file_in_sync K (k\<lparr>ky_serf := s\<rparr>) = file_in_sync K k"
  by (simp add: file_in_sync_def split: option.split)

lemma reply_key_keeps:
  "reply_key P rnd now sent q ctx resp k = Inr (ctx', k') \<Longrightarrow> ky_ring k' = ky_ring k \<and> ky_file k' = ky_file k"
  by (auto simp: reply_key_def res_iff)

lemma file_in_sync_reply:
  "reply_key P rnd now sent q ctx resp k = Inr (ctx', k') \<Longrightarrow> file_in_sync K k' = file_in_sync K k"
  by (simp add: file_in_sync_def reply_key_keeps)

lemma write_keyring_file_sync:
  "write_keyring_file K (Inr ()) (k\<lparr>ky_ring := Some r\<rparr>) = (res, k') \<Longrightarrow>
   (case res of Inl e \<Rightarrow> reply_key P rnd now sent q ctx (f e) k'
    | Inr _ \<Rightarrow> reply_key P rnd now sent q ctx ok k') = Inr (ctx', k'') \<Longrightarrow> file_in_sync K k''"
  by (auto simp: write_keyring_file_def file_in_sync_reply split: option.splits)
    (auto simp: file_in_sync_def)

text \<open>The guards the three handlers share: only the keyring operation is left.\<close>

lemma key_guards_sync:
  assumes "bind_res (key_request_of P payload) (\<lambda>r. case r of
      None \<Rightarrow> reply_key P rnd now sent q ctx a k
    | Some req \<Rightarrow> if \<not> enabled then reply_key P rnd now sent q ctx b k
        else case ky_ring k of None \<Rightarrow> reply_key P rnd now sent q ctx c k
        | Some kr \<Rightarrow> (case req of None \<Rightarrow> Inl Unwrap_none | Some key \<Rightarrow> op key kr)) = Inr (ctx', k')"
    and "file_in_sync K k" and "\<And>key kr. op key kr = Inr (ctx', k') \<Longrightarrow> file_in_sync K k'"
  shows "file_in_sync K k'"
proof -
  obtain r where "key_request_of P payload = Inr r" using assms(1) by (auto simp: res_iff)
  then show ?thesis
    using assms by (auto simp: file_in_sync_reply split: option.split_asm if_split_asm)
qed

text \<open>As long as writing the file succeeds, it lists the keys of the ring after
  every internal query.\<close>

lemma internal_query_file_in_sync:
  assumes "handle_internal_query P K rnd now sent enabled (Inr ()) kind q ctx k = Inr (ctx', k')"
    and "file_in_sync K k"
  shows "file_in_sync K k'"
proof (cases kind)
  case (IQ_Conflict c)
  then show ?thesis
    using assms by (auto simp: handle_internal_query_def split: prod.splits)
next
  case IQ_InstallKey
  with assms(1) have "handle_install_key P K rnd now sent enabled (Inr ()) q ctx k = Inr (ctx', k')"
    by (simp add: handle_internal_query_def)
  then show ?thesis
    unfolding handle_install_key_def Let_def
    by (rule key_guards_sync [OF _ assms(2)])
      (auto split: prod.splits dest: write_keyring_file_sync)
next
  case IQ_UseKey
  with assms(1) have "handle_use_key P K rnd now sent enabled (Inr ()) q ctx k = Inr (ctx', k')"
    by (simp add: handle_internal_query_def)
  then show ?thesis
    unfolding handle_use_key_def Let_def
    by (rule key_guards_sync [OF _ assms(2)])
      (auto simp: file_in_sync_reply assms(2) split: prod.splits sum.split_asm dest: write_keyring_file_sync)
next
  case IQ_RemoveKey
  with assms(1) have "handle_remove_key P K rnd now sent enabled (Inr ()) q ctx k = Inr (ctx', k')"
    by (simp add: handle_internal_query_def)
  then show ?thesis
    unfolding handle_remove_key_def Let_def
    by (rule key_guards_sync [OF _ assms(2)])
      (auto simp: file_in_sync_reply assms(2) split: prod.splits sum.split_asm dest: write_keyring_file_sync)
next
  case IQ_ListKey
  then show ?thesis
    using assms
    by (auto simp: handle_internal_query_def handle_list_keys_def Let_def file_in_sync_reply
        split: option.splits if_splits)
qed (use assms in \<open>simp add: handle_internal_query_def\<close>)

text \<open>A key request without a key, which the wire format allows, is unwrapped.\<close>

lemma keyless_request_panics:
  assumes "proto_ok P" "wf_message P (Msg_KeyRequest None :: ('i, 'a) message)"
    and "qe_payload q = wire_message P (Msg_KeyRequest None :: ('i, 'a) message)" "ky_ring k = Some r"
  shows "handle_install_key P K rnd now sent True io (q :: ('i, 'a) query_event) ctx k = Inl Unwrap_none"
proof -
  obtain v where v: "decode_message P (qe_payload q) = Inr v"
    "message_from_ref P v = Inr (Some (Msg_KeyRequest None))"
    using decode_message_wire [OF assms(1,2)] assms(3) by auto
  then have "v = MR_KeyRequest None" by (cases v) (auto simp: res_iff)
  with v assms(4) show ?thesis by (simp add: handle_install_key_def key_request_of_def)
qed

end
