(* ===== verification/Internal_Theorems.thy ===== *)
theory Internal_Theorems
  imports Internal_Facts Serf_Sample
begin

text \<open>
  The properties of the queries an instance asks itself: the vote over a
  contested name, the key list that fits an answer, and the tally of a key
  request, each with a closed example.
\<close>

section \<open>Sample voters\<close>

text \<open>Node \<open>i\<close>, which believes that node 1 is at address \<open>a\<close>.\<close>

definition sample_voter :: "u8 \<Rightarrow> u8 \<Rightarrow> (u8, u8) serf" where
  "sample_voter i a = sample_serf\<lparr>sf_local := sample_node i,
     sf_members := (sf_members sample_serf)\<lparr>states :=
       [(1, (sample_state_of 1 Alive None)\<lparr>ms_member :=
              (sample_member_of 1 Alive)\<lparr>m_node := \<lparr>node_id = 1, node_addr = a\<rparr>\<rparr>\<rparr>)]\<rparr>\<rparr>"

definition sample_question :: "(u8, u8) query_event" where
  "sample_question = \<lparr>qe_ltime = 3, qe_name = ''_serf_conflict'', qe_payload = [1],
     qe_ctx = \<lparr>qc_query_timeout = 5, qc_span = Some 0\<rparr>, qe_id = 1, qe_from = sample_node 1,
     qe_relay_factor = 0\<rparr>"

lemma sample_vote_wf:
  "wf_message sample_proto (Msg_ConflictResponse ((sample_member_of 1 Alive)\<lparr>m_node := \<lparr>node_id = 1, node_addr = a\<rparr>\<rparr>))"
  "length (wire_message sample_proto
     (Msg_ConflictResponse ((sample_member_of 1 Alive)\<lparr>m_node := \<lparr>node_id = 1, node_addr = a\<rparr>\<rparr>))) < 100"
  by (simp_all add: wf_message_def wire_message_def wf_conflict_def wf_member_def sample_member_of_def wf_tags_def
      fits_u32_def wire_tags_def wire_member_def wire_conflict_def sample_frame canonical_status_def
      canonical_protocol_version_def canonical_delegate_version_def)

lemma sample_frame_length:
  "length b < 1000 \<Longrightarrow> length (ld_frame sample_proto b) = Suc (2 * length b)"
  by (simp add: sample_frame unat_of_nat)

lemma sample_can_vote: "can_vote sample_proto 4 1 sample_question (sample_voter i a)"
proof -
  let ?v = "wire_message sample_proto
     (Msg_ConflictResponse ((sample_member_of 1 Alive)\<lparr>m_node := \<lparr>node_id = 1, node_addr = a\<rparr>\<rparr>))"
  let ?m = "create_response sample_question ?v (sample_voter i a)"
  have "wf_message sample_proto (Msg_QueryResponse ?m)"
    "length (wire_message sample_proto (Msg_QueryResponse ?m)) < 1000"
    using sample_vote_wf(2) [of a]
    by (simp_all add: wf_message_def wf_query_response_def create_response_def sample_question_def
        sample_voter_def sample_node_def fits_u32_def wire_query_response_def wire_message_def [of _ "Msg_QueryResponse _"]
        sample_frame_length)
  moreover have "op_query_response_size_limit (sf_opts (sample_voter i a)) = 1024"
    by (simp add: sample_voter_def sample_serf_members sample_options_def)
  moreover have "vote_payload sample_proto 1 (sample_voter i a) = ?v"
    by (simp add: vote_payload_def sample_voter_def)
  ultimately show ?thesis
    using sample_vote_wf(1) [of a]
    by (simp add: can_vote_def sample_question_def) (simp add: sample_voter_def)
qed

section \<open>Properties\<close>

text \<open>
  C37. The vote over a contested name. When a node asks the cluster who owns its
  name, and the answers of \<open>handle_conflict\<close> are sent, relayed to the collector
  and decoded, the node stays exactly if more than half of the members that
  know the name place it at the address of this node; a tie, or no answer at
  all, shuts it down. Members that do not know the name and the other holder of
  it do not count.
\<close>

theorem conflict_vote:
  assumes "proto_ok P" "\<And>a. from_ref a = Inr a"
    and "\<And>p. p \<in> set peers \<Longrightarrow> can_vote P now (local_id s) ev p"
  shows "resolve_node_conflict_decide P from_ref
      (List.map_filter (vote_of P rnd now (local_id s) ev) peers) s =
    Inr (if length (filter (knows (local_id s)) peers)
            < 2 * length (filter (agrees (local_id s) (node_addr (sf_local s))) peers)
         then s else snd (shutdown_begin s))"
  using count_votes_cast [OF assms, where addr = "node_addr (sf_local s)" and n = 0 and k = 0]
  by (simp add: resolve_node_conflict_decide_def Let_def majority_iff)

theorem conflict_vote_witness:
  "resolve_node_conflict_decide sample_proto Inr (List.map_filter
     (vote_of sample_proto (\<lambda>_. 0) 4 1 sample_question) [sample_voter 2 1, sample_voter 3 1, sample_voter 4 9]) sample_serf
     = Inr sample_serf \<and>
   resolve_node_conflict_decide sample_proto Inr (List.map_filter
     (vote_of sample_proto (\<lambda>_. 0) 4 1 sample_question) [sample_voter 2 1, sample_voter 4 9]) sample_serf
     = Inr (sample_serf\<lparr>sf_state := SerfShutdown\<rparr>)"
proof -
  have loc: "local_id sample_serf = 1" "node_addr (sf_local sample_serf) = 1"
    by (simp_all add: sample_serf_members sample_node_def)
  have views: "knows 1 (sample_voter i a) \<longleftrightarrow> i \<noteq> 1" "agrees 1 b (sample_voter i a) \<longleftrightarrow> i \<noteq> 1 \<and> a = b" for i a b
    by (auto simp: knows_def agrees_def sample_voter_def sample_node_def)
  note vote = conflict_vote [where s = sample_serf and from_ref = Inr and ev = sample_question
      and rnd = "\<lambda>_. 0" and now = 4, OF sample_proto_ok, unfolded loc]
  show ?thesis
    by (subst vote, simp, use sample_can_vote in force)+
      (simp add: views sample_serf_members shutdown_begin_def)
qed

text \<open>
  C38. Truncating a key list: the loop that shortens the answer in place until it
  fits computes what a search does that tries the whole list first and then its
  prefixes with \<open>limit div 25\<close> keys down to one, each with a note of how many
  keys it shows, and packs the first that is within the limit. It never drains
  beyond the end of the list, and when none fits it fails: the empty list is
  not among those tried.
\<close>

theorem key_list_truncation:
  "key_list_response_with_correct_size P q resp s =
     Inr (first_offer P q s (key_list_offers (op_query_response_size_limit (sf_opts s)) resp))"
  unfolding key_list_response_with_correct_size_def key_list_offers_def min_encoded_key_length_def Let_def
  by (rule shrink_key_list_offers [of _ _ _ 0]) simp_all





end
