(* ===== verification/Float64_Checks.thy ===== *)
theory Float64_Checks
  imports Float64
begin

text \<open>
  Closed evaluations of the float operations against the bits that IEEE 754
  prescribes.
\<close>

text \<open>\<open>0.1 + 0.2\<close>, \<open>1 / 3\<close>, the root of 2, overflow and underflow.\<close>

lemma f64_examples:
  "f64_add (f64_lit 1 10) (f64_lit 2 10) = 0x3FD3333333333334"
  "f64_div (f64_lit 1 1) (f64_lit 3 1) = 0x3FD5555555555555"
  "f64_sqrt (f64_lit 2 1) = 0x3FF6A09E667F3BCD"
  "f64_mul 0x7FEFFFFFFFFFFFFF (f64_lit 2 1) = f64_inf False"
  "f64_div 1 (f64_lit 2 1) = 0"
  "f64_sub (f64_lit 1 1) (f64_lit 1 1) = 0"
  "f64_as_u64 (f64_lit 25 10) = 2"
  by code_simp+

end
