(* ===== verification/Ping_Theorems.thy ===== *)
theory Ping_Theorems
  imports Pings Delegate_Facts Serf_Sample Float64_Checks Api
begin

text \<open>
  The property of the coordinates carried by pings, and what an exchange
  between two instances leaves in the cache.
\<close>

section \<open>A simple encoding of floats\<close>








section \<open>An exchange\<close>

lemma ping_exchange:
  assumes "f64_wire_ok P W" "coord_inv s" "coord_inv peer"
    and s: "sf_coord_core s = Some c" and peer: "sf_coord_core peer = Some d"
    and dims: "copt_dimensionality (cl_opts (cc_client c)) = copt_dimensionality (cl_opts (cc_client d))"
    and "rtt \<le> max_rtt" "nid \<noteq> local_id s"
  shows "\<exists>t. notify_ping_complete P W powf rnd nid rtt (ack_payload W peer) s = Inr t \<and>
    cached_coordinate nid t = map_res Some (cooridate peer) \<and>
    cached_coordinate (local_id s) t = map_res Some (cooridate t)"
proof -
  let ?x = "cl_coord (cc_client d)"
  have inv: "client_inv (cc_client c)" "client_inv (cc_client d)"
    using assms(2,3) s peer by (simp_all add: coord_inv_def coord_core_inv_def)
  have "is_valid ?x" "length (co_portion ?x) = copt_dimensionality (cl_opts (cc_client c))"
    using inv(2) dims by (simp_all add: client_inv_def client_shape_def)
  with inv(1) have "check_coordinate (cl_coord (cc_client c)) ?x = Inr ()"
    by (simp add: check_coordinate_def is_compatible_with_def client_inv_def client_shape_def)
  moreover obtain r cl where up: "client_update powf rnd nid ?x rtt (cc_client c) = Inr (r, cl)"
    using client_update_ok [OF inv(1)] by blast
  ultimately obtain a where "r = Inr a"
    using assms(7) by (cases r) (auto simp: client_update_def res_iff Let_def)
  with up show ?thesis
    using assms(8) s peer
    by (simp add: notify_ping_complete_def ack_payload_eq [OF assms(1) peer] decode_coordinate_wire [OF assms(1)]
        no_decode_panic_def cached_coordinate_def cooridate_def Let_def hm_simps get_coordinate_def)
qed

section \<open>Properties\<close>



end
