(* ===== verification/Spec2Isabelle.thy ===== *)
theory Spec2Isabelle
  imports Wire_Theorems Membership_Theorems Event_Theorems Snapshot_Theorems Coalesce_Theorems
    Instance_Theorems Internal_Theorems Ping_Theorems
begin

text \<open>
  A verification library for serf, a gossip-based system of cluster membership,
  failure detection, events and queries written in Rust. File names are relative
  to \<open>src/serf-core/src\<close>.

  \<^bold>\<open>The program.\<close> An instance runs on top of the library memberlist, which probes
  nodes, spreads packets by gossip and exchanges full states. Memberlist calls
  the instance through a delegate (\<open>serf/delegate.rs\<close>); the handlers
  (\<open>serf/base.rs\<close>) maintain the table of members, the lists of failed and left
  ones, and the buffers of recent user events and queries, ordered by three
  Lamport clocks (\<open>types/clock.rs\<close>). What they report goes through a chain of
  tasks to the application: the one that answers internal queries
  (\<open>serf/internal_query.rs\<close>), the snapshot that logs it to a file
  (\<open>snapshot.rs\<close>), the coalescers (\<open>coalesce.rs\<close>). The application calls
  \<open>serf/api.rs\<close>, \<open>serf/query.rs\<close>, \<open>event.rs\<close> and \<open>key_manager.rs\<close>. Messages have a
  binary encoding (\<open>types/\<close>), and acknowledgements of pings carry network
  coordinates (\<open>types/coordinate.rs\<close>).

  \<^bold>\<open>Conventions.\<close> Machine integers are words where they can wrap (clocks, times,
  ids) and natural numbers where they count what is in memory. A hash map is an
  association list. A function that can fail returns a sum with the error on
  the left; the type \<open>panic\<close> is the error of one that can panic. Time is the
  argument \<open>now\<close>, randomness an argument \<open>rnd\<close>. An operation is an atomic step,
  as the lock it holds makes it; where the code suspends, the operation is
  split. Tasks and packets that an operation starts are collected in the state.

  \<^bold>\<open>Code outside the repository\<close> is an argument, and what the code relies on is a
  hypothesis: memberlist's wire primitives are the record \<open>proto\<close> with
  \<open>proto_ok\<close>, its encoding of floats \<open>f64_wire\<close> with \<open>f64_wire_ok\<close>, its keyring
  the record \<open>keyring\<close>, its joins and queues functions. \<open>Wire_Sample\<close> and
  \<open>Ping_Theorems\<close> show that the hypotheses can hold, and the closed examples of
  all properties run on these instances.

  \<^bold>\<open>The theories.\<close>

  \<^item> \<open>Serf_Prelude\<close>: integers, hash maps, results, labelled runs, and the locale
    \<open>step_system\<close> of an inductive invariant.
  \<^item> \<open>Lamport_Clock\<close> (\<open>types/clock.rs\<close>): the clock sequentially, and the atomic
    loads and exchanges of concurrent calls as steps. Every interleaving is
    linearisable; a clock stays ahead of what it has witnessed.
  \<^item> \<open>Serf_Types\<close>, \<open>Wire_Base\<close>, \<open>Wire_Messages\<close>, \<open>Wire_Query\<close>, \<open>Wire_Members\<close>,
    \<open>Wire_Frame\<close>, \<open>Wire_Sample\<close>, \<open>Wire_Theorems\<close> (\<open>types/*.rs\<close>): the messages and
    their encoders, which write into a buffer at an offset, and decoders, which
    loop over the fields. The locales \<open>encodable_fit\<close> and \<open>encodable\<close> are the
    contract of an encoder, interpreted for every message. Messages and relay
    packets survive the wire; where an encoder or decoder panics is stated.
  \<^item> \<open>Serf_State\<close> (\<open>serf.rs\<close>, \<open>event/crate_event.rs\<close>): the state of an instance
    and its construction from the clocks of a snapshot.
  \<^item> \<open>Membership\<close>, \<open>Membership_Inv\<close>, \<open>Intents\<close>, \<open>Membership_Facts\<close>, \<open>Serf_Sample\<close>,
    \<open>Membership_Theorems\<close> (\<open>serf/base.rs\<close>): notifications, gossiped intents,
    pruning, reaping, reconnecting, forced leaves. Gossip dies out, the order of
    arrival does not matter, a leave of the live node is refuted, the reaper
    removes exactly what has expired.
  \<^item> \<open>Dedup\<close>, \<open>User_Events\<close>, \<open>Queries\<close>, \<open>Query_Ring\<close>, \<open>Query_Facts\<close>,
    \<open>Event_Theorems\<close> (\<open>serf/base.rs\<close>, \<open>serf/query.rs\<close>, \<open>event.rs\<close>): events and
    queries with their rings of recent ones, filters, acknowledgements, relays,
    answers and their collection. The locale \<open>dedup\<close> is the contract of a ring;
    the query ring refines an unbounded memory.
  \<^item> \<open>Snapshot\<close>, \<open>Snapshot_Facts\<close>, \<open>Snapshot_Theorems\<close> (\<open>snapshot.rs\<close>): the log of
    the live nodes and clocks, with a file system in which every call may fail.
    Without failures reopening gives back what was recorded; with failures the
    damage is stated.
  \<^item> \<open>Coalesce\<close>, \<open>Coalesce_Facts\<close>, \<open>Coalesce_Theorems\<close> (\<open>coalesce.rs\<close>,
    \<open>coalesce/*.rs\<close>): both coalescers, instances of the locale \<open>coalescer\<close>, and
    the loop, whose timers can be lost.
  \<^item> \<open>Float64\<close>, \<open>Float64_Checks\<close>, \<open>Coordinates\<close>, \<open>Coordinate_Wire\<close>, \<open>Pings\<close>,
    \<open>Ping_Theorems\<close> (\<open>types/coordinate.rs\<close>, \<open>serf/delegate.rs\<close>): IEEE arithmetic on
    the bits of a float, coordinates and the client that moves them, their
    encoding, and what pings do with them. Whatever peers send, the coordinates
    of a node stay finite and of the right dimension.
  \<^item> \<open>Delegate\<close>, \<open>Delegate_Facts\<close>, \<open>Api\<close>, \<open>Instance\<close>, \<open>Instance_Coords\<close>,
    \<open>Instance_Facts\<close>, \<open>Instance_Theorems\<close> (\<open>serf/delegate.rs\<close>, \<open>serf/api.rs\<close>): what
    memberlist and the application make an instance do, as one step relation
    \<open>api_step\<close> over all operations. No operation gets stuck, the state is a
    function of the calls, exchanges of states spread what a node knows.
  \<^item> \<open>Internal_Queries\<close>, \<open>Key_Manager\<close>, \<open>Internal_Facts\<close>, \<open>Internal_Theorems\<close>
    (\<open>serf/internal_query.rs\<close>, \<open>key_manager.rs\<close>, \<open>serf/base.rs\<close>): the vote over a
    contested name, the key queries and the keyring file, the tally of key
    requests, rejoining, and the trimming of queues.

  \<^bold>\<open>Bounds and termination.\<close> No loop has fuel. The decoding loop ends because
  every step takes bytes, and a step that takes none is the result
  \<open>Decode_hang\<close>; the other loops recurse on their data or with a measure. The
  properties that bound the clocks assume that no Lamport time is the largest
  of its type, from which a clock wraps around.

  \<^bold>\<open>Not modelled.\<close> The construction of the tasks and channels in \<open>new_in\<close>, and
  waiting itself: tasks appear as the steps they take. The builders and defaults
  of \<open>options.rs\<close>: the options that the handlers read are fields of the state,
  with arbitrary values. The constructors and texts of \<open>error.rs\<close>. The traits of
  \<open>delegate.rs\<close> and \<open>delegate/\<close>, which the application implements. Metrics,
  logging, serde, and the generators for tests and fuzzing. The crate \<open>serf\<close>,
  which re-exports the library, and the examples, which are demonstrations. The
  function \<open>powf\<close> and the random numbers, which are arguments.
\<close>

end
